(* ===== verification/Memrpc_Prelude.thy ===== *)
theory Memrpc_Prelude
  imports Main "HOL-Library.Word"
begin

text \<open>
  Shared vocabulary of the development: the machine integer types of the sources,
  the in-memory byte image of integers (both supported platforms, x86-64 and AArch64
  Linux, are little endian, and the sources copy integers with \<^verbatim>\<open>memcpy\<close>), the byte image of
  \<^verbatim>\<open>std::string\<close>, and the generic facts on lists, words and circular indices that several
  components use.  The collection \<open>memrpc_defs\<close> gathers the small accessor definitions
  that the component proofs unfold together.
\<close>

named_theorems memrpc_defs

type_synonym u8 = "8 word"
type_synonym u16 = "16 word"
type_synonym u32 = "32 word"
type_synonym u64 = "64 word"
type_synonym bytes = "u8 list"

section \<open>Little-endian images of integers\<close>

fun le_bytes :: "nat \<Rightarrow> 'a::len word \<Rightarrow> bytes" where
  "le_bytes 0 w = []"
| "le_bytes (Suc n) w = ucast w # le_bytes n (drop_bit 8 w)"

fun le_word :: "bytes \<Rightarrow> 'a::len word" where
  "le_word [] = 0"
| "le_word (b # bs) = or (ucast b) (push_bit 8 (le_word bs))"

lemma length_le_bytes [simp]: "length (le_bytes n w) = n"
  by (induction n arbitrary: w) auto

lemma le_word_le_bytes_take_bit: "le_word (le_bytes n w) = take_bit (8 * n) w"
proof (induction n arbitrary: w)
  case (Suc n)
  show ?case
    by (rule bit_word_eqI) (auto simp: Suc bit_simps)
qed simp

lemma le_word_le_bytes [simp]:
  fixes w :: "'a::len word"
  shows "LENGTH('a) \<le> 8 * n \<Longrightarrow> le_word (le_bytes n w) = w"
  by (simp add: le_word_le_bytes_take_bit take_bit_word_eq_self)

lemma bit_le_word_beyond:
  "8 * length bs \<le> i \<Longrightarrow> \<not> bit (le_word bs :: 'a::len word) i"
  by (induction bs arbitrary: i) (auto simp: bit_simps dest: bit_imp_le_length)

lemma le_bytes_le_word:
  assumes "8 * length bs \<le> LENGTH('a)"
  shows "le_bytes (length bs) (le_word bs :: 'a::len word) = bs"
  using assms
proof (induction bs)
  case (Cons b bs)
  let ?w = "or (ucast b) (push_bit 8 (le_word bs :: 'a word))"
  have b: "ucast ?w = b"
    using Cons.prems by (intro bit_word_eqI) (auto simp: bit_simps)
  have "drop_bit 8 ?w = le_word bs"
  proof (rule bit_word_eqI)
    fix i assume "i < LENGTH('a)"
    show "bit (drop_bit 8 ?w) i \<longleftrightarrow> bit (le_word bs :: 'a word) i"
    proof (cases "i + 8 < LENGTH('a)")
      case True
      then show ?thesis by (auto simp: bit_simps dest: bit_imp_le_length)
    next
      case False
      with Cons.prems have "8 * length bs \<le> i" by simp
      then show ?thesis
        using False by (auto simp: bit_simps bit_le_word_beyond dest: bit_imp_le_length)
    qed
  qed
  with b Cons show ?case by simp
qed simp

lemma le_bytes_inject:
  fixes v w :: "'a::len word"
  assumes "LENGTH('a) \<le> 8 * n"
  shows "le_bytes n v = le_bytes n w \<longleftrightarrow> v = w"
  using assms by (metis le_word_le_bytes)

section \<open>Byte images of strings\<close>

definition str_bytes :: "string \<Rightarrow> bytes" where
  "str_bytes s = map (\<lambda>c. of_nat (of_char c)) s"

definition bytes_str :: "bytes \<Rightarrow> string" where
  "bytes_str bs = map (\<lambda>b. char_of (unat b)) bs"

lemma bytes_str_str_bytes [simp]: "bytes_str (str_bytes s) = s"
  by (simp add: bytes_str_def str_bytes_def comp_def unat_of_nat)

lemma str_bytes_bytes_str [simp]: "str_bytes (bytes_str bs) = bs"
proof -
  have "unat b < 256" for b :: u8
    by (rule order_less_le_trans [OF unsigned_less]) simp
  then have "of_nat (unat b mod 256) = b" for b :: u8
    by simp
  then show ?thesis
    by (simp add: bytes_str_def str_bytes_def comp_def map_idI)
qed

lemma length_str_bytes [simp]: "length (str_bytes s) = length s"
  by (simp add: str_bytes_def)

lemma length_bytes_str [simp]: "length (bytes_str bs) = length bs"
  by (simp add: bytes_str_def)

lemma str_bytes_Nil_iff [simp]: "str_bytes s = [] \<longleftrightarrow> s = []"
  by (simp add: str_bytes_def)

lemma bytes_str_Nil_iff [simp]: "bytes_str bs = [] \<longleftrightarrow> bs = []"
  by (simp add: bytes_str_def)

section \<open>Substring search, as std::string::find and rfind(prefix, 0)\<close>

fun prefix_of :: "'a list \<Rightarrow> 'a list \<Rightarrow> bool" where
  "prefix_of [] ys = True"
| "prefix_of (x # xs) [] = False"
| "prefix_of (x # xs) (y # ys) = (x = y \<and> prefix_of xs ys)"

lemma prefix_of_iff: "prefix_of xs ys \<longleftrightarrow> (\<exists>zs. ys = xs @ zs)"
  by (induction xs ys rule: prefix_of.induct) auto

lemma prefix_of_append [simp]: "prefix_of xs (xs @ ys)"
  by (simp add: prefix_of_iff)

text \<open>\<open>find_str s key\<close> is the position \<^verbatim>\<open>s.find(key)\<close>, \<open>None\<close> standing for \<^verbatim>\<open>npos\<close>.\<close>

fun find_str :: "'a list \<Rightarrow> 'a list \<Rightarrow> nat option" where
  "find_str [] key = (if key = [] then Some 0 else None)"
| "find_str (c # cs) key =
     (if prefix_of key (c # cs) then Some 0 else map_option Suc (find_str cs key))"

lemma find_str_None_iff: "find_str s key = None \<longleftrightarrow> (\<nexists>pre post. s = pre @ key @ post)"
proof (induction s)
  case (Cons c cs)
  show ?case
  proof (cases "prefix_of key (c # cs)")
    case True
    then show ?thesis by (metis append_Nil find_str.simps(2) option.distinct(1) prefix_of_iff)
  next
    case False
    then have "(\<exists>pre post. c # cs = pre @ key @ post) \<longleftrightarrow> (\<exists>pre post. cs = pre @ key @ post)"
      by (metis append_Cons append_Nil list.exhaust list.inject prefix_of_iff)
    with False Cons show ?thesis by simp
  qed
qed auto

lemma find_str_Some_split:
  "find_str s key = Some i \<Longrightarrow> \<exists>pre post. s = pre @ key @ post \<and> length pre = i"
proof (induction s arbitrary: i)
  case (Cons c cs)
  then show ?case
  proof (cases "prefix_of key (c # cs)")
    case True
    with Cons.prems show ?thesis by (auto simp: prefix_of_iff)
  next
    case False
    with Cons.prems obtain j where j: "find_str cs key = Some j" "i = Suc j" by auto
    from Cons.IH [OF j(1)] obtain pre post where "cs = pre @ key @ post" "length pre = j"
      by blast
    with j(2) show ?thesis by (intro exI [of _ "c # pre"] exI [of _ post]) simp
  qed
qed (auto split: if_splits)

section \<open>Words and circular indices\<close>

lemma unat_sub_cases:
  fixes a b :: "'a::len word"
  shows "unat (a - b) = (if unat b \<le> unat a then unat a - unat b
     else unat a + 2 ^ LENGTH('a) - unat b)"
  by (simp add: unat_sub_if' not_le)

lemma unat_less_pow: "unat (w :: 'a::len word) < 2 ^ LENGTH('a)"
  by (rule unsigned_less)

lemma unat_mod_word: "unat (a mod b) = unat a mod unat b"
  by (simp add: unat_mod)

text \<open>
  Advancing a \<open>w\<close>-bit cursor and reducing it modulo the capacity commute when the capacity
  divides \<open>2 ^ w\<close>.
\<close>

lemma unat_add_mod_dvd:
  fixes h :: "'a::len word"
  assumes "c dvd 2 ^ LENGTH('a)"
  shows "unat (h + of_nat i) mod c = (unat h + i) mod c"
proof -
  have "unat (h + of_nat i) = (unat h + i) mod 2 ^ LENGTH('a)"
    by (simp add: unat_word_ariths unat_of_nat mod_simps)
  then show ?thesis using assms by (simp add: mod_mod_cancel)
qed

lemma mod_window_inj:
  fixes a c i j :: nat
  assumes eq: "(a + i) mod c = (a + j) mod c" and "i < c" "j < c"
  shows "i = j"
proof (rule ccontr)
  have less: False if "k < l" "l < c" "(a + k) mod c = (a + l) mod c" for k l
  proof -
    have "c dvd (a + l) - (a + k)"
      using that mod_eq_dvd_iff_nat [of "a + k" "a + l" c] by simp
    then show False using that by (auto dest: dvd_imp_le)
  qed
  assume "i \<noteq> j"
  then show False
    using less [of i j] less [of j i] assms by (auto simp: neq_iff)
qed

section \<open>Lists\<close>

lemma map_upt_tail:
  "n \<noteq> 0 \<Longrightarrow> map f [0..<n] = f 0 # map (\<lambda>i. f (Suc i)) [0..<n - 1]"
  by (cases n) (simp_all add: upt_conv_Cons map_Suc_upt [symmetric] comp_def del: upt_Suc)

section \<open>Decimal numbers\<close>

text \<open>\<^verbatim>\<open>std::to_string\<close> of an unsigned and of a signed integer.\<close>

definition digit_char :: "nat \<Rightarrow> char" where
  "digit_char d = char_of (48 + d)"

fun nat_str :: "nat \<Rightarrow> string" where
  "nat_str n = (if n < 10 then [digit_char n] else nat_str (n div 10) @ [digit_char (n mod 10)])"

declare nat_str.simps [simp del]

definition int_str :: "int \<Rightarrow> string" where
  "int_str i = (if i < 0 then CHR ''-'' # nat_str (nat (- i)) else nat_str (nat i))"

lemma of_char_digit: "d < 10 \<Longrightarrow> (of_char (digit_char d) :: nat) = 48 + d"
  by (simp add: digit_char_def)

lemma digit_char_range: "d < 10 \<Longrightarrow> c = digit_char d \<Longrightarrow> 48 \<le> (of_char c :: nat) \<and> (of_char c :: nat) < 58"
  using of_char_digit [of d] by simp

lemma nat_str_digits: "c \<in> set (nat_str n) \<Longrightarrow> 48 \<le> (of_char c :: nat) \<and> (of_char c :: nat) < 58"
proof (induction n rule: nat_str.induct)
  case (1 n)
  show ?case
  proof (cases "n < 10")
    case True
    with 1 show ?thesis by (simp add: nat_str.simps digit_char_range)
  next
    case False
    with 1 digit_char_range [of "n mod 10" c] show ?thesis
      by (auto simp: nat_str.simps [of n])
  qed
qed

lemma no_dot_nat_str: "CHR ''.'' \<notin> set (nat_str n)"
proof
  assume "CHR ''.'' \<in> set (nat_str n)"
  from nat_str_digits [OF this] show False by simp
qed

lemma no_dot_int_str: "CHR ''.'' \<notin> set (int_str i)"
  by (simp add: int_str_def no_dot_nat_str)

lemma nat_str_nonempty [simp]: "nat_str n \<noteq> []"
  by (subst nat_str.simps) simp

end
