(* ===== verification/Memrpc_Types.thy ===== *)
theory Memrpc_Types
  imports Memrpc_Prelude
begin

text \<open>
  The data of the framework: \<^verbatim>\<open>memrpc/include/memrpc/core/types.h\<close>, \<^verbatim>\<open>protocol.h\<close>,
  \<^verbatim>\<open>bootstrap.h\<close> and the request/response structures of \<^verbatim>\<open>rpc_client.h\<close> and \<^verbatim>\<open>handler.h\<close>.
  Record fields carry a short prefix of their struct.  Payload arrays of ring entries are
  lists; the two builders that fill them (client and server side) keep the array length.
\<close>

section \<open>types.h\<close>

datatype Priority = PriorityNormal | PriorityHigh

fun Priority_u8 :: "Priority \<Rightarrow> u8" where
  "Priority_u8 PriorityNormal = 0"
| "Priority_u8 PriorityHigh = 1"

text \<open>
  \<^verbatim>\<open>enum class StatusCode : uint8_t\<close>.  A ring entry carries the status as 32 bits and the
  client casts it back, so values without an enumerator exist: \<open>UnnamedStatus\<close>.
\<close>

datatype StatusCode =
    Ok
  | QueueFull
  | QueueTimeout
  | ExecTimeout
  | PeerDisconnected
  | ProtocolMismatch
  | EngineInternalError
  | InvalidArgument
  | CrashedDuringExecution
  | CooldownActive
  | ClientClosed
  | PayloadTooLarge
  | UnnamedStatus u8

fun StatusCode_u8 :: "StatusCode \<Rightarrow> u8" where
  "StatusCode_u8 Ok = 0"
| "StatusCode_u8 QueueFull = 1"
| "StatusCode_u8 QueueTimeout = 2"
| "StatusCode_u8 ExecTimeout = 3"
| "StatusCode_u8 PeerDisconnected = 4"
| "StatusCode_u8 ProtocolMismatch = 5"
| "StatusCode_u8 EngineInternalError = 6"
| "StatusCode_u8 InvalidArgument = 7"
| "StatusCode_u8 CrashedDuringExecution = 8"
| "StatusCode_u8 CooldownActive = 9"
| "StatusCode_u8 ClientClosed = 10"
| "StatusCode_u8 PayloadTooLarge = 11"
| "StatusCode_u8 (UnnamedStatus b) = b"

definition StatusCode_of_u8 :: "u8 \<Rightarrow> StatusCode" where
  "StatusCode_of_u8 b =
     (if b = 0 then Ok else if b = 1 then QueueFull else if b = 2 then QueueTimeout
      else if b = 3 then ExecTimeout else if b = 4 then PeerDisconnected
      else if b = 5 then ProtocolMismatch else if b = 6 then EngineInternalError
      else if b = 7 then InvalidArgument else if b = 8 then CrashedDuringExecution
      else if b = 9 then CooldownActive else if b = 10 then ClientClosed
      else if b = 11 then PayloadTooLarge else UnnamedStatus b)"

text \<open>\<^verbatim>\<open>static_cast<uint32_t>(status)\<close> and \<^verbatim>\<open>static_cast<StatusCode>(word)\<close>: the second
  truncates to the underlying 8 bits.\<close>

definition StatusCode_u32 :: "StatusCode \<Rightarrow> u32" where
  "StatusCode_u32 s = ucast (StatusCode_u8 s)"

definition StatusCode_of_u32 :: "u32 \<Rightarrow> StatusCode" where
  "StatusCode_of_u32 w = StatusCode_of_u8 (ucast w)"

text \<open>A status that is one of the enumerators, as every status the framework produces is.\<close>

fun named_status :: "StatusCode \<Rightarrow> bool" where
  "named_status (UnnamedStatus b) = False"
| "named_status _ = True"

lemma StatusCode_of_u8_u8 [simp]: "named_status s \<Longrightarrow> StatusCode_of_u8 (StatusCode_u8 s) = s"
  by (cases s) (simp_all add: StatusCode_of_u8_def)

lemma StatusCode_of_u32_u32 [simp]: "named_status s \<Longrightarrow> StatusCode_of_u32 (StatusCode_u32 s) = s"
  by (cases s) (simp_all add: StatusCode_of_u32_def StatusCode_u32_def StatusCode_of_u8_def)

record RpcEvent =
  ev_eventDomain :: u32
  ev_eventType :: u32
  ev_flags :: u32
  ev_payload :: bytes

record RpcReply =
  rp_status :: StatusCode
  rp_payload :: bytes

definition default_RpcReply :: RpcReply where
  "default_RpcReply = \<lparr>rp_status = Ok, rp_payload = []\<rparr>"

section \<open>protocol.h\<close>

definition SHARED_MEMORY_MAGIC :: u32 where
  "SHARED_MEMORY_MAGIC = 0x4d454d52"

definition PROTOCOL_VERSION :: u32 where
  "PROTOCOL_VERSION = 9"

definition RING_ENTRY_BYTES :: nat where
  "RING_ENTRY_BYTES = 8192"

datatype ResponseMessageKind = ReplyMessage | EventMessage

text \<open>Payload kinds (file_payload.h) are a raw byte in the entries: 0 inline, 1 file reference.\<close>

definition PAYLOAD_KIND_INLINE :: u8 where
  "PAYLOAD_KIND_INLINE = 0"

definition PAYLOAD_KIND_FILE_REF :: u8 where
  "PAYLOAD_KIND_FILE_REF = 1"

text \<open>\<^verbatim>\<open>SumFieldBytes\<close> over the field types of the two entry structs.\<close>

definition RequestRingEntry_HEADER_BYTES :: nat where
  "RequestRingEntry_HEADER_BYTES = sum_list [8, 4, 2, 1, 1, 4]"

definition RequestRingEntry_INLINE_PAYLOAD_BYTES :: nat where
  "RequestRingEntry_INLINE_PAYLOAD_BYTES = RING_ENTRY_BYTES - RequestRingEntry_HEADER_BYTES"

definition ResponseRingEntry_HEADER_BYTES :: nat where
  "ResponseRingEntry_HEADER_BYTES = sum_list [8, 4, 4, 4, 4, 4, 2, 1]"

definition ResponseRingEntry_INLINE_PAYLOAD_BYTES :: nat where
  "ResponseRingEntry_INLINE_PAYLOAD_BYTES = RING_ENTRY_BYTES - ResponseRingEntry_HEADER_BYTES"

record RequestRingEntry =
  rq_requestId :: u64
  rq_execTimeoutMs :: u32
  rq_opcode :: u16
  rq_priority :: u8
  rq_payloadKind :: u8
  rq_payloadSize :: u32
  rq_payload :: bytes

record ResponseRingEntry =
  rs_requestId :: u64
  rs_statusCode :: u32
  rs_eventDomain :: u32
  rs_eventType :: u32
  rs_flags :: u32
  rs_resultSize :: u32
  rs_messageKind :: ResponseMessageKind
  rs_payloadKind :: u8
  rs_payload :: bytes

definition default_RequestRingEntry :: RequestRingEntry where
  "default_RequestRingEntry =
     \<lparr>rq_requestId = 0, rq_execTimeoutMs = 0, rq_opcode = 0, rq_priority = 0,
      rq_payloadKind = 0, rq_payloadSize = 0,
      rq_payload = replicate RequestRingEntry_INLINE_PAYLOAD_BYTES 0\<rparr>"

definition default_ResponseRingEntry :: ResponseRingEntry where
  "default_ResponseRingEntry =
     \<lparr>rs_requestId = 0, rs_statusCode = 0, rs_eventDomain = 0, rs_eventType = 0, rs_flags = 0,
      rs_resultSize = 0, rs_messageKind = ReplyMessage, rs_payloadKind = 0,
      rs_payload = replicate ResponseRingEntry_INLINE_PAYLOAD_BYTES 0\<rparr>"

definition DEFAULT_MAX_REQUEST_BYTES :: u32 where
  "DEFAULT_MAX_REQUEST_BYTES = of_nat RequestRingEntry_INLINE_PAYLOAD_BYTES"

definition DEFAULT_MAX_RESPONSE_BYTES :: u32 where
  "DEFAULT_MAX_RESPONSE_BYTES = of_nat ResponseRingEntry_INLINE_PAYLOAD_BYTES"

definition DEFAULT_RING_SIZE :: u32 where
  "DEFAULT_RING_SIZE = 8"

lemma request_inline_bytes: "RequestRingEntry_INLINE_PAYLOAD_BYTES = 8172"
  by (simp add: RequestRingEntry_INLINE_PAYLOAD_BYTES_def RING_ENTRY_BYTES_def
      RequestRingEntry_HEADER_BYTES_def)

lemma response_inline_bytes: "ResponseRingEntry_INLINE_PAYLOAD_BYTES = 8161"
  by (simp add: ResponseRingEntry_INLINE_PAYLOAD_BYTES_def RING_ENTRY_BYTES_def
      ResponseRingEntry_HEADER_BYTES_def)

text \<open>\<^verbatim>\<open>std::memcpy(entry.payload.data(), payload.data(), payload.size())\<close> into a fixed array.\<close>

definition copy_into :: "bytes \<Rightarrow> bytes \<Rightarrow> bytes" where
  "copy_into arr src = src @ drop (length src) arr"

lemma length_copy_into: "length src \<le> length arr \<Longrightarrow> length (copy_into arr src) = length arr"
  by (simp add: copy_into_def)

lemma take_copy_into [simp]: "take (length src) (copy_into arr src) = src"
  by (simp add: copy_into_def)

section \<open>bootstrap.h\<close>

datatype ChannelHealthStatus =
  HealthHealthy | HealthTimeout | HealthMalformed | HealthUnhealthy | HealthSessionMismatch
  | HealthUnsupported

record ChannelHealthResult =
  ch_status :: ChannelHealthStatus
  ch_sessionId :: u64

definition default_ChannelHealthResult :: ChannelHealthResult where
  "default_ChannelHealthResult = \<lparr>ch_status = HealthUnsupported, ch_sessionId = 0\<rparr>"

record BootstrapHandles =
  bh_shmFd :: int
  bh_highReqEventFd :: int
  bh_normalReqEventFd :: int
  bh_respEventFd :: int
  bh_reqCreditEventFd :: int
  bh_respCreditEventFd :: int
  bh_protocolVersion :: u32
  bh_sessionId :: u64

definition MakeDefaultBootstrapHandles :: BootstrapHandles where
  "MakeDefaultBootstrapHandles =
     \<lparr>bh_shmFd = -1, bh_highReqEventFd = -1, bh_normalReqEventFd = -1, bh_respEventFd = -1,
      bh_reqCreditEventFd = -1, bh_respCreditEventFd = -1, bh_protocolVersion = 0,
      bh_sessionId = 0\<rparr>"

text \<open>The six descriptor fields in declaration order, and those of them that are open.\<close>

definition handle_fds :: "BootstrapHandles \<Rightarrow> int list" where
  "handle_fds h = [bh_shmFd h, bh_highReqEventFd h, bh_normalReqEventFd h, bh_respEventFd h,
     bh_reqCreditEventFd h, bh_respCreditEventFd h]"

definition open_fds :: "BootstrapHandles \<Rightarrow> int list" where
  "open_fds h = filter (\<lambda>fd. 0 \<le> fd) (handle_fds h)"

lemma open_fds_default [simp]: "open_fds MakeDefaultBootstrapHandles = []"
  by (simp add: open_fds_def handle_fds_def MakeDefaultBootstrapHandles_def)

section \<open>rpc_client.h and handler.h\<close>

record RpcCall =
  ca_opcode :: u16
  ca_priority :: Priority
  ca_execTimeoutMs :: u32
  ca_payload :: bytes

record RpcServerCall =
  sc_opcode :: u16
  sc_priority :: Priority
  sc_execTimeoutMs :: u32
  sc_payload :: bytes

text \<open>
  \<^verbatim>\<open>RpcHandler\<close>: application code called with the decoded request and the reply it fills in.
  \<open>None\<close> stands for an empty \<^verbatim>\<open>std::function\<close>.
\<close>

type_synonym RpcHandler = "RpcServerCall \<Rightarrow> RpcReply \<Rightarrow> RpcReply"

end
