(* ===== verification/Memrpc_Ring.thy ===== *)
theory Memrpc_Ring
  imports Memrpc_Types
begin

text \<open>
  The shared-memory rings: \<^verbatim>\<open>RingCursor\<close> (\<^verbatim>\<open>shm_layout.h\<close>) and the push and pop of
  \<^verbatim>\<open>session.cpp\<close>.  Head and tail are free-running 32-bit counters; the slot of a counter
  is its value modulo the capacity.  A \<^verbatim>\<open>RingAccess\<close> is \<open>'e Ring option\<close>, \<open>None\<close> for the
  null pointers that \<^verbatim>\<open>ResolveRing\<close> returns without a mapping.

  The abstract contract of a bounded queue is the locale \<open>bounded_fifo\<close>; the ring interprets
  it whenever its capacity divides \<open>2 ^ 32\<close>.
\<close>

section \<open>Cursors, push and pop\<close>

record RingCursor =
  rc_head :: u32
  rc_tail :: u32
  rc_capacity :: u32
  rc_reserved :: u32

record 'e Ring =
  rg_cursor :: RingCursor
  rg_entries :: "'e list"

definition RingCount :: "RingCursor \<Rightarrow> u32" where
  "RingCount c = rc_tail c - rc_head c"

definition RingCountIsOneAfterPush :: "RingCursor \<Rightarrow> bool" where
  "RingCountIsOneAfterPush c \<longleftrightarrow> rc_tail c - rc_head c = 1"

definition PushRingEntry :: "'e Ring option \<Rightarrow> 'e \<Rightarrow> StatusCode \<times> 'e Ring option" where
  "PushRingEntry access entry =
     (case access of
        None \<Rightarrow> (EngineInternalError, None)
      | Some r \<Rightarrow>
          (let cur = rg_cursor r; head = rc_head cur; tail = rc_tail cur
           in if tail - head \<ge> rc_capacity cur then (QueueFull, Some r)
              else (Ok, Some (r\<lparr>rg_entries := (rg_entries r)[unat (tail mod rc_capacity cur) := entry],
                     rg_cursor := cur\<lparr>rc_tail := tail + 1\<rparr>\<rparr>))))"

definition PopRingEntry :: "'e Ring option \<Rightarrow> 'e option \<times> 'e Ring option" where
  "PopRingEntry access =
     (case access of
        None \<Rightarrow> (None, None)
      | Some r \<Rightarrow>
          (let cur = rg_cursor r; head = rc_head cur; tail = rc_tail cur
           in if tail = head then (None, Some r)
              else (Some (rg_entries r ! unat (head mod rc_capacity cur)),
                    Some (r\<lparr>rg_cursor := cur\<lparr>rc_head := head + 1\<rparr>\<rparr>))))"

section \<open>The contents of a ring\<close>

abbreviation ring_head :: "'e Ring \<Rightarrow> u32" where
  "ring_head r \<equiv> rc_head (rg_cursor r)"

abbreviation ring_tail :: "'e Ring \<Rightarrow> u32" where
  "ring_tail r \<equiv> rc_tail (rg_cursor r)"

abbreviation ring_cap :: "'e Ring \<Rightarrow> nat" where
  "ring_cap r \<equiv> unat (rc_capacity (rg_cursor r))"

abbreviation ring_count :: "'e Ring \<Rightarrow> nat" where
  "ring_count r \<equiv> unat (RingCount (rg_cursor r))"

definition ring_slot :: "'e Ring \<Rightarrow> u32 \<Rightarrow> nat" where
  "ring_slot r c = unat (c mod rc_capacity (rg_cursor r))"

definition ring_contents :: "'e Ring \<Rightarrow> 'e list" where
  "ring_contents r =
     map (\<lambda>i. rg_entries r ! ring_slot r (ring_head r + of_nat i)) [0..<ring_count r]"

text \<open>What \<^verbatim>\<open>ValidateRingCursor\<close> and the layout establish: a positive capacity, a count within
  it and an array of that length.\<close>

definition ring_ok :: "'e Ring \<Rightarrow> bool" where
  "ring_ok r \<longleftrightarrow> 0 < ring_cap r \<and> length (rg_entries r) = ring_cap r \<and> ring_count r \<le> ring_cap r"

text \<open>The additional requirement of cursors that wrap: the capacity is a power of two.\<close>

definition cap_wraps :: "'e Ring \<Rightarrow> bool" where
  "cap_wraps r \<longleftrightarrow> ring_cap r dvd 2 ^ 32"

definition ring_inv :: "'e Ring \<Rightarrow> bool" where
  "ring_inv r \<longleftrightarrow> ring_ok r \<and> cap_wraps r"

text \<open>The two halves of a push, as the source orders them: store the entry, then publish it by
  advancing the tail; and the publication of a pop.\<close>

definition store_tail :: "'e Ring \<Rightarrow> 'e \<Rightarrow> 'e Ring" where
  "store_tail r e = r\<lparr>rg_entries := (rg_entries r)[ring_slot r (ring_tail r) := e]\<rparr>"

definition advance_tail :: "'e Ring \<Rightarrow> 'e Ring" where
  "advance_tail r = r\<lparr>rg_cursor := (rg_cursor r)\<lparr>rc_tail := ring_tail r + 1\<rparr>\<rparr>"

definition advance_head :: "'e Ring \<Rightarrow> 'e Ring" where
  "advance_head r = r\<lparr>rg_cursor := (rg_cursor r)\<lparr>rc_head := ring_head r + 1\<rparr>\<rparr>"

lemmas ring_defs = ring_slot_def store_tail_def advance_tail_def advance_head_def RingCount_def

lemma length_ring_contents [simp]: "length (ring_contents r) = ring_count r"
  by (simp add: ring_contents_def)

lemma push_full: "ring_cap r \<le> ring_count r \<Longrightarrow> PushRingEntry (Some r) e = (QueueFull, Some r)"
  by (simp add: PushRingEntry_def RingCount_def Let_def word_le_nat_alt)

lemma push_room:
  "ring_count r < ring_cap r \<Longrightarrow>
     PushRingEntry (Some r) e = (Ok, Some (advance_tail (store_tail r e)))"
  by (simp add: PushRingEntry_def ring_defs Let_def word_le_nat_alt)

lemma pop_empty: "ring_count r = 0 \<Longrightarrow> PopRingEntry (Some r) = (None, Some r)"
  by (simp add: PopRingEntry_def RingCount_def Let_def unat_eq_0)

lemma pop_some:
  "0 < ring_count r \<Longrightarrow>
     PopRingEntry (Some r) = (Some (rg_entries r ! ring_slot r (ring_head r)), Some (advance_head r))"
  by (auto simp: PopRingEntry_def ring_defs Let_def)

lemma store_tail_cursor [simp]: "rg_cursor (store_tail r e) = rg_cursor r"
  by (simp add: store_tail_def)

lemma advance_entries [simp]:
  "rg_entries (advance_tail r) = rg_entries r" "rg_entries (advance_head r) = rg_entries r"
  by (simp_all add: advance_tail_def advance_head_def)

lemma advance_cursor [simp]:
  "ring_tail (advance_tail r) = ring_tail r + 1" "ring_head (advance_tail r) = ring_head r"
  "ring_tail (advance_head r) = ring_tail r" "ring_head (advance_head r) = ring_head r + 1"
  "rc_capacity (rg_cursor (advance_tail r)) = rc_capacity (rg_cursor r)"
  "rc_capacity (rg_cursor (advance_head r)) = rc_capacity (rg_cursor r)"
  by (simp_all add: advance_tail_def advance_head_def)

lemma ring_slot_cong [simp]:
  "ring_slot (store_tail r e) = ring_slot r" "ring_slot (advance_tail r) = ring_slot r"
  "ring_slot (advance_head r) = ring_slot r"
  by (simp_all add: ring_slot_def fun_eq_iff)

lemma ring_slot_offset:
  assumes "cap_wraps r"
  shows "ring_slot r (ring_head r + of_nat i) = (unat (ring_head r) + i) mod ring_cap r"
  using assms unat_add_mod_dvd [of "ring_cap r" "ring_head r" i]
  by (simp add: ring_slot_def unat_mod_word cap_wraps_def)

lemma ring_tail_offset: "ring_tail r = ring_head r + of_nat (ring_count r)"
  by (simp add: RingCount_def)

lemma head_plus_count [simp]: "ring_head r + RingCount (rg_cursor r) = ring_tail r"
  by (simp add: RingCount_def)

lemma ring_slot_tail:
  assumes "cap_wraps r"
  shows "ring_slot r (ring_tail r) = (unat (ring_head r) + ring_count r) mod ring_cap r"
  using ring_slot_offset [OF assms, of "ring_count r"] by simp

lemma count_advance_tail:
  assumes "ring_count r < ring_cap r"
  shows "ring_count (advance_tail r) = Suc (ring_count r)"
proof -
  have "Suc (ring_count r) < 2 ^ 32"
    using assms unat_less_pow [of "rc_capacity (rg_cursor r)"] by simp
  moreover have "RingCount (rg_cursor (advance_tail r)) = of_nat (Suc (ring_count r))"
    by (simp add: RingCount_def advance_tail_def)
  ultimately show ?thesis by (simp add: unat_of_nat del: of_nat_Suc)
qed

lemma count_advance_head:
  assumes "0 < ring_count r"
  shows "ring_count (advance_head r) = ring_count r - 1"
proof -
  have "RingCount (rg_cursor (advance_head r)) = RingCount (rg_cursor r) - 1"
    by (simp add: RingCount_def advance_head_def)
  moreover have "RingCount (rg_cursor r) \<noteq> 0" using assms by (metis unat_0 less_irrefl)
  ultimately show ?thesis by (simp add: unat_minus_one)
qed

lemma contents_store_tail:
  assumes "cap_wraps r" "ring_count r < ring_cap r"
  shows "ring_contents (store_tail r e) = ring_contents r"
proof -
  have "ring_slot r (ring_tail r) \<noteq> ring_slot r (ring_head r + of_nat i)" if "i < ring_count r" for i
    unfolding ring_slot_tail [OF assms(1)] ring_slot_offset [OF assms(1)]
    using mod_window_inj [of "unat (ring_head r)" i "ring_cap r" "ring_count r"] that assms(2) by auto
  then show ?thesis
    by (simp add: ring_contents_def) (simp add: store_tail_def)
qed

lemma slot_store_tail:
  "ring_ok r \<Longrightarrow> rg_entries (store_tail r e) ! ring_slot r (ring_tail r) = e"
  by (simp add: ring_ok_def store_tail_def ring_slot_def unat_mod_word)

lemma contents_advance_tail:
  assumes "ring_count r < ring_cap r"
  shows "ring_contents (advance_tail r) =
    ring_contents r @ [rg_entries r ! ring_slot r (ring_tail r)]"
  unfolding ring_contents_def count_advance_tail [OF assms]
  by simp

lemma contents_advance_head:
  assumes "0 < ring_count r"
  shows "ring_contents r = rg_entries r ! ring_slot r (ring_head r) # ring_contents (advance_head r)"
  using assms
  by (simp add: ring_contents_def count_advance_head map_upt_tail [where n = "ring_count r"] add.assoc
      del: upt_Suc)

lemma ring_ok_step:
  assumes "ring_ok r"
  shows "ring_ok (store_tail r e)"
    and "ring_count r < ring_cap r \<Longrightarrow> ring_ok (advance_tail r)"
    and "0 < ring_count r \<Longrightarrow> ring_ok (advance_head r)"
  using assms by (auto simp: ring_ok_def count_advance_tail count_advance_head store_tail_def)

lemma cap_wraps_step [simp]:
  "cap_wraps (store_tail r e) = cap_wraps r" "cap_wraps (advance_tail r) = cap_wraps r"
  "cap_wraps (advance_head r) = cap_wraps r"
  by (simp_all add: cap_wraps_def)

section \<open>The bounded queue contract\<close>

text \<open>The abstract queue: a list with a capacity; a push that finds it full and a pop that finds it
  empty change nothing.\<close>

datatype 'e queue_op = PushOp 'e | PopOp

datatype 'e queue_out = Pushed StatusCode | Popped "'e option"

fun run_queue ::
  "('q \<Rightarrow> 'e \<Rightarrow> StatusCode \<times> 'q) \<Rightarrow> ('q \<Rightarrow> 'e option \<times> 'q) \<Rightarrow> 'q \<Rightarrow> 'e queue_op list
     \<Rightarrow> 'e queue_out list" where
  "run_queue push pop q [] = []"
| "run_queue push pop q (PushOp e # ops) =
     Pushed (fst (push q e)) # run_queue push pop (snd (push q e)) ops"
| "run_queue push pop q (PopOp # ops) =
     Popped (fst (pop q)) # run_queue push pop (snd (pop q)) ops"

definition spec_push :: "nat \<Rightarrow> 'e list \<Rightarrow> 'e \<Rightarrow> StatusCode \<times> 'e list" where
  "spec_push cap xs e = (if cap \<le> length xs then (QueueFull, xs) else (Ok, xs @ [e]))"

definition spec_pop :: "'e list \<Rightarrow> 'e option \<times> 'e list" where
  "spec_pop xs = (case xs of [] \<Rightarrow> (None, []) | x # ys \<Rightarrow> (Some x, ys))"

locale bounded_fifo =
  fixes push :: "'q \<Rightarrow> 'e \<Rightarrow> StatusCode \<times> 'q"
    and pop :: "'q \<Rightarrow> 'e option \<times> 'q"
    and contents :: "'q \<Rightarrow> 'e list"
    and invar :: "'q \<Rightarrow> bool"
    and cap :: "'q \<Rightarrow> nat"
  assumes push_spec: "invar q \<Longrightarrow>
      (fst (push q e), contents (snd (push q e))) = spec_push (cap q) (contents q) e"
    and push_inv: "invar q \<Longrightarrow> invar (snd (push q e)) \<and> cap (snd (push q e)) = cap q"
    and pop_spec: "invar q \<Longrightarrow> (fst (pop q), contents (snd (pop q))) = spec_pop (contents q)"
    and pop_inv: "invar q \<Longrightarrow> invar (snd (pop q)) \<and> cap (snd (pop q)) = cap q"
begin

lemma run_refines:
  assumes "invar q"
  shows "run_queue push pop q ops = run_queue (spec_push (cap q)) spec_pop (contents q) ops"
  using assms
proof (induction ops arbitrary: q)
  case (Cons op ops)
  show ?case
  proof (cases op)
    case (PushOp e)
    with Cons push_spec [of q e] push_inv [of q e] show ?thesis
      by (simp add: prod_eq_iff)
  next
    case PopOp
    with Cons pop_spec [of q] pop_inv [of q] show ?thesis
      by (simp add: prod_eq_iff)
  qed
qed simp

end

text \<open>The values popped by a run of the abstract queue form a prefix of what was in it followed by
  what it accepted: first in, first out, nothing lost, nothing duplicated.\<close>

fun popped_values :: "'e queue_out list \<Rightarrow> 'e list" where
  "popped_values [] = []"
| "popped_values (Popped (Some e) # os) = e # popped_values os"
| "popped_values (_ # os) = popped_values os"

fun accepted_values :: "'e queue_op list \<Rightarrow> 'e queue_out list \<Rightarrow> 'e list" where
  "accepted_values (PushOp e # ops) (Pushed Ok # os) = e # accepted_values ops os"
| "accepted_values (_ # ops) (_ # os) = accepted_values ops os"
| "accepted_values _ _ = []"

lemma spec_fifo:
  "prefix_of (popped_values (run_queue (spec_push c) spec_pop xs ops))
     (xs @ accepted_values ops (run_queue (spec_push c) spec_pop xs ops))"
proof (induction ops arbitrary: xs)
  case (Cons op ops)
  show ?case
  proof (cases op)
    case (PushOp e)
    with Cons [of "snd (spec_push c xs e)"] show ?thesis
      by (auto simp: spec_push_def)
  next
    case PopOp
    with Cons [of "snd (spec_pop xs)"] show ?thesis
      by (cases xs) (auto simp: spec_pop_def)
  qed
qed simp

text \<open>The ring through its access type; a missing mapping is not a queue.\<close>

fun access_inv :: "'e Ring option \<Rightarrow> bool" where
  "access_inv None = False"
| "access_inv (Some r) = ring_inv r"

fun access_contents :: "'e Ring option \<Rightarrow> 'e list" where
  "access_contents None = []"
| "access_contents (Some r) = ring_contents r"

fun access_cap :: "'e Ring option \<Rightarrow> nat" where
  "access_cap None = 0"
| "access_cap (Some r) = ring_cap r"

lemma push_contents:
  assumes "ring_inv r" "ring_count r < ring_cap r"
  shows "ring_contents (advance_tail (store_tail r e)) = ring_contents r @ [e]"
  using assms contents_advance_tail [of "store_tail r e"]
  by (simp add: ring_inv_def contents_store_tail slot_store_tail)

lemma ring_inv_push: "ring_inv r \<Longrightarrow> ring_count r < ring_cap r \<Longrightarrow> ring_inv (advance_tail (store_tail r e))"
  by (simp add: ring_inv_def ring_ok_step)

lemma ring_inv_pop: "ring_inv r \<Longrightarrow> 0 < ring_count r \<Longrightarrow> ring_inv (advance_head r)"
  by (simp add: ring_inv_def ring_ok_step)

lemma access_push_spec:
  assumes "access_inv q"
  shows "(fst (PushRingEntry q e), access_contents (snd (PushRingEntry q e))) =
     spec_push (access_cap q) (access_contents q) e"
    and "access_inv (snd (PushRingEntry q e)) \<and> access_cap (snd (PushRingEntry q e)) = access_cap q"
proof -
  obtain r where r: "q = Some r" "ring_inv r" using assms by (cases q) auto
  show "(fst (PushRingEntry q e), access_contents (snd (PushRingEntry q e))) =
     spec_push (access_cap q) (access_contents q) e"
    using r by (cases "ring_cap r \<le> ring_count r")
      (simp_all add: push_full push_room push_contents spec_push_def not_le)
  show "access_inv (snd (PushRingEntry q e)) \<and> access_cap (snd (PushRingEntry q e)) = access_cap q"
    using r by (cases "ring_cap r \<le> ring_count r")
      (simp_all add: push_full push_room ring_inv_push not_le)
qed

lemma access_pop_spec:
  assumes "access_inv q"
  shows "(fst (PopRingEntry q), access_contents (snd (PopRingEntry q))) = spec_pop (access_contents q)"
    and "access_inv (snd (PopRingEntry q)) \<and> access_cap (snd (PopRingEntry q)) = access_cap q"
proof -
  obtain r where r: "q = Some r" "ring_inv r" using assms by (cases q) auto
  have empty: "ring_contents r = []" if "ring_count r = 0"
    using that length_ring_contents [of r] by (metis length_0_conv)
  show "(fst (PopRingEntry q), access_contents (snd (PopRingEntry q))) = spec_pop (access_contents q)"
    using r empty contents_advance_head [of r]
    by (cases "ring_count r = 0") (simp_all add: pop_empty pop_some spec_pop_def)
  show "access_inv (snd (PopRingEntry q)) \<and> access_cap (snd (PopRingEntry q)) = access_cap q"
    using r by (cases "ring_count r = 0") (simp_all add: pop_empty pop_some ring_inv_pop)
qed

interpretation shm_ring: bounded_fifo PushRingEntry PopRingEntry access_contents access_inv access_cap
  by unfold_locales (rule access_push_spec access_pop_spec; assumption)+

section \<open>Wrap-around\<close>

text \<open>A ring as the host creates it, and a run that keeps it empty: push and pop, \<open>n\<close> times.\<close>

definition fresh_ring :: "u32 \<Rightarrow> 'e \<Rightarrow> 'e Ring" where
  "fresh_ring cap e = \<lparr>rg_cursor = \<lparr>rc_head = 0, rc_tail = 0, rc_capacity = cap, rc_reserved = 0\<rparr>,
     rg_entries = replicate (unat cap) e\<rparr>"

definition push_pop_cycles :: "nat \<Rightarrow> 'e \<Rightarrow> 'e queue_op list" where
  "push_pop_cycles n e = concat (replicate n [PushOp e, PopOp])"

definition cursor_at :: "u32 \<Rightarrow> 'e Ring \<Rightarrow> 'e Ring" where
  "cursor_at c r = r\<lparr>rg_cursor := (rg_cursor r)\<lparr>rc_head := c, rc_tail := c\<rparr>\<rparr>"

lemma cursor_at_fresh: "cursor_at 0 (fresh_ring cap e) = fresh_ring cap e"
  by (simp add: cursor_at_def fresh_ring_def)

lemma update_replicate: "(replicate n e)[i := e] = replicate n e"
  using list_update_id [of "replicate n e" i] by (cases "i < n") (simp_all add: not_less list_update_beyond)

lemma push_pop_cycle:
  assumes "0 < cap"
  shows "run_queue PushRingEntry PopRingEntry (Some (cursor_at c (fresh_ring cap e))) (PushOp e # PopOp # ops) =
    Pushed Ok # Popped (Some e) #
      run_queue PushRingEntry PopRingEntry (Some (cursor_at (c + 1) (fresh_ring cap e))) ops"
proof -
  have "\<not> cap \<le> 0" using assms by simp
  moreover have "unat (c mod cap) < unat cap"
    using assms by (simp add: unat_mod_word word_less_nat_alt)
  ultimately show ?thesis
    by (simp add: PushRingEntry_def PopRingEntry_def cursor_at_def fresh_ring_def Let_def update_replicate)
qed

lemma push_pop_cycles_run:
  assumes "0 < cap"
  shows "run_queue PushRingEntry PopRingEntry (Some (cursor_at c (fresh_ring cap e)))
      (push_pop_cycles n e @ ops) =
    concat (replicate n [Pushed Ok, Popped (Some e)]) @
      run_queue PushRingEntry PopRingEntry (Some (cursor_at (c + of_nat n) (fresh_ring cap e))) ops"
proof (induction n arbitrary: c)
  case (Suc n)
  then show ?case
    using push_pop_cycle [OF assms, of c e "push_pop_cycles n e @ ops"]
    by (simp add: push_pop_cycles_def add.assoc)
qed (simp add: push_pop_cycles_def)

lemma cap3_wrap:
  "run_queue PushRingEntry PopRingEntry (Some (cursor_at (- 1) (fresh_ring 3 (0 :: nat))))
     [PushOp 1, PushOp 2, PopOp, PopOp] = [Pushed Ok, Pushed Ok, Popped (Some 2), Popped (Some 2)]"
  by code_simp

section \<open>Properties\<close>

text \<open>C5: For every sequence of pushes and pops, the ring answers exactly as a bounded list queue
  does (\<open>QueueFull\<close> when full, nothing when empty), provided its capacity divides \<open>2 ^ 32\<close>, wherever
  the 32-bit cursors stand.\<close>

theorem ring_refines_queue:
  assumes "ring_inv r"
  shows "run_queue PushRingEntry PopRingEntry (Some r) ops =
    run_queue (spec_push (ring_cap r)) spec_pop (ring_contents r) ops"
  using shm_ring.run_refines [of "Some r" ops] assms by simp

theorem ring_refines_queue_witness:
  "ring_inv (cursor_at (- 1) (fresh_ring 8 (0 :: nat))) \<and>
   run_queue PushRingEntry PopRingEntry (Some (cursor_at (- 1) (fresh_ring 8 0)))
     [PushOp 1, PushOp 2, PopOp, PopOp, PopOp] =
   run_queue (spec_push (ring_cap (cursor_at (- 1) (fresh_ring 8 (0 :: nat))))) spec_pop
     (ring_contents (cursor_at (- 1) (fresh_ring 8 (0 :: nat)))) [PushOp 1, PushOp 2, PopOp, PopOp, PopOp]"
proof -
  have "ring_inv (cursor_at (- 1) (fresh_ring 8 (0 :: nat)))"
    by (simp add: ring_inv_def ring_ok_def cap_wraps_def cursor_at_def fresh_ring_def RingCount_def)
  with ring_refines_queue [of "cursor_at (- 1) (fresh_ring 8 (0 :: nat))"
      "[PushOp 1, PushOp 2, PopOp, PopOp, PopOp]"]
  show ?thesis by blast
qed

text \<open>C8: The requirement on the capacity is needed, and no check of the code establishes it.  On a
  fresh ring of capacity 3, after \<open>2 ^ 32 - 1\<close> requests have gone through it one at a time, the next
  two pushes are accepted into the same slot: the first entry is lost and the second is delivered
  twice.\<close>

theorem ring_capacity_three_loses_entry:
  "run_queue PushRingEntry PopRingEntry (Some (fresh_ring 3 (0 :: nat)))
     (push_pop_cycles (2 ^ 32 - 1) 0 @ [PushOp 1, PushOp 2, PopOp, PopOp]) =
   concat (replicate (2 ^ 32 - 1) [Pushed Ok, Popped (Some 0)]) @
     [Pushed Ok, Pushed Ok, Popped (Some 2), Popped (Some 2)]"
proof -
  have "\<And>n :: nat. (of_nat n :: u32) = - 1 \<Longrightarrow>
      run_queue PushRingEntry PopRingEntry (Some (fresh_ring 3 (0 :: nat)))
        (push_pop_cycles n 0 @ [PushOp 1, PushOp 2, PopOp, PopOp]) =
      concat (replicate n [Pushed Ok, Popped (Some 0)]) @
        [Pushed Ok, Pushed Ok, Popped (Some 2), Popped (Some 2)]"
    using push_pop_cycles_run [of 3 0 "0 :: nat"] cap3_wrap by (simp add: cursor_at_fresh)
  moreover have "(of_nat (2 ^ 32 - 1) :: u32) = - 1" by simp
  ultimately show ?thesis by blast
qed

end
