(* ===== verification/Memrpc_Spsc.thy ===== *)
theory Memrpc_Spsc
  imports Memrpc_Ring
begin

text \<open>
  The rings are shared between two processes without a lock: one producer runs
  \<^verbatim>\<open>PushRingEntry\<close> while one consumer runs \<^verbatim>\<open>PopRingEntry\<close>.  Here the two functions are
  split at their accesses to shared memory (the atomic loads and stores and the copy of the
  entry), and a step relation interleaves them in every order.  The release/acquire pairs of
  the source order each entry copy before the cursor store that publishes it; steps are taken
  in that program order.

  The ghost lists \<open>sp_pushed\<close> and \<open>sp_popped\<close> record the entries whose push has been published
  and the entries whose pop has completed.
\<close>

section \<open>Program counters of the two sides\<close>

text \<open>\<^verbatim>\<open>PushRingEntry\<close>: after the load of the head; after the load of the tail and the capacity test;
  after the copy of the entry.\<close>

datatype 'e producer =
    ProdIdle
  | ProdHead 'e u32
  | ProdRoom 'e u32 u32
  | ProdStored 'e u32 u32

text \<open>\<^verbatim>\<open>PopRingEntry\<close>: after the load of the tail; after the load of the head and the emptiness test;
  after the copy of the entry.\<close>

datatype 'e consumer =
    ConsIdle
  | ConsTail u32
  | ConsSome u32
  | ConsCopied 'e u32

record 'e spsc =
  sp_ring :: "'e Ring"
  sp_prod :: "'e producer"
  sp_cons :: "'e consumer"
  sp_pushed :: "'e list"
  sp_popped :: "'e list"

inductive spsc_step :: "'e spsc \<Rightarrow> 'e spsc \<Rightarrow> bool" where
  push_load_head:
    "sp_prod s = ProdIdle \<Longrightarrow>
     spsc_step s (s\<lparr>sp_prod := ProdHead e (ring_head (sp_ring s))\<rparr>)"
| push_full:
    "sp_prod s = ProdHead e h \<Longrightarrow>
     ring_tail (sp_ring s) - h \<ge> rc_capacity (rg_cursor (sp_ring s)) \<Longrightarrow>
     spsc_step s (s\<lparr>sp_prod := ProdIdle\<rparr>)"
| push_room:
    "sp_prod s = ProdHead e h \<Longrightarrow>
     \<not> ring_tail (sp_ring s) - h \<ge> rc_capacity (rg_cursor (sp_ring s)) \<Longrightarrow>
     spsc_step s (s\<lparr>sp_prod := ProdRoom e h (ring_tail (sp_ring s))\<rparr>)"
| push_copy:
    "sp_prod s = ProdRoom e h t \<Longrightarrow>
     spsc_step s (s\<lparr>sp_prod := ProdStored e h t,
       sp_ring := (sp_ring s)\<lparr>rg_entries := (rg_entries (sp_ring s))[ring_slot (sp_ring s) t := e]\<rparr>\<rparr>)"
| push_publish:
    "sp_prod s = ProdStored e h t \<Longrightarrow>
     spsc_step s (s\<lparr>sp_prod := ProdIdle, sp_pushed := sp_pushed s @ [e],
       sp_ring := (sp_ring s)\<lparr>rg_cursor := (rg_cursor (sp_ring s))\<lparr>rc_tail := t + 1\<rparr>\<rparr>\<rparr>)"
| pop_load_tail:
    "sp_cons s = ConsIdle \<Longrightarrow>
     spsc_step s (s\<lparr>sp_cons := ConsTail (ring_tail (sp_ring s))\<rparr>)"
| pop_empty:
    "sp_cons s = ConsTail t \<Longrightarrow> t = ring_head (sp_ring s) \<Longrightarrow>
     spsc_step s (s\<lparr>sp_cons := ConsIdle\<rparr>)"
| pop_nonempty:
    "sp_cons s = ConsTail t \<Longrightarrow> t \<noteq> ring_head (sp_ring s) \<Longrightarrow>
     spsc_step s (s\<lparr>sp_cons := ConsSome (ring_head (sp_ring s))\<rparr>)"
| pop_copy:
    "sp_cons s = ConsSome h \<Longrightarrow>
     spsc_step s (s\<lparr>sp_cons := ConsCopied (rg_entries (sp_ring s) ! ring_slot (sp_ring s) h) h\<rparr>)"
| pop_publish:
    "sp_cons s = ConsCopied v h \<Longrightarrow>
     spsc_step s (s\<lparr>sp_cons := ConsIdle, sp_popped := sp_popped s @ [v],
       sp_ring := (sp_ring s)\<lparr>rg_cursor := (rg_cursor (sp_ring s))\<lparr>rc_head := h + 1\<rparr>\<rparr>\<rparr>)"

text \<open>Both sides idle on an empty ring of the given capacity, at any cursor position.\<close>

definition spsc_init :: "'e Ring \<Rightarrow> 'e spsc" where
  "spsc_init r = \<lparr>sp_ring = r, sp_prod = ProdIdle, sp_cons = ConsIdle, sp_pushed = [], sp_popped = []\<rparr>"

inductive spsc_reachable :: "'e Ring \<Rightarrow> 'e spsc \<Rightarrow> bool" for r where
  spsc_start: "spsc_reachable r (spsc_init r)"
| spsc_next: "spsc_reachable r s \<Longrightarrow> spsc_step s t \<Longrightarrow> spsc_reachable r t"

section \<open>The invariant\<close>

text \<open>
  A loaded head is a head of the past: the distance from it to the tail is at least the present
  count.  So a capacity test that passed still holds.  A loaded tail is a tail of the past.
\<close>

fun prod_inv :: "'e Ring \<Rightarrow> 'e producer \<Rightarrow> bool" where
  "prod_inv r ProdIdle = True"
| "prod_inv r (ProdHead e h) = (ring_count r \<le> unat (ring_tail r - h) \<and> unat (ring_tail r - h) \<le> ring_cap r)"
| "prod_inv r (ProdRoom e h t) = (t = ring_tail r \<and> ring_count r < ring_cap r)"
| "prod_inv r (ProdStored e h t) =
     (t = ring_tail r \<and> ring_count r < ring_cap r \<and> rg_entries r ! ring_slot r (ring_tail r) = e)"

fun cons_inv :: "'e Ring \<Rightarrow> 'e consumer \<Rightarrow> bool" where
  "cons_inv r ConsIdle = True"
| "cons_inv r (ConsTail t) = (unat (t - ring_head r) \<le> ring_count r)"
| "cons_inv r (ConsSome h) = (h = ring_head r \<and> 0 < ring_count r)"
| "cons_inv r (ConsCopied v h) =
     (h = ring_head r \<and> 0 < ring_count r \<and> v = rg_entries r ! ring_slot r (ring_head r))"

definition spsc_inv :: "'e spsc \<Rightarrow> bool" where
  "spsc_inv s \<longleftrightarrow> ring_inv (sp_ring s) \<and> prod_inv (sp_ring s) (sp_prod s) \<and>
     cons_inv (sp_ring s) (sp_cons s) \<and>
     sp_pushed s = sp_popped s @ ring_contents (sp_ring s)"

lemma head_slot_not_tail:
  assumes "ring_inv r" "0 < ring_count r" "ring_count r < ring_cap r"
  shows "ring_slot r (ring_tail r) \<noteq> ring_slot r (ring_head r)"
proof -
  have "cap_wraps r" using assms(1) by (simp add: ring_inv_def)
  then show ?thesis
    using mod_window_inj [of "unat (ring_head r)" 0 "ring_cap r" "ring_count r"] assms(2,3)
      ring_slot_offset [of r 0] by (auto simp: ring_slot_tail)
qed

text \<open>What the two sides know of the ring survives the other side's steps.\<close>

lemma cons_inv_store:
  assumes "ring_inv r" "cons_inv r c" "ring_count r < ring_cap r"
  shows "cons_inv (store_tail r e) c"
proof (cases c)
  case (ConsCopied v h)
  with assms head_slot_not_tail [of r] show ?thesis
    by (simp add: store_tail_def ring_slot_def)
qed (use assms in simp_all)

lemma cons_inv_advance_tail:
  assumes "cons_inv r c" "ring_count r < ring_cap r"
  shows "cons_inv (advance_tail r) c"
  using assms by (cases c) (simp_all add: count_advance_tail)

lemma prod_inv_advance_head:
  assumes "prod_inv r p" "0 < ring_count r"
  shows "prod_inv (advance_head r) p"
  using assms by (cases p) (auto simp: count_advance_head)

lemma spsc_step_inv:
  assumes "spsc_step s t" "spsc_inv s"
  shows "spsc_inv t"
  using assms
proof (induction rule: spsc_step.induct)
  case (push_load_head s e)
  then show ?case by (auto simp: spsc_inv_def ring_inv_def ring_ok_def RingCount_def)
next
  case (push_full s e h)
  then show ?case by (simp add: spsc_inv_def)
next
  case (push_room s e h)
  then show ?case by (auto simp: spsc_inv_def word_le_nat_alt)
next
  case (push_copy s e h t)
  let ?r = "sp_ring s"
  from push_copy have inv: "ring_inv ?r" "ring_count ?r < ring_cap ?r" "t = ring_tail ?r"
    "cons_inv ?r (sp_cons s)"
    by (auto simp: spsc_inv_def)
  have eq: "?r\<lparr>rg_entries := (rg_entries ?r)[ring_slot ?r t := e]\<rparr> = store_tail ?r e"
    using inv(3) by (simp add: store_tail_def)
  show ?case
    unfolding eq using push_copy inv
    by (simp add: spsc_inv_def cons_inv_store contents_store_tail ring_inv_def slot_store_tail
        ring_ok_step)
next
  case (push_publish s e h t)
  let ?r = "sp_ring s"
  from push_publish have inv: "ring_inv ?r" "ring_count ?r < ring_cap ?r" "t = ring_tail ?r"
    "cons_inv ?r (sp_cons s)" "rg_entries ?r ! ring_slot ?r (ring_tail ?r) = e"
    by (auto simp: spsc_inv_def)
  have eq: "?r\<lparr>rg_cursor := (rg_cursor ?r)\<lparr>rc_tail := t + 1\<rparr>\<rparr> = advance_tail ?r"
    using inv(3) by (simp add: advance_tail_def)
  show ?case
    unfolding eq using push_publish inv
    by (simp add: spsc_inv_def cons_inv_advance_tail contents_advance_tail ring_inv_def ring_ok_step)
next
  case (pop_load_tail s)
  then show ?case by (simp add: spsc_inv_def RingCount_def)
next
  case (pop_empty s t)
  then show ?case by (simp add: spsc_inv_def)
next
  case (pop_nonempty s t)
  then have "unat (t - ring_head (sp_ring s)) \<le> ring_count (sp_ring s)" "t - ring_head (sp_ring s) \<noteq> 0"
    by (auto simp: spsc_inv_def)
  then have "0 < ring_count (sp_ring s)" by (metis gr0I le_zero_eq unat_eq_zero)
  with pop_nonempty show ?case by (simp add: spsc_inv_def)
next
  case (pop_copy s h)
  then show ?case by (simp add: spsc_inv_def)
next
  case (pop_publish s v h)
  let ?r = "sp_ring s"
  from pop_publish have inv: "ring_inv ?r" "0 < ring_count ?r" "h = ring_head ?r"
    "prod_inv ?r (sp_prod s)" "v = rg_entries ?r ! ring_slot ?r (ring_head ?r)"
    by (auto simp: spsc_inv_def)
  have eq: "?r\<lparr>rg_cursor := (rg_cursor ?r)\<lparr>rc_head := h + 1\<rparr>\<rparr> = advance_head ?r"
    using inv(3) by (simp add: advance_head_def)
  show ?case
    unfolding eq using pop_publish inv contents_advance_head [of ?r]
    by (simp add: spsc_inv_def prod_inv_advance_head ring_inv_pop)
qed

lemma spsc_reachable_inv:
  assumes "spsc_reachable r s" "ring_inv r" "ring_count r = 0"
  shows "spsc_inv s"
  using assms(1)
proof (induction rule: spsc_reachable.induct)
  case spsc_start
  have "ring_contents r = []"
    using assms(3) by (metis length_0_conv length_ring_contents)
  with assms show ?case by (simp add: spsc_inv_def spsc_init_def)
next
  case (spsc_next s t)
  then show ?case by (blast intro: spsc_step_inv)
qed

section \<open>Properties\<close>

text \<open>C6: In every interleaving of one producer and one consumer on a ring whose capacity divides
  \<open>2 ^ 32\<close>, the entries popped so far are exactly the first entries pushed, in order, and the rest of
  the pushed entries are the ones in the ring; at most capacity many are in flight.\<close>

theorem spsc_fifo:
  assumes "spsc_reachable r s" "ring_inv r" "ring_count r = 0"
  shows "sp_pushed s = sp_popped s @ ring_contents (sp_ring s)
    \<and> length (ring_contents (sp_ring s)) \<le> ring_cap (sp_ring s)"
  using spsc_reachable_inv [OF assms] by (auto simp: spsc_inv_def ring_inv_def ring_ok_def)

text \<open>C7: The copies of the two sides never touch the same slot: when the producer is about to
  write its entry while the consumer is about to copy one out, the slots differ.\<close>

theorem spsc_no_slot_race:
  assumes "spsc_reachable r s" "ring_inv r" "ring_count r = 0"
    and "sp_prod s = ProdRoom e h t" "sp_cons s = ConsSome h'"
  shows "ring_slot (sp_ring s) t \<noteq> ring_slot (sp_ring s) h'"
  using spsc_reachable_inv [OF assms(1-3)] assms(4,5) head_slot_not_tail [of "sp_ring s"]
  by (simp add: spsc_inv_def)

section \<open>Witnesses\<close>

text \<open>The default ring of eight slots with the cursors about to wrap, and a run in which both sides
  are inside their copies.\<close>

definition wrapping_ring8 :: "nat Ring" where
  "wrapping_ring8 = \<lparr>rg_cursor = \<lparr>rc_head = 0xFFFFFFFF, rc_tail = 0xFFFFFFFF, rc_capacity = 8,
     rc_reserved = 0\<rparr>, rg_entries = replicate 8 0\<rparr>"

lemma wrapping_ring8_inv: "ring_inv wrapping_ring8" "ring_count wrapping_ring8 = 0"
  by (simp_all add: wrapping_ring8_def ring_inv_def ring_ok_def cap_wraps_def RingCount_def)

lemma u32_wrap: "(4294967296 :: u32) = 0"
  by simp

definition wrapping_run1 :: "nat spsc" where
  "wrapping_run1 = \<lparr>sp_ring = \<lparr>rg_cursor = \<lparr>rc_head = 0xFFFFFFFF, rc_tail = 0, rc_capacity = 8,
     rc_reserved = 0\<rparr>, rg_entries = (replicate 8 0)[7 := 41]\<rparr>, sp_prod = ProdIdle,
     sp_cons = ConsIdle, sp_pushed = [41], sp_popped = []\<rparr>"

lemma wrapping_run1_reachable: "spsc_reachable wrapping_ring8 wrapping_run1"
proof -
  let ?s0 = "spsc_init wrapping_ring8"
  let ?s1 = "?s0\<lparr>sp_prod := ProdHead 41 0xFFFFFFFF\<rparr>"
  let ?s2 = "?s0\<lparr>sp_prod := ProdRoom 41 0xFFFFFFFF 0xFFFFFFFF\<rparr>"
  let ?s3 = "?s0\<lparr>sp_prod := ProdStored 41 0xFFFFFFFF 0xFFFFFFFF,
     sp_ring := wrapping_ring8\<lparr>rg_entries := (replicate 8 0)[7 := 41]\<rparr>\<rparr>"
  have 1: "spsc_step ?s0 ?s1"
    using spsc_step.push_load_head [of ?s0 41] by (simp add: spsc_init_def wrapping_ring8_def)
  have 2: "spsc_step ?s1 ?s2"
    using spsc_step.push_room [of ?s1 41 "0xFFFFFFFF"] by (simp add: spsc_init_def wrapping_ring8_def)
  have 3: "spsc_step ?s2 ?s3"
    using spsc_step.push_copy [of ?s2 41 "0xFFFFFFFF" "0xFFFFFFFF"]
    by (simp add: spsc_init_def wrapping_ring8_def ring_slot_def)
  have 4: "spsc_step ?s3 wrapping_run1"
    using spsc_step.push_publish [of ?s3 41 "0xFFFFFFFF" "0xFFFFFFFF"]
    by (simp add: spsc_init_def wrapping_ring8_def wrapping_run1_def u32_wrap)
  show ?thesis
    by (rule spsc_next [OF spsc_next [OF spsc_next [OF spsc_next [OF spsc_start 1] 2] 3] 4])
qed

definition wrapping_run2 :: "nat spsc" where
  "wrapping_run2 = wrapping_run1\<lparr>sp_prod := ProdRoom 42 0xFFFFFFFF 0, sp_cons := ConsSome 0xFFFFFFFF\<rparr>"

lemma wrapping_run2_reachable: "spsc_reachable wrapping_ring8 wrapping_run2"
proof -
  let ?s1 = "wrapping_run1\<lparr>sp_prod := ProdHead 42 0xFFFFFFFF\<rparr>"
  let ?s2 = "wrapping_run1\<lparr>sp_prod := ProdRoom 42 0xFFFFFFFF 0\<rparr>"
  let ?s3 = "?s2\<lparr>sp_cons := ConsTail 0\<rparr>"
  have 1: "spsc_step wrapping_run1 ?s1"
    using spsc_step.push_load_head [of wrapping_run1 42] by (simp add: wrapping_run1_def)
  have 2: "spsc_step ?s1 ?s2"
    using spsc_step.push_room [of ?s1 42 "0xFFFFFFFF"] by (simp add: wrapping_run1_def)
  have 3: "spsc_step ?s2 ?s3"
    using spsc_step.pop_load_tail [of ?s2] by (simp add: wrapping_run1_def)
  have 4: "spsc_step ?s3 wrapping_run2"
    using spsc_step.pop_nonempty [of ?s3 0] by (simp add: wrapping_run1_def wrapping_run2_def)
  show ?thesis
    by (rule spsc_next [OF spsc_next [OF spsc_next [OF spsc_next [OF wrapping_run1_reachable 1] 2] 3] 4])
qed

theorem spsc_fifo_witness:
  "spsc_reachable wrapping_ring8 wrapping_run1 \<and>
   sp_pushed wrapping_run1 = sp_popped wrapping_run1 @ ring_contents (sp_ring wrapping_run1)
    \<and> length (ring_contents (sp_ring wrapping_run1)) \<le> ring_cap (sp_ring wrapping_run1)"
  using spsc_fifo [OF wrapping_run1_reachable wrapping_ring8_inv] wrapping_run1_reachable by blast

theorem spsc_no_slot_race_witness:
  "spsc_reachable wrapping_ring8 wrapping_run2 \<and>
   ring_slot (sp_ring wrapping_run2) 0 \<noteq> ring_slot (sp_ring wrapping_run2) 0xFFFFFFFF"
  using spsc_no_slot_race [OF wrapping_run2_reachable wrapping_ring8_inv, of 42 "0xFFFFFFFF" 0 "0xFFFFFFFF"]
    wrapping_run2_reachable by (simp add: wrapping_run2_def)

end
