(* ===== verification/Memrpc_Layout.thy ===== *)
theory Memrpc_Layout
  imports Memrpc_Ring
begin

text \<open>
  The layout of the shared-memory object (\<^verbatim>\<open>shm_layout.h\<close>) and the checks a session makes of the
  header it finds there (\<^verbatim>\<open>ValidateRingCursor\<close>, \<^verbatim>\<open>ValidateLayoutConfig\<close> of \<^verbatim>\<open>session.cpp\<close>).
  Offsets are \<^verbatim>\<open>size_t\<close> values of 64 bits, so that a wrap of the arithmetic would show.

  The size of \<^verbatim>\<open>pthread_mutex_t\<close> and the alignment of \<^verbatim>\<open>std::max_align_t\<close> belong to the platform: they
  are the parameter \<open>abi\<close>.  The rest of the header has the size its fields give it.
\<close>

section \<open>Platform sizes\<close>

record abi =
  abi_mutex_bytes :: u64
  abi_max_align :: u64

definition abi_ok :: "abi \<Rightarrow> bool" where
  "abi_ok a \<longleftrightarrow> abi_mutex_bytes a \<le> 4096 \<and> 0 < abi_max_align a \<and> abi_max_align a \<le> 4096"

text \<open>The 64-bit Linux ABI.\<close>

definition lp64_abi :: abi where
  "lp64_abi = \<lparr>abi_mutex_bytes = 40, abi_max_align = 16\<rparr>"

section \<open>Configuration, layout and header\<close>

record LayoutConfig =
  lc_highRingSize :: u32
  lc_normalRingSize :: u32
  lc_responseRingSize :: u32
  lc_maxRequestBytes :: u32
  lc_maxResponseBytes :: u32

definition default_LayoutConfig :: LayoutConfig where
  "default_LayoutConfig = \<lparr>lc_highRingSize = DEFAULT_RING_SIZE, lc_normalRingSize = DEFAULT_RING_SIZE,
     lc_responseRingSize = DEFAULT_RING_SIZE, lc_maxRequestBytes = DEFAULT_MAX_REQUEST_BYTES,
     lc_maxResponseBytes = DEFAULT_MAX_RESPONSE_BYTES\<rparr>"

record Layout =
  ly_highRingOffset :: u64
  ly_normalRingOffset :: u64
  ly_responseRingOffset :: u64
  ly_totalSize :: u64

definition default_Layout :: Layout where
  "default_Layout = \<lparr>ly_highRingOffset = 0, ly_normalRingOffset = 0, ly_responseRingOffset = 0, ly_totalSize = 0\<rparr>"

definition AlignOffset :: "u64 \<Rightarrow> u64 \<Rightarrow> u64" where
  "AlignOffset off alignment =
     (if alignment = 0 then off else ((off + alignment - 1) div alignment) * alignment)"

definition IsAlignedValue :: "u32 \<Rightarrow> u64 \<Rightarrow> bool" where
  "IsAlignedValue v alignment \<longleftrightarrow> alignment \<noteq> 0 \<and> ucast v mod alignment = 0"

definition HasAlignedPayloadSizes :: "u32 \<Rightarrow> u32 \<Rightarrow> bool" where
  "HasAlignedPayloadSizes max_request_bytes max_response_bytes \<longleftrightarrow>
     0 < max_request_bytes \<and> 0 < max_response_bytes \<and>
     unat max_request_bytes \<le> RequestRingEntry_INLINE_PAYLOAD_BYTES \<and>
     unat max_response_bytes \<le> ResponseRingEntry_INLINE_PAYLOAD_BYTES"

text \<open>The header is 48 bytes of scalars, three 16-byte cursors and the mutex, padded to the alignment
  of its 64-bit field.  The mutex is the platform's; the lock protocol uses its outcome only.\<close>

record SharedMemoryHeader =
  hd_magic :: u32
  hd_protocolVersion :: u32
  hd_sessionId :: u64
  hd_sessionState :: u32
  hd_clientAttached :: u32
  hd_activeClientPid :: u32
  hd_highRingSize :: u32
  hd_normalRingSize :: u32
  hd_responseRingSize :: u32
  hd_maxRequestBytes :: u32
  hd_maxResponseBytes :: u32
  hd_highRing :: RingCursor
  hd_normalRing :: RingCursor
  hd_responseRing :: RingCursor

definition sizeof_SharedMemoryHeader :: "abi \<Rightarrow> u64" where
  "sizeof_SharedMemoryHeader a = AlignOffset (48 + 3 * 16 + abi_mutex_bytes a) 8"

definition sizeof_entry :: u64 where
  "sizeof_entry = of_nat RING_ENTRY_BYTES"

definition alignof_entry :: u64 where
  "alignof_entry = 8"

definition ComputeLayout :: "abi \<Rightarrow> LayoutConfig \<Rightarrow> Layout" where
  "ComputeLayout a config =
     (let highOff = AlignOffset (sizeof_SharedMemoryHeader a) alignof_entry;
          normalOff = AlignOffset (highOff + sizeof_entry * ucast (lc_highRingSize config)) alignof_entry;
          responseOff = AlignOffset (normalOff + sizeof_entry * ucast (lc_normalRingSize config)) alignof_entry;
          total = AlignOffset (responseOff + sizeof_entry * ucast (lc_responseRingSize config)) (abi_max_align a)
      in \<lparr>ly_highRingOffset = highOff, ly_normalRingOffset = normalOff,
          ly_responseRingOffset = responseOff, ly_totalSize = total\<rparr>)"

section \<open>Validation\<close>

definition MAX_RING_ENTRIES :: u32 where
  "MAX_RING_ENTRIES = 2 ^ 20"

definition ValidateRingCursor :: "RingCursor \<Rightarrow> u32 \<Rightarrow> bool" where
  "ValidateRingCursor cursor expected_capacity =
     (if expected_capacity = 0 \<or> expected_capacity > MAX_RING_ENTRIES then False
      else if rc_capacity cursor \<noteq> expected_capacity then False
      else if RingCount cursor > expected_capacity then False
      else True)"

definition ValidateLayoutConfig :: "abi \<Rightarrow> LayoutConfig \<Rightarrow> u64 \<Rightarrow> bool" where
  "ValidateLayoutConfig a config file_size =
     (if lc_highRingSize config = 0 \<or> lc_highRingSize config > MAX_RING_ENTRIES then False
      else if lc_normalRingSize config = 0 \<or> lc_normalRingSize config > MAX_RING_ENTRIES then False
      else if lc_responseRingSize config = 0 \<or> lc_responseRingSize config > MAX_RING_ENTRIES then False
      else if lc_maxRequestBytes config = 0 \<or> lc_maxResponseBytes config = 0 \<or>
        \<not> HasAlignedPayloadSizes (lc_maxRequestBytes config) (lc_maxResponseBytes config) then False
      else
        let layout = ComputeLayout a config
        in if ly_totalSize layout < sizeof_SharedMemoryHeader a \<or> ly_totalSize layout > file_size then False
           else True)"

section \<open>The arithmetic does not wrap\<close>

lemma unat_AlignOffset:
  assumes "0 < al" "unat off + unat al \<le> 2 ^ 63"
  shows "unat (AlignOffset off al) = ((unat off + unat al - 1) div unat al) * unat al"
proof -
  let ?m = "unat off + unat al - 1"
  have al: "0 < unat al" using assms(1) by (simp add: word_less_nat_alt)
  have sum: "unat (off + al) = unat off + unat al"
    using assms(2) by (simp add: unat_word_ariths)
  have "off + al \<noteq> 0" using sum al by (metis add_is_0 less_irrefl unat_0)
  then have pred: "unat (off + al - 1) = ?m" using sum by (simp add: unat_minus_one)
  have "?m < 2 ^ 64" using assms(2) by simp
  with div_times_less_eq_dividend have "(?m div unat al) * unat al < 2 ^ 64" by (rule le_less_trans)
  moreover have "al \<noteq> 0" using assms(1) by auto
  ultimately show ?thesis
    by (simp add: AlignOffset_def unat_word_ariths(2) unat_div pred)
qed

lemma AlignOffset_bounds:
  assumes "0 < al" "unat off + unat al \<le> 2 ^ 63"
  shows "unat off \<le> unat (AlignOffset off al)" "unat (AlignOffset off al) < unat off + unat al"
    "unat al dvd unat (AlignOffset off al)"
proof -
  let ?m = "unat off + unat al - 1"
  have al: "0 < unat al" using assms(1) by (simp add: word_less_nat_alt)
  have eq: "unat (AlignOffset off al) = (?m div unat al) * unat al" using assms by (rule unat_AlignOffset)
  have "?m mod unat al < unat al" using al by simp
  moreover have "(?m div unat al) * unat al + ?m mod unat al = ?m" by simp
  ultimately show "unat off \<le> unat (AlignOffset off al)" "unat (AlignOffset off al) < unat off + unat al"
    unfolding eq using al by linarith+
  show "unat al dvd unat (AlignOffset off al)" unfolding eq by simp
qed

lemma sizeof_header_bounds:
  assumes "abi_ok a"
  shows "96 \<le> unat (sizeof_SharedMemoryHeader a)" "unat (sizeof_SharedMemoryHeader a) < 5000"
proof -
  let ?off = "48 + 3 * 16 + abi_mutex_bytes a"
  have "unat (abi_mutex_bytes a) \<le> 4096"
    using assms by (simp add: abi_ok_def word_le_nat_alt)
  then have off: "unat ?off = 96 + unat (abi_mutex_bytes a)"
    by (simp add: unat_word_ariths)
  then have small: "unat ?off + unat (8 :: u64) \<le> 2 ^ 63"
    using \<open>unat (abi_mutex_bytes a) \<le> 4096\<close> by simp
  show "96 \<le> unat (sizeof_SharedMemoryHeader a)"
    using AlignOffset_bounds(1) [OF _ small] off by (simp add: sizeof_SharedMemoryHeader_def)
  show "unat (sizeof_SharedMemoryHeader a) < 5000"
    using AlignOffset_bounds(2) [OF _ small] off \<open>unat (abi_mutex_bytes a) \<le> 4096\<close>
    by (simp add: sizeof_SharedMemoryHeader_def)
qed

lemma unat_ucast_u64 [simp]: "unat (ucast (n :: u32) :: u64) = unat n"
  using unat_less_pow [of n] by (simp add: unsigned_ucast_eq take_bit_nat_eq_self)

lemma unat_ring_bytes:
  "unat (sizeof_entry * ucast (n :: u32)) = RING_ENTRY_BYTES * unat n"
proof -
  have "unat n < 2 ^ 32" using unat_less_pow [of n] by simp
  then show ?thesis
    by (simp add: sizeof_entry_def RING_ENTRY_BYTES_def unat_word_ariths)
qed

text \<open>One ring after another: the next region starts at or after the end of this one.\<close>

lemma next_region:
  fixes n :: u32
  assumes "unat off \<le> 2 ^ 60" "0 < al" "unat al \<le> 4096"
  defines "nxt \<equiv> AlignOffset (off + sizeof_entry * ucast n) al"
  shows "unat off + RING_ENTRY_BYTES * unat n \<le> unat nxt"
    "unat nxt < unat off + RING_ENTRY_BYTES * unat n + unat al" "unat al dvd unat nxt"
proof -
  have "unat n < 2 ^ 32" using unat_less_pow [of n] by simp
  then have "unat off + RING_ENTRY_BYTES * unat n < 2 ^ 61"
    using assms(1) by (simp add: RING_ENTRY_BYTES_def)
  then have sum: "unat (off + sizeof_entry * ucast n) = unat off + RING_ENTRY_BYTES * unat n"
    by (simp add: unat_word_ariths(1) unat_ring_bytes)
  have small: "unat (off + sizeof_entry * ucast n) + unat al \<le> 2 ^ 63"
    using sum \<open>_ < 2 ^ 61\<close> assms(3) by simp
  show "unat off + RING_ENTRY_BYTES * unat n \<le> unat nxt"
    "unat nxt < unat off + RING_ENTRY_BYTES * unat n + unat al" "unat al dvd unat nxt"
    unfolding nxt_def using AlignOffset_bounds [OF assms(2) small] sum by auto
qed

lemma next_region_small:
  assumes "unat off + 2 ^ 46 \<le> (2 :: nat) ^ 60" "0 < al" "unat al \<le> 4096"
  shows "unat (AlignOffset (off + sizeof_entry * ucast (n :: u32)) al) \<le> unat off + 2 ^ 46"
proof -
  have "unat n < 2 ^ 32" using unat_less_pow [of n] by simp
  then show ?thesis
    using next_region(2) [OF _ assms(2,3), of off n] assms(1,3) by (simp add: RING_ENTRY_BYTES_def)
qed

lemma layout_regions:
  fixes config :: LayoutConfig
  assumes "abi_ok a"
  defines "l \<equiv> ComputeLayout a config"
  shows "unat (sizeof_SharedMemoryHeader a) \<le> unat (ly_highRingOffset l)"
    "unat (ly_highRingOffset l) + RING_ENTRY_BYTES * unat (lc_highRingSize config) \<le> unat (ly_normalRingOffset l)"
    "unat (ly_normalRingOffset l) + RING_ENTRY_BYTES * unat (lc_normalRingSize config) \<le> unat (ly_responseRingOffset l)"
    "unat (ly_responseRingOffset l) + RING_ENTRY_BYTES * unat (lc_responseRingSize config) \<le> unat (ly_totalSize l)"
    "unat (ly_totalSize l) \<le> 2 ^ 48"
    "8 dvd unat (ly_highRingOffset l)" "8 dvd unat (ly_normalRingOffset l)" "8 dvd unat (ly_responseRingOffset l)"
proof -
  let ?h = "ly_highRingOffset l" and ?n = "ly_normalRingOffset l" and ?r = "ly_responseRingOffset l"
  have al8: "0 < alignof_entry" "unat alignof_entry \<le> 4096" "unat alignof_entry = 8"
    by (simp_all add: alignof_entry_def)
  have alm: "0 < abi_max_align a" "unat (abi_max_align a) \<le> 4096"
    using assms(1) by (simp_all add: abi_ok_def word_le_nat_alt)
  have eqs: "?h = AlignOffset (sizeof_SharedMemoryHeader a) alignof_entry"
    "?n = AlignOffset (?h + sizeof_entry * ucast (lc_highRingSize config)) alignof_entry"
    "?r = AlignOffset (?n + sizeof_entry * ucast (lc_normalRingSize config)) alignof_entry"
    "ly_totalSize l = AlignOffset (?r + sizeof_entry * ucast (lc_responseRingSize config)) (abi_max_align a)"
    by (simp_all add: l_def ComputeLayout_def Let_def)
  have hd: "unat (sizeof_SharedMemoryHeader a) + unat alignof_entry \<le> 2 ^ 63"
    using sizeof_header_bounds(2) [OF assms(1)] al8 by simp
  have h: "unat ?h \<le> 5008"
    using AlignOffset_bounds(2) [OF al8(1) hd] sizeof_header_bounds(2) [OF assms(1)] al8 by (simp add: eqs(1))
  have n: "unat ?n \<le> unat ?h + 2 ^ 46" unfolding eqs(2) using h al8 by (intro next_region_small) simp_all
  have r: "unat ?r \<le> unat ?n + 2 ^ 46" unfolding eqs(3) using h n al8 by (intro next_region_small) simp_all
  have t: "unat (ly_totalSize l) \<le> unat ?r + 2 ^ 46"
    unfolding eqs(4) using h n r alm by (intro next_region_small) simp_all
  show "unat (ly_totalSize l) \<le> 2 ^ 48" using h n r t by simp
  show "unat (sizeof_SharedMemoryHeader a) \<le> unat ?h" "8 dvd unat ?h"
    using AlignOffset_bounds [OF al8(1) hd] al8(3) by (simp_all add: eqs(1))
  show "unat ?h + RING_ENTRY_BYTES * unat (lc_highRingSize config) \<le> unat ?n" "8 dvd unat ?n"
    using next_region [OF _ al8(1,2), of ?h] h al8(3) unfolding eqs(2) by simp_all
  show "unat ?n + RING_ENTRY_BYTES * unat (lc_normalRingSize config) \<le> unat ?r" "8 dvd unat ?r"
    using next_region [OF _ al8(1,2), of ?n] h n al8(3) unfolding eqs(3) by simp_all
  show "unat ?r + RING_ENTRY_BYTES * unat (lc_responseRingSize config) \<le> unat (ly_totalSize l)"
    using next_region(1) [OF _ alm, of ?r] h n r unfolding eqs(4) by simp
qed

section \<open>Properties\<close>

text \<open>C29: For every configuration of 32-bit ring sizes the 64-bit layout arithmetic does not wrap:
  the header, the two request rings and the response ring occupy disjoint, 8-aligned, ascending
  regions that end within the total size.\<close>

theorem ComputeLayout_disjoint:
  assumes "abi_ok a"
  shows "let l = ComputeLayout a config in
     unat (sizeof_SharedMemoryHeader a) \<le> unat (ly_highRingOffset l) \<and>
     unat (ly_highRingOffset l) + RING_ENTRY_BYTES * unat (lc_highRingSize config) \<le> unat (ly_normalRingOffset l) \<and>
     unat (ly_normalRingOffset l) + RING_ENTRY_BYTES * unat (lc_normalRingSize config) \<le> unat (ly_responseRingOffset l) \<and>
     unat (ly_responseRingOffset l) + RING_ENTRY_BYTES * unat (lc_responseRingSize config) \<le> unat (ly_totalSize l) \<and>
     8 dvd unat (ly_highRingOffset l) \<and> 8 dvd unat (ly_normalRingOffset l) \<and> 8 dvd unat (ly_responseRingOffset l)"
  using layout_regions [OF assms] by (simp add: Let_def)

theorem ComputeLayout_disjoint_witness:
  "abi_ok lp64_abi \<and>
   unat (ly_responseRingOffset (ComputeLayout lp64_abi default_LayoutConfig)) + RING_ENTRY_BYTES * 8
     \<le> unat (ly_totalSize (ComputeLayout lp64_abi default_LayoutConfig))"
proof -
  have "abi_ok lp64_abi" by (simp add: abi_ok_def lp64_abi_def)
  moreover have "unat (lc_responseRingSize default_LayoutConfig) = 8"
    by (simp add: default_LayoutConfig_def DEFAULT_RING_SIZE_def)
  ultimately show ?thesis
    using ComputeLayout_disjoint [of lp64_abi default_LayoutConfig] by (simp add: Let_def)
qed

end
