(* ===== verification/Memrpc_Posix.thy ===== *)
theory Memrpc_Posix
  imports Memrpc_Prelude
begin

text \<open>
  The part of POSIX that the file payloads use: regular files, directories, \<^verbatim>\<open>errno\<close>, and the faults a
  call may meet.  A path is its string; \<open>fs_deny\<close> says which calls fail on which path and how, and
  \<open>fs_rw\<close> scripts the outcomes of the coming \<^verbatim>\<open>read\<close> and \<^verbatim>\<open>write\<close> calls (a short count or an error; a
  call past the end of the script transfers everything).  The script is finite, so an \<^verbatim>\<open>EINTR\<close> storm
  ends.  No link, no concurrent change of the directory and no change of \<^verbatim>\<open>errno\<close> by logging is
  modelled.
\<close>

datatype errno = EINTR | ENOENT | EEXIST | ENOTDIR | ErrnoOther nat

datatype syscall = SysMkdir | SysStat | SysOpen | SysOpendir | SysUnlink | SysFstat | SysClose

datatype rw_outcome = RwCount nat | RwErr errno

record Fs =
  fs_files :: "(string \<times> bytes) list"
  fs_dirs :: "string list"
  fs_deny :: "syscall \<Rightarrow> string \<Rightarrow> errno option"
  fs_rw :: "rw_outcome list"
  fs_errno :: errno
  fs_pid :: nat
  fs_clock :: nat
  fs_counter :: u32

definition fs_exists :: "string \<Rightarrow> Fs \<Rightarrow> bool" where
  "fs_exists p w \<longleftrightarrow> p \<in> set (fs_dirs w) \<or> map_of (fs_files w) p \<noteq> None"

text \<open>The position of the last occurrence of a character.\<close>

fun rfind_char :: "char \<Rightarrow> string \<Rightarrow> nat option" where
  "rfind_char c [] = None"
| "rfind_char c (d # ds) =
     (case rfind_char c ds of Some k \<Rightarrow> Some (Suc k) | None \<Rightarrow> if c = d then Some 0 else None)"

lemma rfind_char_less: "rfind_char c s = Some k \<Longrightarrow> k < length s"
  by (induction s arbitrary: k) (auto split: option.splits if_splits)

text \<open>The error of creating a name: its parent directory (the working directory and the root always
  exist) must be there.\<close>

definition parent_error :: "string \<Rightarrow> Fs \<Rightarrow> errno option" where
  "parent_error p w =
     (case rfind_char (CHR ''/'') p of
        None \<Rightarrow> None
      | Some k \<Rightarrow>
          (if k = 0 \<or> take k p \<in> set (fs_dirs w) then None
           else if fs_exists (take k p) w then Some ENOTDIR else Some ENOENT))"

definition fail_with :: "errno \<Rightarrow> Fs \<Rightarrow> Fs" where
  "fail_with e w = w\<lparr>fs_errno := e\<rparr>"

definition sys_mkdir :: "string \<Rightarrow> Fs \<Rightarrow> bool \<times> Fs" where
  "sys_mkdir p w =
     (case fs_deny w SysMkdir p of
        Some e \<Rightarrow> (False, fail_with e w)
      | None \<Rightarrow>
          (if fs_exists p w then (False, fail_with EEXIST w)
           else case parent_error p w of
                  Some e \<Rightarrow> (False, fail_with e w)
                | None \<Rightarrow> (True, w\<lparr>fs_dirs := p # fs_dirs w\<rparr>)))"

text \<open>\<^verbatim>\<open>stat(p) == 0 && S_ISDIR\<close>.\<close>

definition sys_stat_isdir :: "string \<Rightarrow> Fs \<Rightarrow> bool \<times> Fs" where
  "sys_stat_isdir p w =
     (case fs_deny w SysStat p of
        Some e \<Rightarrow> (False, fail_with e w)
      | None \<Rightarrow> (if fs_exists p w then (p \<in> set (fs_dirs w), w) else (False, fail_with ENOENT w)))"

text \<open>\<^verbatim>\<open>open\<close> with \<^verbatim>\<open>O_CREAT | O_EXCL | O_WRONLY\<close>, and with \<^verbatim>\<open>O_RDONLY\<close>.  The descriptor is known by its
  path.\<close>

definition sys_create :: "string \<Rightarrow> Fs \<Rightarrow> bool \<times> Fs" where
  "sys_create p w =
     (case fs_deny w SysOpen p of
        Some e \<Rightarrow> (False, fail_with e w)
      | None \<Rightarrow>
          (if fs_exists p w then (False, fail_with EEXIST w)
           else case parent_error p w of
                  Some e \<Rightarrow> (False, fail_with e w)
                | None \<Rightarrow> (True, w\<lparr>fs_files := (p, []) # fs_files w\<rparr>)))"

definition sys_open :: "string \<Rightarrow> Fs \<Rightarrow> bool \<times> Fs" where
  "sys_open p w =
     (case fs_deny w SysOpen p of
        Some e \<Rightarrow> (False, fail_with e w)
      | None \<Rightarrow> (if map_of (fs_files w) p = None then (False, fail_with ENOENT w) else (True, w)))"

definition sys_unlink :: "string \<Rightarrow> Fs \<Rightarrow> bool \<times> Fs" where
  "sys_unlink p w =
     (case fs_deny w SysUnlink p of
        Some e \<Rightarrow> (False, fail_with e w)
      | None \<Rightarrow>
          (if map_of (fs_files w) p = None then (False, fail_with ENOENT w)
           else (True, w\<lparr>fs_files := filter (\<lambda>f. fst f \<noteq> p) (fs_files w)\<rparr>)))"

definition sys_close :: "string \<Rightarrow> Fs \<Rightarrow> bool \<times> Fs" where
  "sys_close p w =
     (case fs_deny w SysClose p of Some e \<Rightarrow> (False, fail_with e w) | None \<Rightarrow> (True, w))"

text \<open>The size of an open file.\<close>

definition sys_fstat_size :: "string \<Rightarrow> Fs \<Rightarrow> nat option \<times> Fs" where
  "sys_fstat_size p w =
     (case fs_deny w SysFstat p of
        Some e \<Rightarrow> (None, fail_with e w)
      | None \<Rightarrow> (map_option length (map_of (fs_files w) p), w))"

definition file_append :: "string \<Rightarrow> bytes \<Rightarrow> (string \<times> bytes) list \<Rightarrow> (string \<times> bytes) list" where
  "file_append p xs fs = map (\<lambda>f. if fst f = p then (p, snd f @ xs) else f) fs"

text \<open>A \<^verbatim>\<open>write\<close> at the end of a freshly created file and a \<^verbatim>\<open>read\<close> at an offset: the count, or the error.\<close>

definition sys_write :: "string \<Rightarrow> bytes \<Rightarrow> Fs \<Rightarrow> (errno + nat) \<times> Fs" where
  "sys_write p xs w =
     (case fs_rw w of
        [] \<Rightarrow> (Inr (length xs), w\<lparr>fs_files := file_append p xs (fs_files w)\<rparr>)
      | RwErr e # rw \<Rightarrow> (Inl e, fail_with e (w\<lparr>fs_rw := rw\<rparr>))
      | RwCount k # rw \<Rightarrow>
          (Inr (min k (length xs)),
           w\<lparr>fs_rw := rw, fs_files := file_append p (take k xs) (fs_files w)\<rparr>))"

definition sys_read :: "string \<Rightarrow> nat \<Rightarrow> nat \<Rightarrow> Fs \<Rightarrow> (errno + bytes) \<times> Fs" where
  "sys_read p off cnt w =
     (let xs = take cnt (drop off (case map_of (fs_files w) p of Some bs \<Rightarrow> bs | None \<Rightarrow> []))
      in case fs_rw w of
           [] \<Rightarrow> (Inr xs, w)
         | RwErr e # rw \<Rightarrow> (Inl e, fail_with e (w\<lparr>fs_rw := rw\<rparr>))
         | RwCount k # rw \<Rightarrow> (Inr (take k xs), w\<lparr>fs_rw := rw\<rparr>))"

text \<open>\<^verbatim>\<open>readdir\<close>: the names of a directory's entries, files and directories.\<close>

definition entry_name :: "string \<Rightarrow> string \<Rightarrow> string option" where
  "entry_name dir p =
     (if prefix_of (dir @ ''/'') p \<and> length p > length dir + 1 \<and>
         CHR ''/'' \<notin> set (drop (length dir + 1) p)
      then Some (drop (length dir + 1) p) else None)"

definition dir_entries :: "string \<Rightarrow> Fs \<Rightarrow> string list" where
  "dir_entries dir w =
     [''.'', ''..''] @ List.map_filter (entry_name dir) (map fst (fs_files w) @ fs_dirs w)"

lemma entry_name_Some: "entry_name dir p = Some n \<Longrightarrow> p = dir @ ''/'' @ n"
  by (auto simp: entry_name_def prefix_of_iff split: if_splits)

section \<open>What each call leaves alone\<close>

lemmas sys_defs = sys_mkdir_def sys_stat_isdir_def sys_create_def sys_open_def sys_unlink_def
  sys_close_def sys_fstat_size_def sys_write_def sys_read_def fail_with_def

text \<open>Calls that do not touch files, and the calls on one path that leave the other paths alone.\<close>

lemma files_unchanged [simp]:
  "fs_files (snd (sys_mkdir p w)) = fs_files w" "fs_files (snd (sys_stat_isdir p w)) = fs_files w"
  "fs_files (snd (sys_open p w)) = fs_files w" "fs_files (snd (sys_close p w)) = fs_files w"
  "fs_files (snd (sys_fstat_size p w)) = fs_files w" "fs_files (snd (sys_read p off n w)) = fs_files w"
  by (auto simp: sys_defs Let_def split: option.splits list.splits rw_outcome.splits)

lemma deny_unchanged [simp]:
  "fs_deny (snd (sys_mkdir p w)) = fs_deny w" "fs_deny (snd (sys_stat_isdir p w)) = fs_deny w"
  "fs_deny (snd (sys_open p w)) = fs_deny w" "fs_deny (snd (sys_close p w)) = fs_deny w"
  "fs_deny (snd (sys_fstat_size p w)) = fs_deny w" "fs_deny (snd (sys_read p off n w)) = fs_deny w"
  "fs_deny (snd (sys_create p w)) = fs_deny w" "fs_deny (snd (sys_unlink p w)) = fs_deny w"
  "fs_deny (snd (sys_write p xs w)) = fs_deny w"
  by (auto simp: sys_defs Let_def split: option.splits list.splits rw_outcome.splits)

lemma dirs_unchanged [simp]:
  "fs_dirs (snd (sys_stat_isdir p w)) = fs_dirs w"
  "fs_dirs (snd (sys_open p w)) = fs_dirs w" "fs_dirs (snd (sys_close p w)) = fs_dirs w"
  "fs_dirs (snd (sys_fstat_size p w)) = fs_dirs w" "fs_dirs (snd (sys_read p off n w)) = fs_dirs w"
  "fs_dirs (snd (sys_create p w)) = fs_dirs w" "fs_dirs (snd (sys_unlink p w)) = fs_dirs w"
  "fs_dirs (snd (sys_write p xs w)) = fs_dirs w"
  by (auto simp: sys_defs Let_def split: option.splits list.splits rw_outcome.splits)

lemma map_of_remove [simp]: "map_of (filter (\<lambda>f. fst f \<noteq> p) fs) q = (if p = q then None else map_of fs q)"
  by (induction fs) auto

lemma map_of_file_append:
  "map_of (file_append p xs fs) q = (if p = q then map_option (\<lambda>bs. bs @ xs) (map_of fs q) else map_of fs q)"
  unfolding file_append_def by (induction fs) auto

lemma unlink_other: "q \<noteq> p \<Longrightarrow> map_of (fs_files (snd (sys_unlink p w))) q = map_of (fs_files w) q"
  by (auto simp: sys_unlink_def fail_with_def split: option.splits)

lemma filter_fresh:
  "map_of fs p = None \<Longrightarrow> filter (\<lambda>f. fst f \<noteq> p) fs = fs"
  by (induction fs) (auto split: if_splits)

lemma file_append_fresh: "map_of fs p = None \<Longrightarrow> file_append p xs fs = fs"
  unfolding file_append_def by (induction fs) (auto split: if_splits)

lemma file_append_Cons:
  "map_of fs p = None \<Longrightarrow> file_append p xs ((p, bs) # fs) = (p, bs @ xs) # fs"
  using file_append_fresh by (simp add: file_append_def)

end
