(* ===== verification/Memrpc_Codec.thy ===== *)
theory Memrpc_Codec
  imports Memrpc_Types
begin

text \<open>
  \<^verbatim>\<open>ByteWriter\<close>, \<^verbatim>\<open>ByteReader\<close> and the message layer above them (\<^verbatim>\<open>codec.h\<close>,
  \<^verbatim>\<open>WaitAndDecode\<close> of \<^verbatim>\<open>rpc_client.h\<close>, the typed handlers of
  \<^verbatim>\<open>rpc_handler_registrar.h\<close>).  A C++ source pointer is \<open>bytes option\<close>, with \<open>None\<close> for
  \<^verbatim>\<open>nullptr\<close>; an out parameter with a \<^verbatim>\<open>bool\<close> result is an \<open>option\<close>.  \<^verbatim>\<open>size_t\<close> offsets are
  \<open>nat\<close>: they measure objects in memory, which never reach \<open>2 ^ 64\<close> bytes.
  An \<^verbatim>\<open>int32_t\<close> is its two's complement \<open>u32\<close>.

  The locale \<open>message_codec\<close> is the contract of a \<^verbatim>\<open>CodecTraits\<close> specialisation; the typed
  call over two such codecs is proved once in \<open>typed_call\<close>.
\<close>

section \<open>byte_writer.cpp\<close>

record ByteWriter =
  bw_bytes :: bytes

definition empty_ByteWriter :: ByteWriter where
  "empty_ByteWriter = \<lparr>bw_bytes = []\<rparr>"

definition WriteBytes :: "bytes option \<Rightarrow> u32 \<Rightarrow> ByteWriter \<Rightarrow> bool \<times> ByteWriter" where
  "WriteBytes data sz w =
     (if data = None \<and> sz \<noteq> 0 then (False, w)
      else (True, w\<lparr>bw_bytes := bw_bytes w @
             (case data of None \<Rightarrow> [] | Some d \<Rightarrow> take (unat sz) d)\<rparr>))"

definition WriteUint32 :: "u32 \<Rightarrow> ByteWriter \<Rightarrow> bool \<times> ByteWriter" where
  "WriteUint32 value w = WriteBytes (Some (le_bytes 4 value)) 4 w"

definition WriteInt32 :: "u32 \<Rightarrow> ByteWriter \<Rightarrow> bool \<times> ByteWriter" where
  "WriteInt32 value w = WriteBytes (Some (le_bytes 4 value)) 4 w"

text \<open>\<^verbatim>\<open>a && b\<close> over two writer calls: the second runs only if the first returned true.\<close>

definition then_write ::
  "bool \<times> ByteWriter \<Rightarrow> (ByteWriter \<Rightarrow> bool \<times> ByteWriter) \<Rightarrow> bool \<times> ByteWriter" where
  "then_write r f = (if fst r then f (snd r) else (False, snd r))"

definition WriteString :: "string \<Rightarrow> ByteWriter \<Rightarrow> bool \<times> ByteWriter" where
  "WriteString value w =
     then_write (WriteUint32 (of_nat (length value)) w)
       (WriteBytes (Some (str_bytes value)) (of_nat (length value)))"

text \<open>\<^verbatim>\<open>detail::AssignBytes\<close> into a non-null vector: the message bytes, if every write succeeded.\<close>

definition AssignBytes :: "bool \<times> ByteWriter \<Rightarrow> bytes option" where
  "AssignBytes r = (if fst r then Some (bw_bytes (snd r)) else None)"

lemma WriteUint32_eq: "WriteUint32 v w = (True, w\<lparr>bw_bytes := bw_bytes w @ le_bytes 4 v\<rparr>)"
  by (simp add: WriteUint32_def WriteBytes_def)

lemma WriteInt32_eq: "WriteInt32 v w = (True, w\<lparr>bw_bytes := bw_bytes w @ le_bytes 4 v\<rparr>)"
  by (simp add: WriteInt32_def WriteBytes_def)

lemma WriteString_eq:
  "WriteString s w = (True, w\<lparr>bw_bytes := bw_bytes w @ le_bytes 4 (of_nat (length s) :: u32)
     @ take (unat (of_nat (length s) :: u32)) (str_bytes s)\<rparr>)"
  by (simp add: WriteString_def then_write_def WriteUint32_eq WriteBytes_def)

lemmas writer_eqs = WriteUint32_eq WriteInt32_eq WriteString_eq then_write_def AssignBytes_def
  empty_ByteWriter_def

section \<open>byte_reader.cpp\<close>

record ByteReader =
  br_bytes :: "bytes option"
  br_size :: nat
  br_offset :: nat

definition MkByteReader :: "bytes option \<Rightarrow> nat \<Rightarrow> ByteReader" where
  "MkByteReader data sz = \<lparr>br_bytes = data, br_size = sz, br_offset = 0\<rparr>"

definition ReadBytes :: "u32 \<Rightarrow> ByteReader \<Rightarrow> bytes option \<times> ByteReader" where
  "ReadBytes sz r =
     (case br_bytes r of
        None \<Rightarrow> (None, r)
      | Some bs \<Rightarrow>
          (if br_offset r + unat sz > br_size r then (None, r)
           else (Some (take (unat sz) (drop (br_offset r) bs)),
                 r\<lparr>br_offset := br_offset r + unat sz\<rparr>)))"

definition ReadBytesView :: "u32 \<Rightarrow> ByteReader \<Rightarrow> bytes option \<times> ByteReader" where
  "ReadBytesView sz r =
     (case br_bytes r of
        None \<Rightarrow> (None, r)
      | Some bs \<Rightarrow>
          (if br_offset r + unat sz > br_size r then (None, r)
           else (Some (take (unat sz) (drop (br_offset r) bs)),
                 r\<lparr>br_offset := br_offset r + unat sz\<rparr>)))"

definition ReadUint32 :: "ByteReader \<Rightarrow> u32 option \<times> ByteReader" where
  "ReadUint32 r = (let (v, r') = ReadBytes 4 r in (map_option le_word v, r'))"

definition ReadInt32 :: "ByteReader \<Rightarrow> u32 option \<times> ByteReader" where
  "ReadInt32 r = (let (v, r') = ReadBytes 4 r in (map_option le_word v, r'))"

definition ReadString :: "ByteReader \<Rightarrow> string option \<times> ByteReader" where
  "ReadString r =
     (case ReadUint32 r of
        (None, r') \<Rightarrow> (None, r')
      | (Some sz, r') \<Rightarrow>
          (case br_bytes r' of
             None \<Rightarrow> (None, r')
           | Some bs \<Rightarrow>
               (if br_offset r' + unat sz > br_size r' then (None, r')
                else (Some (bytes_str (take (unat sz) (drop (br_offset r') bs))),
                      r'\<lparr>br_offset := br_offset r' + unat sz\<rparr>))))"

definition ReadStringView :: "ByteReader \<Rightarrow> string option \<times> ByteReader" where
  "ReadStringView r =
     (case ReadUint32 r of
        (None, r') \<Rightarrow> (None, r')
      | (Some sz, r') \<Rightarrow>
          (case br_bytes r' of
             None \<Rightarrow> (None, r')
           | Some bs \<Rightarrow>
               (if br_offset r' + unat sz > br_size r' then (None, r')
                else (Some (bytes_str (take (unat sz) (drop (br_offset r') bs))),
                      r'\<lparr>br_offset := br_offset r' + unat sz\<rparr>))))"

text \<open>Sequencing of reads: the rest runs with the value read, or the whole decode fails.\<close>

definition then_read ::
  "'a option \<times> ByteReader \<Rightarrow> ('a \<Rightarrow> ByteReader \<Rightarrow> 'b option) \<Rightarrow> 'b option" where
  "then_read r f = (case fst r of None \<Rightarrow> None | Some v \<Rightarrow> f v (snd r))"

text \<open>A reader whose unread part starts with \<open>xs\<close>; the reads below consume exactly \<open>xs\<close>.\<close>

definition reader_at :: "bytes \<Rightarrow> bytes \<Rightarrow> ByteReader" where
  "reader_at pre rest =
     \<lparr>br_bytes = Some (pre @ rest), br_size = length pre + length rest, br_offset = length pre\<rparr>"

lemma MkByteReader_reader_at: "MkByteReader (Some bs) (length bs) = reader_at [] bs"
  by (simp add: MkByteReader_def reader_at_def)

lemma ReadBytes_reader_at:
  "length xs = unat n \<Longrightarrow> ReadBytes n (reader_at pre (xs @ rest)) = (Some xs, reader_at (pre @ xs) rest)"
  by (simp add: ReadBytes_def reader_at_def)

lemma ReadUint32_reader_at [simp]:
  "ReadUint32 (reader_at pre (le_bytes 4 v @ rest)) = (Some v, reader_at (pre @ le_bytes 4 v) rest)"
  by (simp add: ReadUint32_def ReadBytes_reader_at)

lemma ReadInt32_reader_at [simp]:
  "ReadInt32 (reader_at pre (le_bytes 4 v @ rest)) = (Some v, reader_at (pre @ le_bytes 4 v) rest)"
  by (simp add: ReadInt32_def ReadBytes_reader_at)

lemma ReadString_reader_at:
  assumes "length s < 2 ^ 32"
  shows "ReadString (reader_at pre (le_bytes 4 (of_nat (length s) :: u32) @ str_bytes s @ rest))
     = (Some s, reader_at (pre @ le_bytes 4 (of_nat (length s) :: u32) @ str_bytes s) rest)"
proof -
  have "unat (of_nat (length s) :: u32) = length s"
    using assms by (simp add: unat_of_nat)
  then show ?thesis
    by (simp add: ReadString_def) (simp add: reader_at_def)
qed

text \<open>No read moves the cursor past the end of the source, and a failed read leaves it in place
  or (for strings) after the length prefix.\<close>

definition reader_ok :: "ByteReader \<Rightarrow> bool" where
  "reader_ok r \<longleftrightarrow> br_offset r \<le> br_size r \<and>
     (case br_bytes r of None \<Rightarrow> True | Some bs \<Rightarrow> br_size r = length bs)"

lemma ReadBytes_ok: "reader_ok r \<Longrightarrow> reader_ok (snd (ReadBytes n r))"
  by (auto simp: ReadBytes_def reader_ok_def split: option.splits)

lemma ReadBytes_length:
  "reader_ok r \<Longrightarrow> ReadBytes n r = (Some v, r') \<Longrightarrow> length v = unat n"
  by (auto simp: ReadBytes_def reader_ok_def split: option.splits if_splits)

lemma ReadUint32_ok: "reader_ok r \<Longrightarrow> reader_ok (snd (ReadUint32 r))"
  using ReadBytes_ok [of r 4] by (simp add: ReadUint32_def split_beta Let_def)

lemma ReadString_ok: "reader_ok r \<Longrightarrow> reader_ok (snd (ReadString r))"
  using ReadUint32_ok [of r]
  by (auto simp: ReadString_def reader_ok_def split: option.splits prod.splits)

section \<open>codec.h: the contract of a message codec\<close>

text \<open>\<^verbatim>\<open>vector::data()\<close>: null for an empty vector.\<close>

definition vec_data :: "bytes \<Rightarrow> bytes option" where
  "vec_data bs = (if bs = [] then None else Some bs)"

definition DecodeMessage :: "(bytes option \<Rightarrow> nat \<Rightarrow> 'm option) \<Rightarrow> bytes \<Rightarrow> 'm option" where
  "DecodeMessage Decode bs = Decode (vec_data bs) (length bs)"

locale message_codec =
  fixes Encode :: "'m \<Rightarrow> bytes option"
    and Decode :: "bytes option \<Rightarrow> nat \<Rightarrow> 'm option"
    and wf_msg :: "'m \<Rightarrow> bool"
  assumes encode_nonempty: "Encode m = Some bs \<Longrightarrow> bs \<noteq> []"
    and encode_total: "\<exists>bs. Encode m = Some bs"
    and decode_encode: "wf_msg m \<Longrightarrow> Encode m = Some bs \<Longrightarrow>
      Decode (Some (bs @ rest)) (length bs + length rest) = Some m"
begin

lemma decode_message:
  assumes "wf_msg m" "Encode m = Some bs"
  shows "DecodeMessage Decode bs = Some m"
  using decode_encode [OF assms, of "[]"] encode_nonempty [OF assms(2)]
  by (simp add: DecodeMessage_def vec_data_def)

lemma encode_inj:
  assumes "wf_msg m" "wf_msg m'" "Encode m = Encode m'"
  shows "m = m'"
proof -
  obtain bs where bs: "Encode m = Some bs" using encode_total by blast
  have "DecodeMessage Decode bs = Some m"
    using assms(1) bs by (rule decode_message)
  moreover have "DecodeMessage Decode bs = Some m'"
    using assms(2) bs [unfolded assms(3)] by (rule decode_message)
  ultimately show ?thesis by simp
qed

end

section \<open>Typed handlers and typed futures\<close>

definition MakeTypedHandlerWithDecoder ::
  "(RpcServerCall \<Rightarrow> 'q option) \<Rightarrow> ('r \<Rightarrow> bytes option) \<Rightarrow> ('q \<Rightarrow> 'r) \<Rightarrow> RpcHandler" where
  "MakeTypedHandlerWithDecoder decode encode h call reply =
     (case decode call of
        None \<Rightarrow> reply\<lparr>rp_status := ProtocolMismatch\<rparr>
      | Some request \<Rightarrow>
          (case encode (h request) of
             Some bs \<Rightarrow> reply\<lparr>rp_payload := bs\<rparr>
           | None \<Rightarrow> reply\<lparr>rp_status := EngineInternalError, rp_payload := []\<rparr>))"

definition MakeTypedHandler ::
  "(bytes option \<Rightarrow> nat \<Rightarrow> 'q option) \<Rightarrow> ('r \<Rightarrow> bytes option) \<Rightarrow> ('q \<Rightarrow> 'r) \<Rightarrow> RpcHandler" where
  "MakeTypedHandler decode encode h =
     MakeTypedHandlerWithDecoder (\<lambda>call. DecodeMessage decode (sc_payload call)) encode h"

text \<open>\<^verbatim>\<open>WaitAndDecode\<close> on the reply the future delivers; the status and, if decoded, the message.\<close>

definition WaitAndDecode ::
  "(bytes option \<Rightarrow> nat \<Rightarrow> 'r option) \<Rightarrow> RpcReply \<Rightarrow> StatusCode \<times> 'r option" where
  "WaitAndDecode decode rpcReply =
     (if rp_status rpcReply \<noteq> Ok then (rp_status rpcReply, None)
      else (case DecodeMessage decode (rp_payload rpcReply) of
              Some r \<Rightarrow> (rp_status rpcReply, Some r)
            | None \<Rightarrow> (ProtocolMismatch, None)))"

locale typed_call =
  req: message_codec EncodeQ DecodeQ wf_q + rep: message_codec EncodeR DecodeR wf_r
  for EncodeQ :: "'q \<Rightarrow> bytes option" and DecodeQ wf_q
    and EncodeR :: "'r \<Rightarrow> bytes option" and DecodeR wf_r
begin

text \<open>A request encoded by the client, run through the typed handler on a fresh reply and decoded
  by the client, is the application function applied to the request.\<close>

lemma typed_round_trip:
  assumes "wf_q q" "wf_r (h q)" "EncodeQ q = Some bs" "sc_payload call = bs"
  shows "WaitAndDecode DecodeR (MakeTypedHandler DecodeQ EncodeR h call default_RpcReply)
    = (Ok, Some (h q))"
proof -
  obtain rs where rs: "EncodeR (h q) = Some rs" using rep.encode_total by blast
  then have "DecodeMessage DecodeR rs = Some (h q)"
    using assms(2) by (rule rep.decode_message [rotated])
  with rs assms req.decode_message [OF assms(1,3)] show ?thesis
    by (simp add: WaitAndDecode_def MakeTypedHandler_def MakeTypedHandlerWithDecoder_def
        default_RpcReply_def)
qed

lemma typed_bad_request:
  assumes "DecodeMessage DecodeQ (sc_payload call) = None"
  shows "WaitAndDecode DecodeR (MakeTypedHandler DecodeQ EncodeR h call default_RpcReply)
    = (ProtocolMismatch, None)"
  using assms
  by (simp add: WaitAndDecode_def MakeTypedHandler_def MakeTypedHandlerWithDecoder_def)

end

end
