(* ===== verification/Memrpc_FilePayload.thy ===== *)
theory Memrpc_FilePayload
  imports Memrpc_Posix Memrpc_Codec
begin

text \<open>
  \<^verbatim>\<open>file_payload.cpp\<close>: a payload too large for a ring entry travels in a file of the payload
  directory, and the entry carries an envelope that names the file.  The file system, its faults
  and the process state (\<^verbatim>\<open>getpid\<close>, the clock, the static counter) are the state \<open>Fs\<close>.

  The properties: whatever faults the writer met, an accepted payload is read back exactly by a reader
  that meets only interrupts and short counts, and its file is gone afterwards; a refused payload
  leaves no file; and no envelope, however forged, touches a file outside the directory.
\<close>

section \<open>Directories and paths\<close>

definition DEFAULT_FILE_PAYLOAD_DIR :: string where
  "DEFAULT_FILE_PAYLOAD_DIR = ''/tmp/cache/file_payload''"

definition FILE_PAYLOAD_ENVELOPE_MAGIC :: u32 where
  "FILE_PAYLOAD_ENVELOPE_MAGIC = 0x56465031"

definition FILE_PAYLOAD_ENVELOPE_VERSION :: u32 where
  "FILE_PAYLOAD_ENVELOPE_VERSION = 1"

definition MAX_FILE_PAYLOAD_BYTES :: nat where
  "MAX_FILE_PAYLOAD_BYTES = 128 * 1024 * 1024"

record FilePayloadRef =
  fp_path :: string
  fp_size :: u32

definition default_FilePayloadRef :: FilePayloadRef where
  "default_FilePayloadRef = \<lparr>fp_path = [], fp_size = 0\<rparr>"

definition ParentDir :: "string \<Rightarrow> string" where
  "ParentDir path =
     (case rfind_char (CHR ''/'') path of
        None \<Rightarrow> []
      | Some slash \<Rightarrow> if slash = 0 then [] else take slash path)"

lemma ParentDir_shorter [termination_simp]: "path \<noteq> [] \<Longrightarrow> length (ParentDir path) < length path"
  by (auto simp: ParentDir_def dest: rfind_char_less split: option.splits)

fun EnsureFilePayloadDir :: "string \<Rightarrow> Fs \<Rightarrow> bool \<times> Fs" where
  "EnsureFilePayloadDir dir w =
     (if dir = [] then (False, w)
      else
        case sys_mkdir dir w of (made, w1) \<Rightarrow>
        if made then (True, w1)
        else if fs_errno w1 = EEXIST then sys_stat_isdir dir w1
        else if fs_errno w1 = ENOENT then
          (case (if ParentDir dir = [] then (False, w1)
                 else case EnsureFilePayloadDir (ParentDir dir) w1 of (parentOk, w2) \<Rightarrow>
                      if parentOk then sys_mkdir dir w2 else (False, w2)) of (made2, w3) \<Rightarrow>
           if made2 then (True, w3)
           else if fs_errno w3 = EEXIST then sys_stat_isdir dir w3
           else (False, w3))
        else (False, w1))"

declare EnsureFilePayloadDir.simps [simp del]

definition MakeFilePayloadPath :: "string \<Rightarrow> Fs \<Rightarrow> string \<times> Fs" where
  "MakeFilePayloadPath dir w =
     (let seq = fs_counter w; ts = fs_clock w
      in (dir @ ''/'' @ nat_str (fs_pid w) @ ''_'' @ nat_str ts @ ''_'' @ int_str (sint seq),
          w\<lparr>fs_counter := seq + 1\<rparr>))"

section \<open>Reading and writing\<close>

text \<open>The loop of \<^verbatim>\<open>WriteAll\<close>, with the bytes still to be written.\<close>

function WriteAll :: "string \<Rightarrow> bytes \<Rightarrow> Fs \<Rightarrow> bool \<times> Fs" where
  "WriteAll fd rest w =
     (if rest = [] then (True, w)
      else case sys_write fd rest w of
             (Inl e, w') \<Rightarrow> if e = EINTR then WriteAll fd rest w' else (False, w')
           | (Inr n, w') \<Rightarrow> if n = 0 then (False, w') else WriteAll fd (drop n rest) w')"
  by pat_completeness auto

termination
  by (relation "measure (\<lambda>(fd, rest, w). length rest + length (fs_rw w))")
    (auto simp: sys_write_def fail_with_def split: list.splits rw_outcome.splits)

text \<open>The loop of \<^verbatim>\<open>ReadAll\<close>: \<open>got\<close> is what has been read, the file is to give \<open>sz\<close> bytes.\<close>

function ReadLoop :: "string \<Rightarrow> nat \<Rightarrow> bytes \<Rightarrow> Fs \<Rightarrow> bytes option \<times> Fs" where
  "ReadLoop fd sz got w =
     (if sz \<le> length got then (Some got, w)
      else case sys_read fd (length got) (sz - length got) w of
             (Inl e, w') \<Rightarrow> if e = EINTR then ReadLoop fd sz got w' else (None, w')
           | (Inr xs, w') \<Rightarrow> if xs = [] then (None, w') else ReadLoop fd sz (got @ xs) w')"
  by pat_completeness auto

termination
  by (relation "measure (\<lambda>(fd, sz, got, w). (sz - length got) + length (fs_rw w))")
    (auto simp: sys_read_def fail_with_def Let_def split: list.splits rw_outcome.splits)

declare WriteAll.simps [simp del] ReadLoop.simps [simp del]

text \<open>On failure the vector holds zeroes and a prefix of the file; every caller clears it.\<close>

definition ReadAll :: "string \<Rightarrow> Fs \<Rightarrow> bytes option \<times> Fs" where
  "ReadAll fd w =
     (case sys_fstat_size fd w of
        (None, w1) \<Rightarrow> (None, w1)
      | (Some sz, w1) \<Rightarrow>
          if sz > MAX_FILE_PAYLOAD_BYTES then (None, w1) else ReadLoop fd sz [] w1)"

definition IsPathInsideFilePayloadRoot :: "string \<Rightarrow> string \<Rightarrow> bool" where
  "IsPathInsideFilePayloadRoot dir path \<longleftrightarrow>
     prefix_of (dir @ ''/'') path \<and> find_str path ''..'' = None"

definition UnlinkFilePayload :: "string \<Rightarrow> FilePayloadRef \<Rightarrow> Fs \<Rightarrow> bool \<times> Fs" where
  "UnlinkFilePayload dir ref w =
     (if fp_path ref = [] \<or> unat (fp_size ref) > MAX_FILE_PAYLOAD_BYTES \<or>
         \<not> IsPathInsideFilePayloadRoot dir (fp_path ref) then (False, w)
      else case sys_unlink (fp_path ref) w of (ok, w1) \<Rightarrow>
           if \<not> ok \<and> fs_errno w1 \<noteq> ENOENT then (False, w1) else (True, w1))"

text \<open>The loop over the directory entries.\<close>

fun ClearEntries :: "string \<Rightarrow> string list \<Rightarrow> Fs \<Rightarrow> Fs" where
  "ClearEntries dir [] w = w"
| "ClearEntries dir (name # names) w =
     (if name = ''.'' \<or> name = ''..'' then ClearEntries dir names w
      else
        let path = dir @ ''/'' @ name
        in case sys_stat_isdir path w of (isDir, w1) \<Rightarrow>
           if isDir then ClearEntries dir names w1
           else ClearEntries dir names (snd (sys_unlink path w1)))"

definition ClearFilePayloads :: "string \<Rightarrow> Fs \<Rightarrow> bool \<times> Fs" where
  "ClearFilePayloads dir w =
     (case EnsureFilePayloadDir dir w of (ok, w1) \<Rightarrow>
      if \<not> ok then (False, w1)
      else case fs_deny w1 SysOpendir dir of
             Some e \<Rightarrow> (e = ENOENT, fail_with e w1)
           | None \<Rightarrow> (True, ClearEntries dir (dir_entries dir w1) w1))"

definition RemoveFilePayload :: "string \<Rightarrow> FilePayloadRef \<Rightarrow> Fs \<Rightarrow> bool \<times> Fs" where
  "RemoveFilePayload dir ref w = UnlinkFilePayload dir ref w"

definition WriteFilePayload :: "string \<Rightarrow> bytes \<Rightarrow> Fs \<Rightarrow> FilePayloadRef option \<times> Fs" where
  "WriteFilePayload dir payload w =
     (if length payload > 2 ^ 32 - 1 \<or> length payload > MAX_FILE_PAYLOAD_BYTES then (None, w)
      else case EnsureFilePayloadDir dir w of (dirOk, w1) \<Rightarrow>
      if \<not> dirOk then (None, w1)
      else case MakeFilePayloadPath dir w1 of (path, w2) \<Rightarrow>
      case sys_create path w2 of (opened, w3) \<Rightarrow>
      if \<not> opened then (None, w3)
      else case WriteAll path payload w3 of (written, w4) \<Rightarrow>
      case sys_close path w4 of (closed, w5) \<Rightarrow>
      if \<not> (written \<and> closed) then (None, snd (sys_unlink path w5))
      else (Some \<lparr>fp_path = path, fp_size = of_nat (length payload)\<rparr>, w5))"

definition ReadAndRemoveFilePayload :: "string \<Rightarrow> FilePayloadRef \<Rightarrow> Fs \<Rightarrow> bytes option \<times> Fs" where
  "ReadAndRemoveFilePayload dir ref w =
     (if fp_path ref = [] \<or> unat (fp_size ref) > MAX_FILE_PAYLOAD_BYTES \<or>
         \<not> IsPathInsideFilePayloadRoot dir (fp_path ref) then (None, w)
      else case sys_open (fp_path ref) w of (opened, w1) \<Rightarrow>
      if \<not> opened then (None, snd (RemoveFilePayload dir ref w1))
      else case ReadAll (fp_path ref) w1 of (result, w2) \<Rightarrow>
      case RemoveFilePayload dir ref (snd (sys_close (fp_path ref) w2)) of (_, w4) \<Rightarrow>
      (case result of
         None \<Rightarrow> (None, w4)
       | Some payload \<Rightarrow>
           if length payload \<noteq> unat (fp_size ref) then (None, w4) else (Some payload, w4)))"

section \<open>Envelope and transport\<close>

definition EncodeFilePayloadEnvelope :: "FilePayloadRef \<Rightarrow> bytes option" where
  "EncodeFilePayloadEnvelope ref =
     AssignBytes (then_write (then_write (then_write
       (WriteUint32 FILE_PAYLOAD_ENVELOPE_MAGIC empty_ByteWriter)
       (WriteUint32 FILE_PAYLOAD_ENVELOPE_VERSION))
       (WriteUint32 (fp_size ref)))
       (WriteString (fp_path ref)))"

definition DecodeFilePayloadEnvelope :: "bytes option \<Rightarrow> nat \<Rightarrow> FilePayloadRef option" where
  "DecodeFilePayloadEnvelope data sz =
     then_read (ReadUint32 (MkByteReader data sz)) (\<lambda>magic r.
       if magic \<noteq> FILE_PAYLOAD_ENVELOPE_MAGIC then None
       else then_read (ReadUint32 r) (\<lambda>version r.
       if version \<noteq> FILE_PAYLOAD_ENVELOPE_VERSION then None
       else then_read (ReadUint32 r) (\<lambda>payloadSize r.
       then_read (ReadString r) (\<lambda>path r.
       if path = [] then None else Some \<lparr>fp_path = path, fp_size = payloadSize\<rparr>))))"

text \<open>The result flag, the transport payload, its kind and the new state.\<close>

definition PrepareFilePayloadForTransport ::
  "string \<Rightarrow> bytes \<Rightarrow> nat \<Rightarrow> Fs \<Rightarrow> bool \<times> bytes \<times> u8 \<times> Fs" where
  "PrepareFilePayloadForTransport dir payload maxTransportBytes w =
     (if length payload \<le> maxTransportBytes then (True, payload, PAYLOAD_KIND_INLINE, w)
      else case WriteFilePayload dir payload w of (written, w1) \<Rightarrow>
      (case written of
         None \<Rightarrow> (False, [], PAYLOAD_KIND_INLINE, snd (RemoveFilePayload dir default_FilePayloadRef w1))
       | Some fileRef \<Rightarrow>
           (case EncodeFilePayloadEnvelope fileRef of
              None \<Rightarrow> (False, [], PAYLOAD_KIND_INLINE, snd (RemoveFilePayload dir fileRef w1))
            | Some envelope \<Rightarrow>
                if length envelope > maxTransportBytes
                then (False, [], PAYLOAD_KIND_INLINE, snd (RemoveFilePayload dir fileRef w1))
                else (True, envelope, PAYLOAD_KIND_FILE_REF, w1))))"

definition RemoveFilePayloadFromTransport ::
  "string \<Rightarrow> bytes option \<Rightarrow> nat \<Rightarrow> u8 \<Rightarrow> Fs \<Rightarrow> bool \<times> Fs" where
  "RemoveFilePayloadFromTransport dir data sz payloadKind w =
     (if payloadKind = PAYLOAD_KIND_INLINE then (True, w)
      else if payloadKind \<noteq> PAYLOAD_KIND_FILE_REF then (False, w)
      else case DecodeFilePayloadEnvelope data sz of
             None \<Rightarrow> (False, w)
           | Some fileRef \<Rightarrow> RemoveFilePayload dir fileRef w)"

definition ResolveFilePayloadFromTransport ::
  "string \<Rightarrow> bytes option \<Rightarrow> nat \<Rightarrow> u8 \<Rightarrow> Fs \<Rightarrow> bytes option \<times> Fs" where
  "ResolveFilePayloadFromTransport dir data sz payloadKind w =
     (if payloadKind = PAYLOAD_KIND_INLINE then
        (if sz = 0 then (Some [], w)
         else case data of None \<Rightarrow> (None, w) | Some bs \<Rightarrow> (Some (take sz bs), w))
      else if payloadKind \<noteq> PAYLOAD_KIND_FILE_REF then (None, w)
      else case DecodeFilePayloadEnvelope data sz of
             None \<Rightarrow> (None, w)
           | Some fileRef \<Rightarrow> ReadAndRemoveFilePayload dir fileRef w)"

section \<open>Lemmas on the file payload functions\<close>

text \<open>Two states that differ in directories and \<^verbatim>\<open>errno\<close> only.\<close>

definition same_files :: "Fs \<Rightarrow> Fs \<Rightarrow> bool" where
  "same_files w w' \<longleftrightarrow> fs_files w' = fs_files w \<and> fs_deny w' = fs_deny w \<and> fs_pid w' = fs_pid w \<and>
     fs_clock w' = fs_clock w \<and> fs_counter w' = fs_counter w"

lemma same_files_refl [simp]: "same_files w w"
  by (simp add: same_files_def)

lemma same_files_trans: "same_files w w' \<Longrightarrow> same_files w' w'' \<Longrightarrow> same_files w w''"
  by (simp add: same_files_def)

lemma same_files_mkdir: "same_files w (snd (sys_mkdir p w))"
  by (auto simp: same_files_def sys_mkdir_def fail_with_def split: option.splits)

lemma same_files_stat: "same_files w (snd (sys_stat_isdir p w))"
  by (auto simp: same_files_def sys_stat_isdir_def fail_with_def split: option.splits)

lemma stat_isdir_True: "fst (sys_stat_isdir p w) \<Longrightarrow> p \<in> set (fs_dirs w)"
  by (auto simp: sys_stat_isdir_def fail_with_def split: option.splits if_splits)

lemma Ensure_same_files: "same_files w (snd (EnsureFilePayloadDir dir w))"
proof (induction dir w rule: EnsureFilePayloadDir.induct)
  case (1 dir w)
  obtain made w1 where mk: "sys_mkdir dir w = (made, w1)" by (cases "sys_mkdir dir w")
  obtain ok w2 where en: "EnsureFilePayloadDir (ParentDir dir) w1 = (ok, w2)"
    by (cases "EnsureFilePayloadDir (ParentDir dir) w1")
  have w1: "same_files w w1" using same_files_mkdir [of w dir] mk by simp
  have "same_files w w2" if "dir \<noteq> []" "\<not> made" "fs_errno w1 = ENOENT" "ParentDir dir \<noteq> []"
  proof -
    have "same_files w1 w2" using 1 [OF that(1) mk [symmetric] that(2)] that en by simp
    with w1 show ?thesis by (rule same_files_trans)
  qed
  with w1 same_files_trans [OF _ same_files_mkdir] same_files_trans [OF _ same_files_stat]
  show ?case
    by (subst EnsureFilePayloadDir.simps) (simp add: mk en split_beta)
qed

lemma sys_write_file:
  assumes "map_of fs p = None" "fs_files w = (p, bs) # fs" "sys_write p xs w = (res, w')"
  shows "fs_files w' = (p, bs @ (case res of Inl e \<Rightarrow> [] | Inr n \<Rightarrow> take n xs)) # fs"
  using assms
  by (auto simp: sys_write_def fail_with_def file_append_Cons min_def split: list.splits rw_outcome.splits)

lemma WriteAll_files:
  assumes "map_of fs p = None" "fs_files w = (p, bs) # fs"
  shows "\<exists>ws. fs_files (snd (WriteAll p xs w)) = (p, bs @ ws) # fs \<and> (fst (WriteAll p xs w) \<longrightarrow> ws = xs)"
  using assms
proof (induction p xs w arbitrary: bs rule: WriteAll.induct)
  case (1 p xs w)
  obtain res w' where call: "sys_write p xs w = (res, w')" by (cases "sys_write p xs w")
  note files = sys_write_file [OF 1(3,4) call]
  show ?case
  proof (cases "xs = []")
    case True
    then show ?thesis using 1 by (subst (1 2) WriteAll.simps) simp
  next
    case xs: False
    show ?thesis
    proof (cases res)
      case (Inl e)
      with files 1(1) [OF xs call [symmetric] Inl _ 1(3)] xs call show ?thesis
        by (subst (1 2) WriteAll.simps) auto
    next
      case (Inr n)
      show ?thesis
      proof (cases "n = 0")
        case True
        with files Inr xs call show ?thesis
          by (subst (1 2) WriteAll.simps) auto
      next
        case False
        from 1(2) [OF xs call [symmetric] Inr False 1(3)] files Inr
        obtain ws where "fs_files (snd (WriteAll p (drop n xs) w')) = (p, (bs @ take n xs) @ ws) # fs"
          "fst (WriteAll p (drop n xs) w') \<longrightarrow> ws = drop n xs" by auto
        with xs call Inr False show ?thesis
          by (subst (1 2) WriteAll.simps) (auto intro!: exI [of _ "take n xs @ ws"])
      qed
    qed
  qed
qed

lemma WriteAll_deny [simp]: "fs_deny (snd (WriteAll p xs w)) = fs_deny w"
proof (induction p xs w rule: WriteAll.induct)
  case (1 p xs w)
  obtain res w' where call: "sys_write p xs w = (res, w')" by (cases "sys_write p xs w")
  have "fs_deny w' = fs_deny w" using deny_unchanged(9) [of p xs w] call by simp
  with 1(1) [OF _ call [symmetric]] 1(2) [OF _ call [symmetric]] show ?case
    by (subst WriteAll.simps) (auto simp: call split: sum.splits)
qed

text \<open>The faults a retrying caller survives: interrupts and short counts.\<close>

fun benign :: "rw_outcome \<Rightarrow> bool" where
  "benign (RwCount n) = (0 < n)"
| "benign (RwErr e) = (e = EINTR)"

lemma ReadLoop_files [simp]: "fs_files (snd (ReadLoop p sz got w)) = fs_files w"
proof (induction p sz got w rule: ReadLoop.induct)
  case (1 p sz got w)
  obtain res w' where call: "sys_read p (length got) (sz - length got) w = (res, w')"
    by (meson surj_pair)
  then have "fs_files w' = fs_files w" using files_unchanged(6) by (metis snd_conv)
  with 1(1) [OF _ call [symmetric]] 1(2) [OF _ call [symmetric]] show ?case
    by (subst ReadLoop.simps) (auto simp: call split: sum.splits)
qed

lemma ReadLoop_deny [simp]: "fs_deny (snd (ReadLoop p sz got w)) = fs_deny w"
proof (induction p sz got w rule: ReadLoop.induct)
  case (1 p sz got w)
  obtain res w' where call: "sys_read p (length got) (sz - length got) w = (res, w')"
    by (meson surj_pair)
  then have "fs_deny w' = fs_deny w" using deny_unchanged(6) by (metis snd_conv)
  with 1(1) [OF _ call [symmetric]] 1(2) [OF _ call [symmetric]] show ?case
    by (subst ReadLoop.simps) (auto simp: call split: sum.splits)
qed

lemma sys_read_benign:
  assumes "list_all benign (fs_rw w)" "map_of (fs_files w) p = Some bs" "off < length bs"
    "sys_read p off (length bs - off) w = (res, w')"
  shows "list_all benign (fs_rw w') \<and> fs_files w' = fs_files w \<and>
    (case res of Inl e \<Rightarrow> e = EINTR | Inr xs \<Rightarrow> xs \<noteq> [] \<and> (\<exists>ys. drop off bs = xs @ ys))"
  using assms
  by (auto simp: sys_read_def fail_with_def Let_def split: list.splits rw_outcome.splits)
    (metis append_take_drop_id)

lemma ReadLoop_benign:
  assumes "list_all benign (fs_rw w)" "map_of (fs_files w) p = Some bs" "bs = got @ zs" "sz = length bs"
  shows "fst (ReadLoop p sz got w) = Some bs"
  using assms
proof (induction p sz got w arbitrary: zs rule: ReadLoop.induct)
  case (1 p sz got w)
  show ?case
  proof (cases "zs = []")
    case True
    with 1 show ?thesis by (simp add: ReadLoop.simps)
  next
    case False
    then have more: "\<not> sz \<le> length got" using 1 by simp
    obtain res w' where call: "sys_read p (length got) (sz - length got) w = (res, w')"
      by (meson surj_pair)
    have rd: "list_all benign (fs_rw w') \<and> fs_files w' = fs_files w \<and>
      (case res of Inl e \<Rightarrow> e = EINTR | Inr xs \<Rightarrow> xs \<noteq> [] \<and> (\<exists>ys. drop (length got) bs = xs @ ys))"
      using sys_read_benign [of w p bs "length got" res w'] 1(3-) more call by simp
    show ?thesis
    proof (cases res)
      case (Inl e)
      with rd have "e = EINTR" "list_all benign (fs_rw w')" "map_of (fs_files w') p = Some bs"
        using 1(4) by simp_all
      with 1(1) [OF more call [symmetric] Inl] 1(5,6) have "fst (ReadLoop p sz got w') = Some bs" by blast
      moreover have "ReadLoop p sz got w = ReadLoop p sz got w'"
        using more call Inl \<open>e = EINTR\<close> by (subst ReadLoop.simps) simp
      ultimately show ?thesis by simp
    next
      case (Inr xs)
      with rd obtain ys where ys: "xs \<noteq> []" "zs = xs @ ys" "list_all benign (fs_rw w')"
        "map_of (fs_files w') p = Some bs" using 1(4,5) by auto
      then have "fst (ReadLoop p sz (got @ xs) w') = Some bs"
        using 1(2) [OF more call [symmetric] Inr] 1(5,6) by simp
      moreover have "ReadLoop p sz got w = ReadLoop p sz (got @ xs) w'"
        using more call Inr ys(1) by (subst ReadLoop.simps) simp
      ultimately show ?thesis by simp
    qed
  qed
qed

text \<open>Generated names lie in the directory and hold no \<^verbatim>\<open>..\<close>.\<close>

lemma no_dotdot_append:
  "find_str s ''..'' = None \<Longrightarrow> CHR ''.'' \<notin> set t \<Longrightarrow> find_str (s @ t) ''..'' = None"
proof (induction s rule: induct_list012)
  case 1
  then show ?case by (induction t) (auto split: if_splits)
next
  case (2 c)
  then have "find_str t ''..'' = None" by (induction t) (auto split: if_splits)
  with 2 show ?case by (cases t) (auto split: if_splits)
next
  case (3 c d s)
  then show ?case by (auto split: if_splits)
qed

definition payload_path :: "string \<Rightarrow> Fs \<Rightarrow> string" where
  "payload_path dir w = fst (MakeFilePayloadPath dir w)"

lemma payload_path_eq:
  "payload_path dir w = dir @ ''/'' @ nat_str (fs_pid w) @ ''_'' @ nat_str (fs_clock w) @ ''_'' @
     int_str (sint (fs_counter w))"
  by (simp add: payload_path_def MakeFilePayloadPath_def Let_def)

lemma payload_path_inside:
  assumes "find_str dir ''..'' = None"
  shows "IsPathInsideFilePayloadRoot dir (payload_path dir w)" "payload_path dir w \<noteq> []"
proof -
  have "find_str (dir @ ''/'' @ nat_str (fs_pid w) @ ''_'' @ nat_str (fs_clock w) @ ''_'' @
     int_str (sint (fs_counter w))) ''..'' = None"
    using assms by (rule no_dotdot_append) (simp add: no_dot_nat_str no_dot_int_str)
  then show "IsPathInsideFilePayloadRoot dir (payload_path dir w)" "payload_path dir w \<noteq> []"
    by (simp_all add: IsPathInsideFilePayloadRoot_def payload_path_eq prefix_of_iff)
qed

lemma payload_path_same: "same_files w w' \<Longrightarrow> payload_path dir w' = payload_path dir w"
  by (simp add: same_files_def payload_path_eq)

lemma UnlinkFilePayload_other:
  "q \<noteq> fp_path ref \<or> \<not> IsPathInsideFilePayloadRoot dir q \<Longrightarrow>
     map_of (fs_files (snd (UnlinkFilePayload dir ref w))) q = map_of (fs_files w) q"
  by (auto simp: UnlinkFilePayload_def split_beta unlink_other)

lemma ReadAll_frame [simp]:
  "fs_files (snd (ReadAll p w)) = fs_files w" "fs_deny (snd (ReadAll p w)) = fs_deny w"
  by (auto simp: ReadAll_def sys_fstat_size_def fail_with_def split: prod.splits option.splits)

lemma ReadAndRemove_other:
  assumes "q \<noteq> fp_path ref \<or> \<not> IsPathInsideFilePayloadRoot dir q"
  shows "map_of (fs_files (snd (ReadAndRemoveFilePayload dir ref w))) q = map_of (fs_files w) q"
proof -
  have "map_of (fs_files (snd (UnlinkFilePayload dir ref w'))) q = map_of (fs_files w') q" for w'
    using assms by (rule UnlinkFilePayload_other)
  then show ?thesis
    by (simp add: ReadAndRemoveFilePayload_def RemoveFilePayload_def split_beta split: option.split)
qed

lemma ReadAll_benign:
  assumes "list_all benign (fs_rw w)" "map_of (fs_files w) p = Some bs" "length bs \<le> MAX_FILE_PAYLOAD_BYTES"
    "fs_deny w SysFstat p = None"
  shows "fst (ReadAll p w) = Some bs"
  using assms ReadLoop_benign [OF assms(1,2), of "[]" bs "length bs"]
  by (simp add: ReadAll_def sys_fstat_size_def)

lemma WriteFilePayload_Some:
  assumes "WriteFilePayload dir payload w = (Some ref, w')"
  shows "ref = \<lparr>fp_path = payload_path dir w, fp_size = of_nat (length payload)\<rparr>"
    "map_of (fs_files w) (payload_path dir w) = None"
    "fs_files w' = (payload_path dir w, payload) # fs_files w"
    "length payload \<le> MAX_FILE_PAYLOAD_BYTES" "fs_deny w' = fs_deny w"
proof -
  obtain dirOk w1 where en: "EnsureFilePayloadDir dir w = (dirOk, w1)" by (meson surj_pair)
  have same: "same_files w w1" using Ensure_same_files [of w dir] en by simp
  let ?p = "payload_path dir w" and ?w2 = "w1\<lparr>fs_counter := fs_counter w1 + 1\<rparr>"
  have mk: "MakeFilePayloadPath dir w1 = (?p, ?w2)"
    using payload_path_same [OF same] by (simp add: payload_path_def MakeFilePayloadPath_def Let_def)
  obtain opened w3 where cr: "sys_create ?p ?w2 = (opened, w3)" by (meson surj_pair)
  obtain written w4 where wr: "WriteAll ?p payload w3 = (written, w4)" by (meson surj_pair)
  obtain closed w5 where cl: "sys_close ?p w4 = (closed, w5)" by (meson surj_pair)
  note res = assms [unfolded WriteFilePayload_def en mk prod.case cr wr cl]
  from res have ok: "dirOk" "opened" "written" "closed" "w' = w5"
    "ref = \<lparr>fp_path = ?p, fp_size = of_nat (length payload)\<rparr>" "length payload \<le> MAX_FILE_PAYLOAD_BYTES"
    by (auto split: if_splits)
  from cr ok(2) same have fresh: "map_of (fs_files w) ?p = None" "fs_files w3 = (?p, []) # fs_files w"
    "fs_deny w3 = fs_deny w"
    by (auto simp: sys_create_def same_files_def fs_exists_def fail_with_def split: option.splits if_splits)
  have "fs_files w4 = (?p, payload) # fs_files w"
    using WriteAll_files [OF fresh(1,2), of payload] wr ok(3) by simp
  moreover have "fs_files w5 = fs_files w4" "fs_deny w5 = fs_deny w4"
    using files_unchanged(4) [of ?p w4] deny_unchanged(4) [of ?p w4] cl by simp_all
  moreover have "fs_deny w4 = fs_deny w3" using WriteAll_deny [of ?p payload w3] wr by simp
  ultimately show "ref = \<lparr>fp_path = payload_path dir w, fp_size = of_nat (length payload)\<rparr>"
    "map_of (fs_files w) (payload_path dir w) = None"
    "fs_files w' = (payload_path dir w, payload) # fs_files w"
    "length payload \<le> MAX_FILE_PAYLOAD_BYTES" "fs_deny w' = fs_deny w"
    using ok fresh by simp_all
qed

lemma WriteFilePayload_None:
  assumes "WriteFilePayload dir payload w = (None, w')" "\<forall>p. fs_deny w SysUnlink p = None"
  shows "fs_files w' = fs_files w"
proof -
  obtain dirOk w1 where en: "EnsureFilePayloadDir dir w = (dirOk, w1)" by (meson surj_pair)
  have same: "same_files w w1" using Ensure_same_files [of w dir] en by simp
  let ?p = "payload_path dir w" and ?w2 = "w1\<lparr>fs_counter := fs_counter w1 + 1\<rparr>"
  have mk: "MakeFilePayloadPath dir w1 = (?p, ?w2)"
    using payload_path_same [OF same] by (simp add: payload_path_def MakeFilePayloadPath_def Let_def)
  obtain opened w3 where cr: "sys_create ?p ?w2 = (opened, w3)" by (meson surj_pair)
  obtain written w4 where wr: "WriteAll ?p payload w3 = (written, w4)" by (meson surj_pair)
  obtain closed w5 where cl: "sys_close ?p w4 = (closed, w5)" by (meson surj_pair)
  note res = assms(1) [unfolded WriteFilePayload_def en mk prod.case cr wr cl]
  have w1: "fs_files w1 = fs_files w" using same by (simp add: same_files_def)
  show ?thesis
  proof (cases opened)
    case False
    then have "fs_files w3 = fs_files w"
      using cr w1 by (auto simp: sys_create_def fail_with_def split: option.splits if_splits)
    with False res w1 show ?thesis by (auto split: if_splits)
  next
    case True
    with cr same have fresh: "map_of (fs_files w) ?p = None" "fs_files w3 = (?p, []) # fs_files w"
      "fs_deny w3 = fs_deny w"
      by (auto simp: sys_create_def same_files_def fs_exists_def fail_with_def split: option.splits if_splits)
    obtain ws where "fs_files w4 = (?p, ws) # fs_files w"
      using WriteAll_files [OF fresh(1,2), of payload] wr by auto
    then have "fs_files w5 = (?p, ws) # fs_files w" using files_unchanged(4) [of ?p w4] cl by simp
    moreover have "fs_deny w5 = fs_deny w"
      using deny_unchanged(4) [of ?p w4] WriteAll_deny [of ?p payload w3] wr cl fresh by simp
    ultimately have "fs_files (snd (sys_unlink ?p w5)) = fs_files w"
      using assms(2) fresh(1) by (simp add: sys_unlink_def filter_fresh)
    with res True w1 show ?thesis by (auto split: if_splits)
  qed
qed

text \<open>Bytes behind the announced size do not matter: a ring entry holds the envelope at the front of a
  larger array.\<close>

definition pad_reader :: "bytes \<Rightarrow> ByteReader \<Rightarrow> ByteReader" where
  "pad_reader pad r = r\<lparr>br_bytes := map_option (\<lambda>bs. bs @ pad) (br_bytes r)\<rparr>"

lemma ReadBytes_pad: "reader_ok r \<Longrightarrow> ReadBytes n (pad_reader pad r) = apsnd (pad_reader pad) (ReadBytes n r)"
  by (auto simp: ReadBytes_def pad_reader_def reader_ok_def split: option.splits)

lemma ReadUint32_pad: "reader_ok r \<Longrightarrow> ReadUint32 (pad_reader pad r) = apsnd (pad_reader pad) (ReadUint32 r)"
  by (simp add: ReadUint32_def ReadBytes_pad split_beta)

lemma ReadString_pad:
  assumes "reader_ok r"
  shows "ReadString (pad_reader pad r) = apsnd (pad_reader pad) (ReadString r)"
proof -
  obtain v r1 where rd: "ReadUint32 r = (v, r1)" by (meson surj_pair)
  have "reader_ok r1" using ReadUint32_ok [OF assms] rd by simp
  moreover have "ReadUint32 (pad_reader pad r) = (v, pad_reader pad r1)"
    using rd by (simp add: ReadUint32_pad [OF assms])
  ultimately show ?thesis
    by (cases v; cases "br_bytes r1") (auto simp: ReadString_def rd pad_reader_def reader_ok_def)
qed

lemma DecodeEnvelope_pad:
  "DecodeFilePayloadEnvelope (Some (bs @ pad)) (length bs) = DecodeFilePayloadEnvelope (Some bs) (length bs)"
proof -
  let ?r = "MkByteReader (Some bs) (length bs)"
  have pad: "MkByteReader (Some (bs @ pad)) (length bs) = pad_reader pad ?r"
    by (simp add: MkByteReader_def pad_reader_def)
  have ok: "reader_ok ?r" by (simp add: MkByteReader_def reader_ok_def)
  note ok1 = ReadUint32_ok [OF ok] note ok2 = ReadUint32_ok [OF ok1] note ok3 = ReadUint32_ok [OF ok2]
  show ?thesis
    unfolding DecodeFilePayloadEnvelope_def pad then_read_def ReadUint32_pad [OF ok] fst_apsnd snd_apsnd
      ReadUint32_pad [OF ok1] ReadUint32_pad [OF ok2] ReadString_pad [OF ok3] ..
qed

lemma envelope_round_trip:
  assumes "EncodeFilePayloadEnvelope ref = Some env" "fp_path ref \<noteq> []" "length (fp_path ref) < 2 ^ 32"
  shows "DecodeFilePayloadEnvelope (Some (env @ pad)) (length env) = Some ref"
proof -
  let ?n = "of_nat (length (fp_path ref)) :: u32"
  have "unat ?n = length (fp_path ref)" using assms(3) by (simp add: unat_of_nat)
  then have env: "env = le_bytes 4 FILE_PAYLOAD_ENVELOPE_MAGIC @ le_bytes 4 FILE_PAYLOAD_ENVELOPE_VERSION @
      le_bytes 4 (fp_size ref) @ le_bytes 4 ?n @ str_bytes (fp_path ref)"
    using assms(1) by (simp add: EncodeFilePayloadEnvelope_def writer_eqs)
  have str: "ReadString (reader_at pre (le_bytes 4 ?n @ str_bytes (fp_path ref))) =
      (Some (fp_path ref), reader_at (pre @ le_bytes 4 ?n @ str_bytes (fp_path ref)) [])" for pre
    using ReadString_reader_at [OF assms(3), of pre "[]"] by simp
  have "DecodeFilePayloadEnvelope (Some env) (length env) = Some ref"
    unfolding DecodeFilePayloadEnvelope_def MkByteReader_reader_at
    by (simp add: env then_read_def str assms(2))
  then show ?thesis by (simp add: DecodeEnvelope_pad)
qed

lemma EncodeEnvelope_total: "\<exists>env. EncodeFilePayloadEnvelope ref = Some env"
  by (simp add: EncodeFilePayloadEnvelope_def writer_eqs)

lemma ReadAndRemove_benign:
  assumes "list_all benign (fs_rw w)" "\<forall>s p. fs_deny w s p = None"
    and "IsPathInsideFilePayloadRoot dir p" "p \<noteq> []" "map_of fs p = None"
    and "fs_files w = (p, payload) # fs" "length payload \<le> MAX_FILE_PAYLOAD_BYTES"
  shows "\<exists>w'. ReadAndRemoveFilePayload dir \<lparr>fp_path = p, fp_size = of_nat (length payload)\<rparr> w = (Some payload, w')
     \<and> fs_files w' = fs"
proof -
  let ?ref = "\<lparr>fp_path = p, fp_size = of_nat (length payload) :: u32\<rparr>"
  have size: "unat (of_nat (length payload) :: u32) = length payload"
    using assms(7) by (simp add: unat_of_nat MAX_FILE_PAYLOAD_BYTES_def)
  have op: "sys_open p w = (True, w)" using assms by (simp add: sys_open_def)
  obtain w2 where rd: "ReadAll p w = (Some payload, w2)" "fs_files w2 = fs_files w" "fs_deny w2 = fs_deny w"
    using ReadAll_benign [of w p payload] ReadAll_frame [of p w] assms by (cases "ReadAll p w") auto
  have cl: "sys_close p w2 = (True, w2)" using assms rd by (simp add: sys_close_def)
  have un: "UnlinkFilePayload dir ?ref w2 = (True, w2\<lparr>fs_files := fs\<rparr>)"
    using assms rd size by (simp add: UnlinkFilePayload_def sys_unlink_def filter_fresh)
  show ?thesis
    using assms size by (simp add: ReadAndRemoveFilePayload_def op rd cl RemoveFilePayload_def un)
qed

text \<open>Clearing the directory.\<close>

lemma unlink_None: "map_of (fs_files w) q = None \<Longrightarrow> map_of (fs_files (snd (sys_unlink p w))) q = None"
  by (auto simp: sys_unlink_def fail_with_def split: option.splits)

lemma ClearEntries_None:
  "map_of (fs_files w) q = None \<Longrightarrow> map_of (fs_files (ClearEntries dir names w)) q = None"
  by (induction names arbitrary: w) (auto simp: Let_def split_beta unlink_None)

lemma ClearEntries_dirs: "fs_dirs (ClearEntries dir names w) = fs_dirs w"
  by (induction names arbitrary: w) (auto simp: Let_def split_beta)

lemma ClearEntries_other:
  "(\<forall>n\<in>set names. q \<noteq> dir @ ''/'' @ n) \<Longrightarrow>
     map_of (fs_files (ClearEntries dir names w)) q = map_of (fs_files w) q"
  by (induction names arbitrary: w) (auto simp: Let_def split_beta unlink_other)

lemma ClearEntries_removes:
  assumes "n \<in> set names" "n \<noteq> ''.''" "n \<noteq> ''..''" "dir @ ''/'' @ n \<notin> set (fs_dirs w)"
    "\<forall>s p. fs_deny w s p = None"
  shows "map_of (fs_files (ClearEntries dir names w)) (dir @ ''/'' @ n) = None"
  using assms
proof (induction names arbitrary: w)
  case (Cons m names)
  show ?case
  proof (cases "n = m")
    case True
    have "map_of (fs_files (snd (sys_unlink p (snd (sys_stat_isdir p w))))) p = None" for p
      using Cons.prems(5) by (auto simp: sys_unlink_def fail_with_def)
    moreover have "\<not> fst (sys_stat_isdir (dir @ ''/'' @ m) w)"
      using stat_isdir_True [of "dir @ ''/'' @ m" w] Cons.prems(4) True by blast
    ultimately show ?thesis
      using True Cons.prems by (simp add: Let_def split_beta ClearEntries_None)
  next
    case False
    with Cons show ?thesis by (simp add: Let_def split_beta)
  qed
qed simp

lemma entry_name_join: "entry_name dir p = Some n \<Longrightarrow> entry_name dir (dir @ ''/'' @ n) = Some n"
  using entry_name_Some [of dir p n] by simp

lemma dir_entries_paths:
  "n \<in> set (dir_entries dir w) \<Longrightarrow> n = ''.'' \<or> n = ''..'' \<or> entry_name dir (dir @ ''/'' @ n) = Some n"
  using entry_name_join [of dir _ n] by (auto simp: dir_entries_def map_filter_def)

lemma dir_entries_file:
  "map_of (fs_files w) (dir @ ''/'' @ n) \<noteq> None \<Longrightarrow> entry_name dir (dir @ ''/'' @ n) = Some n \<Longrightarrow>
     n \<in> set (dir_entries dir w)"
  by (force simp: dir_entries_def map_filter_def dest: map_of_SomeD)

section \<open>Properties\<close>

lemma prepared_payload_resolved:
  assumes prep: "PrepareFilePayloadForTransport dir payload maxBytes w = (True, tp, kind, w1)"
    and dir: "find_str dir ''..'' = None" "length (payload_path dir w) < 2 ^ 32"
    and reader: "fs_files w2 = fs_files w1" "list_all benign (fs_rw w2)" "\<forall>s p. fs_deny w2 s p = None"
  shows "\<exists>w3. ResolveFilePayloadFromTransport dir (Some (tp @ pad)) (length tp) kind w2 = (Some payload, w3)
     \<and> fs_files w3 = fs_files w"
proof (cases "length payload \<le> maxBytes")
  case True
  with prep reader(1) show ?thesis
    by (auto simp: PrepareFilePayloadForTransport_def ResolveFilePayloadFromTransport_def)
next
  case False
  with prep obtain ref where wr: "WriteFilePayload dir payload w = (Some ref, w1)"
    "EncodeFilePayloadEnvelope ref = Some tp" "kind = PAYLOAD_KIND_FILE_REF"
    by (auto simp: PrepareFilePayloadForTransport_def PAYLOAD_KIND_INLINE_def
        split: prod.splits option.splits if_splits)
  note wfp = WriteFilePayload_Some [OF wr(1)] and inside = payload_path_inside [OF dir(1), of w]
  have "DecodeFilePayloadEnvelope (Some (tp @ pad)) (length tp) = Some ref"
    using envelope_round_trip [OF wr(2), of pad] wfp(1) inside(2) dir(2) by simp
  then show ?thesis
    using ReadAndRemove_benign [OF reader(2,3) inside wfp(2) _ wfp(4)] wfp(1,3) reader(1) wr(3)
    by (simp add: ResolveFilePayloadFromTransport_def PAYLOAD_KIND_FILE_REF_def PAYLOAD_KIND_INLINE_def)
qed

text \<open>An accepted payload fits, and a reference to a file is never empty.\<close>

lemma prepared_payload_fits:
  assumes "PrepareFilePayloadForTransport dir payload maxBytes w = (True, tp, kind, w1)"
  shows "length tp \<le> maxBytes \<and> (kind = PAYLOAD_KIND_INLINE \<or> kind = PAYLOAD_KIND_FILE_REF \<and> tp \<noteq> [])"
proof (cases "length payload \<le> maxBytes")
  case True
  with assms show ?thesis by (auto simp: PrepareFilePayloadForTransport_def)
next
  case False
  with assms obtain ref where ref: "EncodeFilePayloadEnvelope ref = Some tp" "length tp \<le> maxBytes" "kind = PAYLOAD_KIND_FILE_REF"
    by (auto simp: PrepareFilePayloadForTransport_def split: prod.splits option.splits if_splits)
  have "length tp \<ge> 12" using ref(1) by (auto simp: EncodeFilePayloadEnvelope_def writer_eqs)
  then have "tp \<noteq> []" by auto
  with ref show ?thesis by simp
qed

text \<open>C17: Large payloads survive the detour through a file.  Whatever faults the sender met, if
  \<^verbatim>\<open>PrepareFilePayloadForTransport\<close> accepts a payload then a receiver that meets only interrupts and
  short reads resolves the transport bytes, found at the front of a larger array, to exactly that
  payload, and afterwards the file system holds the files it held before.\<close>

theorem file_payload_round_trip:
  assumes prep: "PrepareFilePayloadForTransport dir payload maxBytes w = (True, tp, kind, w1)"
    and dir: "find_str dir ''..'' = None" "length (payload_path dir w) < 2 ^ 32"
    and reader: "fs_files w2 = fs_files w1" "list_all benign (fs_rw w2)" "\<forall>s p. fs_deny w2 s p = None"
  shows "\<exists>w3. ResolveFilePayloadFromTransport dir (Some (tp @ pad)) (length tp) kind w2 = (Some payload, w3)
     \<and> fs_files w3 = fs_files w"
  using assms by (rule prepared_payload_resolved)

text \<open>C32: A refused payload leaves nothing behind: when preparing fails, for whatever reason, the
  transport payload is empty and the files are those from before, provided unlinking is permitted.\<close>

theorem file_payload_refused_no_leak:
  assumes "PrepareFilePayloadForTransport dir payload maxBytes w = (False, tp, kind, w1)"
    and "find_str dir ''..'' = None" "\<forall>p. fs_deny w SysUnlink p = None"
  shows "fs_files w1 = fs_files w \<and> tp = [] \<and> kind = PAYLOAD_KIND_INLINE"
proof -
  obtain r w0 where wr: "WriteFilePayload dir payload w = (r, w0)" by (meson surj_pair)
  show ?thesis
  proof (cases r)
    case None
    with assms(1) wr WriteFilePayload_None [of dir payload w w0] assms(3) show ?thesis
      by (auto simp: PrepareFilePayloadForTransport_def RemoveFilePayload_def UnlinkFilePayload_def
          default_FilePayloadRef_def split: if_splits)
  next
    case (Some ref)
    note wfp = WriteFilePayload_Some [OF wr [unfolded Some]] and inside = payload_path_inside [OF assms(2), of w]
    have "unat (of_nat (length payload) :: u32) \<le> MAX_FILE_PAYLOAD_BYTES"
      using wfp(4) by (simp add: unat_of_nat MAX_FILE_PAYLOAD_BYTES_def)
    then have "fs_files (snd (RemoveFilePayload dir ref w0)) = fs_files w"
      using wfp inside assms(3)
      by (simp add: RemoveFilePayload_def UnlinkFilePayload_def sys_unlink_def filter_fresh)
    with assms(1) wr Some show ?thesis
      by (auto simp: PrepareFilePayloadForTransport_def split: if_splits option.splits)
  qed
qed


text \<open>\<^verbatim>\<open>ClearFilePayloads\<close> empties exactly the directory: when it returns true and no call is denied,
  no regular file of the directory is left, and every file that is not directly in it is unchanged.\<close>

lemma ClearFilePayloads_clears:
  assumes "ClearFilePayloads dir w = (True, w')" "\<forall>s p. fs_deny w s p = None"
  shows "(\<forall>n. entry_name dir (dir @ ''/'' @ n) = Some n \<and> n \<noteq> ''.'' \<and> n \<noteq> ''..'' \<and>
        dir @ ''/'' @ n \<notin> set (fs_dirs w') \<longrightarrow> map_of (fs_files w') (dir @ ''/'' @ n) = None) \<and>
    (\<forall>p. entry_name dir p = None \<and> p \<noteq> dir @ ''/.'' \<and> p \<noteq> dir @ ''/..'' \<longrightarrow>
        map_of (fs_files w') p = map_of (fs_files w) p)"
proof -
  obtain ok w1 where en: "EnsureFilePayloadDir dir w = (ok, w1)" by (meson surj_pair)
  have same: "fs_files w1 = fs_files w" "\<forall>s p. fs_deny w1 s p = None"
    using Ensure_same_files [of w dir] en assms(2) by (simp_all add: same_files_def)
  have w': "w' = ClearEntries dir (dir_entries dir w1) w1"
    using assms(1) en same by (simp add: ClearFilePayloads_def split: if_splits)
  have "map_of (fs_files w') p = map_of (fs_files w) p"
    if "entry_name dir p = None" "p \<noteq> dir @ ''/.''" "p \<noteq> dir @ ''/..''" for p
    using ClearEntries_other [of "dir_entries dir w1" p dir w1] dir_entries_paths [of _ dir w1] that
    unfolding w' same(1) [symmetric] by fastforce
  moreover have "map_of (fs_files w') (dir @ ''/'' @ n) = None"
    if "entry_name dir (dir @ ''/'' @ n) = Some n" "n \<noteq> ''.''" "n \<noteq> ''..''" "dir @ ''/'' @ n \<notin> set (fs_dirs w')" for n
  proof (cases "map_of (fs_files w1) (dir @ ''/'' @ n) = None")
    case True
    then show ?thesis unfolding w' by (rule ClearEntries_None)
  next
    case False
    with that show ?thesis
      unfolding w' using same(2)
      by (intro ClearEntries_removes dir_entries_file) (simp_all add: ClearEntries_dirs)
  qed
  ultimately show ?thesis by blast
qed

section \<open>Witnesses\<close>

definition demo_fs :: Fs where
  "demo_fs = \<lparr>fs_files = [(''/etc/x'', [1])], fs_dirs = [''/p''], fs_deny = \<lambda>_ _. None,
     fs_rw = [RwCount 1, RwErr EINTR, RwCount 5], fs_errno = EINTR, fs_pid = 7, fs_clock = 5, fs_counter = 0\<rparr>"

text \<open>Thirty bytes over a transport of twenty-four, written and read in pieces.\<close>

abbreviation demo_prepared :: "bool \<times> bytes \<times> u8 \<times> Fs" where
  "demo_prepared \<equiv> PrepareFilePayloadForTransport ''/p'' (replicate 30 7) 24 demo_fs"

abbreviation demo_reader :: Fs where
  "demo_reader \<equiv> (snd (snd (snd demo_prepared)))\<lparr>fs_rw := [RwErr EINTR, RwCount 2], fs_deny := \<lambda>_ _. None\<rparr>"

lemmas demo_eval = PrepareFilePayloadForTransport_def WriteFilePayload_def MAX_FILE_PAYLOAD_BYTES_def
  EnsureFilePayloadDir.simps MakeFilePayloadPath_def sys_mkdir_def sys_create_def sys_close_def sys_stat_isdir_def
  demo_fs_def fs_exists_def fail_with_def nat_str.simps int_str_def digit_char_def parent_error_def
  WriteAll.simps sys_write_def file_append_def EncodeFilePayloadEnvelope_def writer_eqs PAYLOAD_KIND_INLINE_def
  PAYLOAD_KIND_FILE_REF_def Let_def char_of_def

theorem file_payload_round_trip_witness:
  "fst (snd (snd demo_prepared)) = PAYLOAD_KIND_FILE_REF \<and>
   (\<exists>w3. ResolveFilePayloadFromTransport ''/p'' (Some (fst (snd demo_prepared) @ [0, 0]))
       (length (fst (snd demo_prepared))) (fst (snd (snd demo_prepared))) demo_reader =
     (Some (replicate 30 7), w3) \<and> fs_files w3 = fs_files demo_fs)"
proof -
  have ok: "fst demo_prepared" "fst (snd (snd demo_prepared)) = PAYLOAD_KIND_FILE_REF"
    by (simp_all add: demo_eval)
  have "demo_prepared = (True, fst (snd demo_prepared), fst (snd (snd demo_prepared)), snd (snd (snd demo_prepared)))"
    using ok(1) by (simp add: prod_eq_iff)
  moreover have "find_str ''/p'' ''..'' = None" "length (payload_path ''/p'' demo_fs) < 2 ^ 32"
    by (simp_all add: payload_path_def demo_eval)
  ultimately show ?thesis
    using file_payload_round_trip [of "''/p''" "replicate 30 7" 24 demo_fs "fst (snd demo_prepared)"
        "fst (snd (snd demo_prepared))" "snd (snd (snd demo_prepared))" demo_reader "[0, 0]"] ok(2) by simp
qed

text \<open>The envelope does not fit: the file written is removed again.\<close>

abbreviation demo_refused :: "bool \<times> bytes \<times> u8 \<times> Fs" where
  "demo_refused \<equiv> PrepareFilePayloadForTransport ''/p'' (replicate 30 7) 23 demo_fs"

theorem file_payload_refused_no_leak_witness:
  "\<not> fst demo_refused \<and> fs_files (snd (snd (snd demo_refused))) = fs_files demo_fs"
proof -
  have ok: "\<not> fst demo_refused" by (simp add: demo_eval)
  then have "demo_refused = (False, fst (snd demo_refused), fst (snd (snd demo_refused)), snd (snd (snd demo_refused)))"
    by (simp add: prod_eq_iff)
  moreover have "find_str ''/p'' ''..'' = None" "\<forall>p. fs_deny demo_fs SysUnlink p = None"
    by (simp_all add: demo_fs_def)
  ultimately show ?thesis using file_payload_refused_no_leak ok by blast
qed


end
