(* ===== verification/Memrpc_Session.thy ===== *)
theory Memrpc_Session
  imports Memrpc_Layout Memrpc_FilePayload "HOL-Library.Multiset"
begin

text \<open>
  \<^verbatim>\<open>Session\<close> (\<^verbatim>\<open>session.cpp\<close>): one process's attachment to a shared-memory object, and the push and
  pop operations through it.  A shared-memory object \<open>Shm\<close> is its header and its three entry arrays
  (the layout theory shows that they occupy disjoint regions); \<open>SysState\<close> holds the objects, the object
  behind each descriptor, and the ghost logs of closed descriptors and live mappings.

  The outcome of each system call of an attach is a field of \<open>AttachEnv\<close>; what the other process does to
  the object between a push and the second look at the session state is the argument \<open>interf\<close>.
\<close>

section \<open>Objects, processes and sessions\<close>

datatype QueueKind = HighRequest | NormalRequest | ResponseQueue

datatype AttachRole = ClientRole | ServerRole

definition SessionAlive :: u32 where
  "SessionAlive = 0"

definition SessionBroken :: u32 where
  "SessionBroken = 1"

record Shm =
  shm_size :: int
  shm_header :: SharedMemoryHeader
  shm_high :: "RequestRingEntry list"
  shm_normal :: "RequestRingEntry list"
  shm_response :: "ResponseRingEntry list"

record SysState =
  ss_objs :: "nat \<Rightarrow> Shm"
  ss_fdobj :: "int \<Rightarrow> nat"
  ss_closed :: "int list"
  ss_maps :: "u64 list"

text \<open>\<open>se_region\<close> and \<open>se_header\<close> say that the pointers \<^verbatim>\<open>mappedRegion_\<close> and \<^verbatim>\<open>header_\<close> are not null; they point
  into the object \<open>se_obj\<close>.\<close>

record Session =
  se_mappedSize :: u64
  se_initialMappedSize :: u64
  se_region :: bool
  se_handles :: BootstrapHandles
  se_header :: bool
  se_obj :: nat
  se_layout :: Layout
  se_maxRequestBytes :: u32
  se_maxResponseBytes :: u32
  se_responseRingSize :: u32
  se_attachRole :: AttachRole
  se_ownsClientAttachment :: bool

definition default_Session :: Session where
  "default_Session = \<lparr>se_mappedSize = 0, se_initialMappedSize = 0, se_region = False,
     se_handles = MakeDefaultBootstrapHandles, se_header = False, se_obj = 0, se_layout = default_Layout,
     se_maxRequestBytes = 0, se_maxResponseBytes = 0, se_responseRingSize = 0, se_attachRole = ServerRole,
     se_ownsClientAttachment = False\<rparr>"

abbreviation upd_header :: "nat \<Rightarrow> (SharedMemoryHeader \<Rightarrow> SharedMemoryHeader) \<Rightarrow> SysState \<Rightarrow> SysState" where
  "upd_header obj f w \<equiv> w\<lparr>ss_objs := (ss_objs w)(obj := (ss_objs w obj)\<lparr>shm_header := f (shm_header (ss_objs w obj))\<rparr>)\<rparr>"

section \<open>Locks, processes and descriptors\<close>

datatype LockRc = LockAcquired | LockOwnerDead | LockTimedOut | LockNotRecoverable | LockOther int

record LockEnv =
  le_clock :: "(int \<times> int) option"
  le_timedlock :: "int \<times> int \<Rightarrow> LockRc"

definition LOCK_TIMEOUT_NS :: int where
  "LOCK_TIMEOUT_NS = 100 * 1000 * 1000"

definition NS_PER_SECOND :: int where
  "NS_PER_SECOND = 1000 * 1000 * 1000"

definition lock_deadline :: "int \<times> int \<Rightarrow> int \<times> int" where
  "lock_deadline now =
     (let sec = fst now; nsec = snd now + LOCK_TIMEOUT_NS
      in if nsec \<ge> NS_PER_SECOND then (sec + 1, nsec - NS_PER_SECOND) else (sec, nsec))"

definition LockSharedMutex :: "LockEnv \<Rightarrow> StatusCode" where
  "LockSharedMutex env =
     (case le_clock env of
        None \<Rightarrow> EngineInternalError
      | Some now \<Rightarrow>
          (case le_timedlock env (lock_deadline now) of
             LockAcquired \<Rightarrow> Ok
           | LockOwnerDead \<Rightarrow> PeerDisconnected
           | LockTimedOut \<Rightarrow> PeerDisconnected
           | LockNotRecoverable \<Rightarrow> PeerDisconnected
           | LockOther rc \<Rightarrow> EngineInternalError))"

datatype KillResult = KillOk | KillEsrch | KillOtherErrno

definition ProcessIsAlive :: "(u32 \<Rightarrow> KillResult) \<Rightarrow> u32 \<Rightarrow> bool" where
  "ProcessIsAlive killf pid =
     (if pid = 0 then False else if killf pid = KillOk then True else killf pid \<noteq> KillEsrch)"

definition TakeBootstrapHandles :: "BootstrapHandles option \<Rightarrow> BootstrapHandles \<times> BootstrapHandles option" where
  "TakeBootstrapHandles handles =
     (case handles of
        None \<Rightarrow> (MakeDefaultBootstrapHandles, None)
      | Some h \<Rightarrow> (h, Some MakeDefaultBootstrapHandles))"

definition CloseFd :: "int \<Rightarrow> SysState \<Rightarrow> int \<times> SysState" where
  "CloseFd fd w = (if fd \<ge> 0 then (- 1, w\<lparr>ss_closed := ss_closed w @ [fd]\<rparr>) else (fd, w))"

definition CloseHandles :: "BootstrapHandles \<Rightarrow> SysState \<Rightarrow> BootstrapHandles \<times> SysState" where
  "CloseHandles h w =
     (case CloseFd (bh_shmFd h) w of (a, w) \<Rightarrow>
      case CloseFd (bh_highReqEventFd h) w of (b, w) \<Rightarrow>
      case CloseFd (bh_normalReqEventFd h) w of (c, w) \<Rightarrow>
      case CloseFd (bh_respEventFd h) w of (d, w) \<Rightarrow>
      case CloseFd (bh_reqCreditEventFd h) w of (e, w) \<Rightarrow>
      case CloseFd (bh_respCreditEventFd h) w of (f, w) \<Rightarrow>
      (h\<lparr>bh_shmFd := a, bh_highReqEventFd := b, bh_normalReqEventFd := c, bh_respEventFd := d,
         bh_reqCreditEventFd := e, bh_respCreditEventFd := f\<rparr>, w))"

section \<open>Reset\<close>

definition ReleaseClientAttachment :: "LockEnv \<Rightarrow> Session \<Rightarrow> SysState \<Rightarrow> SysState" where
  "ReleaseClientAttachment env se w =
     (if \<not> se_header se \<or> \<not> se_ownsClientAttachment se then w
      else if LockSharedMutex env \<noteq> Ok then w
      else upd_header (se_obj se) (\<lambda>h. h\<lparr>hd_clientAttached := 0, hd_activeClientPid := 0\<rparr>) w)"

definition CurrentMappedSize :: "Session \<Rightarrow> u64" where
  "CurrentMappedSize se = (if se_mappedSize se \<noteq> 0 then se_mappedSize se else se_initialMappedSize se)"

definition sys_munmap :: "u64 \<Rightarrow> SysState \<Rightarrow> SysState" where
  "sys_munmap n w = w\<lparr>ss_maps := remove1 n (ss_maps w)\<rparr>"

definition sys_mmap :: "u64 \<Rightarrow> SysState \<Rightarrow> SysState" where
  "sys_mmap n w = w\<lparr>ss_maps := n # ss_maps w\<rparr>"

definition Reset :: "LockEnv \<Rightarrow> Session \<Rightarrow> SysState \<Rightarrow> Session \<times> SysState" where
  "Reset env se w =
     (let w1 = ReleaseClientAttachment env se w;
          w2 = (if se_region se \<and> CurrentMappedSize se \<noteq> 0 then sys_munmap (CurrentMappedSize se) w1 else w1);
          w3 = snd (CloseHandles (se_handles se) w2)
      in (default_Session, w3))"

section \<open>Attach\<close>

record AttachEnv =
  ae_resetLock :: LockEnv
  ae_fstat1 :: bool
  ae_mmap1 :: bool
  ae_fstat2 :: bool
  ae_mmap2 :: bool
  ae_lock :: LockEnv
  ae_kill :: "u32 \<Rightarrow> KillResult"
  ae_pid :: u32

definition MapAndValidateHeader ::
  "abi \<Rightarrow> AttachEnv \<Rightarrow> int \<Rightarrow> Session \<Rightarrow> SysState \<Rightarrow> StatusCode \<times> Session \<times> SysState" where
  "MapAndValidateHeader a env shmFd se w =
     (let obj = ss_fdobj w shmFd; headerBytes = sizeof_SharedMemoryHeader a
      in if \<not> ae_fstat1 env then (EngineInternalError, se, w)
         else if shm_size (ss_objs w obj) < uint headerBytes then (ProtocolMismatch, se, w)
         else
           let se1 = se\<lparr>se_initialMappedSize := headerBytes, se_mappedSize := 0\<rparr>
           in if \<not> ae_mmap1 env then (EngineInternalError, se1\<lparr>se_region := False\<rparr>, w)
              else
                let w1 = sys_mmap headerBytes w;
                    se2 = se1\<lparr>se_region := True, se_header := True, se_obj := obj\<rparr>;
                    h = shm_header (ss_objs w1 obj)
                in if hd_magic h \<noteq> SHARED_MEMORY_MAGIC \<or> hd_protocolVersion h \<noteq> PROTOCOL_VERSION then
                     (case Reset (ae_lock env) se2 w1 of (se3, w2) \<Rightarrow> (ProtocolMismatch, se3, w2))
                   else (Ok, se2, w1))"

definition header_config :: "SharedMemoryHeader \<Rightarrow> LayoutConfig" where
  "header_config h = \<lparr>lc_highRingSize = hd_highRingSize h, lc_normalRingSize = hd_normalRingSize h,
     lc_responseRingSize = hd_responseRingSize h, lc_maxRequestBytes = hd_maxRequestBytes h,
     lc_maxResponseBytes = hd_maxResponseBytes h\<rparr>"

definition RemapWithActualLayout ::
  "abi \<Rightarrow> AttachEnv \<Rightarrow> int \<Rightarrow> Session \<Rightarrow> SysState \<Rightarrow> StatusCode \<times> Session \<times> SysState" where
  "RemapWithActualLayout a env shmFd se w =
     (let obj = ss_fdobj w shmFd; shm = ss_objs w obj; h = shm_header shm; config = header_config h
      in if \<not> ae_fstat2 env then
           (case Reset (ae_lock env) se w of (se1, w1) \<Rightarrow> (EngineInternalError, se1, w1))
         else if \<not> ValidateLayoutConfig a config (of_int (shm_size shm)) \<or>
           \<not> ValidateRingCursor (hd_highRing h) (lc_highRingSize config) \<or>
           \<not> ValidateRingCursor (hd_normalRing h) (lc_normalRingSize config) \<or>
           \<not> ValidateRingCursor (hd_responseRing h) (lc_responseRingSize config) then
           (case Reset (ae_lock env) se w of (se1, w1) \<Rightarrow> (ProtocolMismatch, se1, w1))
         else
           let actual_layout = ComputeLayout a config;
               w1 = sys_munmap (se_initialMappedSize se) w;
               se1 = se\<lparr>se_region := False, se_header := False, se_initialMappedSize := 0\<rparr>
           in if \<not> ae_mmap2 env then (EngineInternalError, se1\<lparr>se_mappedSize := 0\<rparr>, w1)
              else (Ok, se1\<lparr>se_region := True, se_layout := actual_layout,
                      se_maxRequestBytes := lc_maxRequestBytes config,
                      se_maxResponseBytes := lc_maxResponseBytes config,
                      se_responseRingSize := lc_responseRingSize config,
                      se_mappedSize := ly_totalSize actual_layout, se_header := True\<rparr>,
                    sys_mmap (ly_totalSize actual_layout) w1))"

definition TryAcquireClientAttachment ::
  "AttachEnv \<Rightarrow> Session \<Rightarrow> SysState \<Rightarrow> StatusCode \<times> Session \<times> SysState" where
  "TryAcquireClientAttachment env se w =
     (let lock_status = LockSharedMutex (ae_lock env); h = shm_header (ss_objs w (se_obj se))
      in if lock_status \<noteq> Ok then
           (case Reset (ae_lock env) se w of (se1, w1) \<Rightarrow> (lock_status, se1, w1))
         else if hd_clientAttached h \<noteq> 0 \<and> ProcessIsAlive (ae_kill env) (hd_activeClientPid h) then
           (case Reset (ae_lock env) se w of (se1, w1) \<Rightarrow> (InvalidArgument, se1, w1))
         else (Ok, se\<lparr>se_ownsClientAttachment := True\<rparr>,
               upd_header (se_obj se) (\<lambda>h. h\<lparr>hd_clientAttached := 1, hd_activeClientPid := ae_pid env\<rparr>) w))"

definition Attach ::
  "abi \<Rightarrow> AttachEnv \<Rightarrow> BootstrapHandles option \<Rightarrow> AttachRole \<Rightarrow> Session \<Rightarrow> SysState
     \<Rightarrow> StatusCode \<times> BootstrapHandles option \<times> Session \<times> SysState" where
  "Attach a env handles role se w =
     (case Reset (ae_resetLock env) se w of (se, w) \<Rightarrow>
      case TakeBootstrapHandles handles of (adopted, handles) \<Rightarrow>
      if bh_shmFd adopted < 0 then (InvalidArgument, handles, se, snd (CloseHandles adopted w))
      else case MapAndValidateHeader a env (bh_shmFd adopted) se w of (status, se, w) \<Rightarrow>
      if status \<noteq> Ok then (status, handles, se, snd (CloseHandles adopted w))
      else case RemapWithActualLayout a env (bh_shmFd adopted) se w of (status, se, w) \<Rightarrow>
      if status \<noteq> Ok then (status, handles, se, snd (CloseHandles adopted w))
      else
        let se = se\<lparr>se_handles := adopted, se_attachRole := role, se_ownsClientAttachment := False\<rparr>
        in if role = ClientRole then
             (case TryAcquireClientAttachment env se w of (status, se, w) \<Rightarrow> (status, handles, se, w))
           else (Ok, handles, se, w))"

section \<open>Accessors\<close>

definition Valid :: "Session \<Rightarrow> bool" where
  "Valid se = se_header se"

definition State :: "Session \<Rightarrow> SysState \<Rightarrow> u32" where
  "State se w = (if \<not> se_header se then SessionBroken else hd_sessionState (shm_header (ss_objs w (se_obj se))))"

definition SetState :: "u32 \<Rightarrow> Session \<Rightarrow> SysState \<Rightarrow> SysState" where
  "SetState st se w = (if se_header se then upd_header (se_obj se) (\<lambda>h. h\<lparr>hd_sessionState := st\<rparr>) w else w)"

section \<open>Push and pop\<close>

fun request_ring :: "QueueKind \<Rightarrow> Shm \<Rightarrow> RequestRingEntry Ring" where
  "request_ring HighRequest shm = \<lparr>rg_cursor = hd_highRing (shm_header shm), rg_entries = shm_high shm\<rparr>"
| "request_ring _ shm = \<lparr>rg_cursor = hd_normalRing (shm_header shm), rg_entries = shm_normal shm\<rparr>"

definition response_ring :: "Shm \<Rightarrow> ResponseRingEntry Ring" where
  "response_ring shm = \<lparr>rg_cursor = hd_responseRing (shm_header shm), rg_entries = shm_response shm\<rparr>"

fun put_request_ring :: "QueueKind \<Rightarrow> RequestRingEntry Ring \<Rightarrow> Shm \<Rightarrow> Shm" where
  "put_request_ring HighRequest r shm =
     shm\<lparr>shm_header := (shm_header shm)\<lparr>hd_highRing := rg_cursor r\<rparr>, shm_high := rg_entries r\<rparr>"
| "put_request_ring _ r shm =
     shm\<lparr>shm_header := (shm_header shm)\<lparr>hd_normalRing := rg_cursor r\<rparr>, shm_normal := rg_entries r\<rparr>"

definition put_response_ring :: "ResponseRingEntry Ring \<Rightarrow> Shm \<Rightarrow> Shm" where
  "put_response_ring r shm =
     shm\<lparr>shm_header := (shm_header shm)\<lparr>hd_responseRing := rg_cursor r\<rparr>, shm_response := rg_entries r\<rparr>"

definition ResolveRequestRing :: "QueueKind \<Rightarrow> Session \<Rightarrow> SysState \<Rightarrow> RequestRingEntry Ring option" where
  "ResolveRequestRing q se w =
     (if \<not> se_header se \<or> \<not> se_region se then None else Some (request_ring q (ss_objs w (se_obj se))))"

definition ResolveResponseRing :: "Session \<Rightarrow> SysState \<Rightarrow> ResponseRingEntry Ring option" where
  "ResolveResponseRing se w =
     (if \<not> se_header se \<or> \<not> se_region se then None else Some (response_ring (ss_objs w (se_obj se))))"

definition store_request :: "QueueKind \<Rightarrow> RequestRingEntry Ring option \<Rightarrow> Session \<Rightarrow> SysState \<Rightarrow> SysState" where
  "store_request q access se w =
     (case access of None \<Rightarrow> w
      | Some r \<Rightarrow> w\<lparr>ss_objs := (ss_objs w)(se_obj se := put_request_ring q r (ss_objs w (se_obj se)))\<rparr>)"

definition store_response :: "ResponseRingEntry Ring option \<Rightarrow> Session \<Rightarrow> SysState \<Rightarrow> SysState" where
  "store_response access se w =
     (case access of None \<Rightarrow> w
      | Some r \<Rightarrow> w\<lparr>ss_objs := (ss_objs w)(se_obj se := put_response_ring r (ss_objs w (se_obj se)))\<rparr>)"

definition PushRequest ::
  "(SysState \<Rightarrow> SysState) \<Rightarrow> QueueKind \<Rightarrow> RequestRingEntry \<Rightarrow> Session \<Rightarrow> SysState \<Rightarrow> StatusCode \<times> SysState" where
  "PushRequest interf q entry se w =
     (if State se w \<noteq> SessionAlive then (PeerDisconnected, w)
      else case PushRingEntry (ResolveRequestRing q se w) entry of (status, access) \<Rightarrow>
      let w1 = interf (store_request q access se w)
      in if status = Ok \<and> State se w1 \<noteq> SessionAlive then (PeerDisconnected, w1) else (status, w1))"

definition PopRequest :: "QueueKind \<Rightarrow> Session \<Rightarrow> SysState \<Rightarrow> RequestRingEntry option \<times> SysState" where
  "PopRequest q se w =
     (if State se w \<noteq> SessionAlive then (None, w)
      else case PopRingEntry (ResolveRequestRing q se w) of (e, access) \<Rightarrow> (e, store_request q access se w))"

definition PushResponse ::
  "(SysState \<Rightarrow> SysState) \<Rightarrow> ResponseRingEntry \<Rightarrow> Session \<Rightarrow> SysState \<Rightarrow> StatusCode \<times> SysState" where
  "PushResponse interf entry se w =
     (if State se w \<noteq> SessionAlive then (PeerDisconnected, w)
      else case PushRingEntry (ResolveResponseRing se w) entry of (status, access) \<Rightarrow>
      let w1 = interf (store_response access se w)
      in if status = Ok \<and> State se w1 \<noteq> SessionAlive then (PeerDisconnected, w1) else (status, w1))"

definition PopResponse :: "Session \<Rightarrow> SysState \<Rightarrow> ResponseRingEntry option \<times> SysState" where
  "PopResponse se w =
     (if State se w \<noteq> SessionAlive then (None, w)
      else case PopRingEntry (ResolveResponseRing se w) of (e, access) \<Rightarrow> (e, store_response access se w))"

section \<open>Discarding the file payloads of a dead session\<close>

text \<open>The loop over the entries between head and tail, for either entry type: \<open>ref\<close> gives payload, size
  and kind of an entry.\<close>

definition RemovePendingFilePayloadsFromRing ::
  "('e \<Rightarrow> bytes \<times> u32 \<times> u8) \<Rightarrow> string \<Rightarrow> 'e Ring option \<Rightarrow> Fs \<Rightarrow> Fs" where
  "RemovePendingFilePayloadsFromRing ref dir access fs =
     (case access of
        None \<Rightarrow> fs
      | Some r \<Rightarrow>
          (let cap = rc_capacity (rg_cursor r); head = rc_head (rg_cursor r); tail = rc_tail (rg_cursor r)
           in if cap = 0 then fs
              else foldl (\<lambda>fs i. case ref (rg_entries r ! unat ((head + of_nat i) mod cap)) of (payload, sz, kind) \<Rightarrow>
                       snd (RemoveFilePayloadFromTransport dir (Some payload) (unat sz) kind fs))
                     fs [0..<unat (min (tail - head) cap)]))"

definition request_ref :: "RequestRingEntry \<Rightarrow> bytes \<times> u32 \<times> u8" where
  "request_ref e = (rq_payload e, rq_payloadSize e, rq_payloadKind e)"

definition response_ref :: "ResponseRingEntry \<Rightarrow> bytes \<times> u32 \<times> u8" where
  "response_ref e = (rs_payload e, rs_resultSize e, rs_payloadKind e)"

definition RemovePendingFilePayloads :: "string \<Rightarrow> Session \<Rightarrow> SysState \<Rightarrow> Fs \<Rightarrow> Fs" where
  "RemovePendingFilePayloads dir se w fs =
     (if \<not> se_header se \<or> \<not> se_region se then fs
      else
        let fs1 = RemovePendingFilePayloadsFromRing request_ref dir (ResolveRequestRing HighRequest se w) fs;
            fs2 = RemovePendingFilePayloadsFromRing request_ref dir (ResolveRequestRing NormalRequest se w) fs1
        in RemovePendingFilePayloadsFromRing response_ref dir (ResolveResponseRing se w) fs2)"

section \<open>What an attach does\<close>

lemma CloseHandles_log: "snd (CloseHandles h w) = w\<lparr>ss_closed := ss_closed w @ open_fds h\<rparr>"
  by (simp add: CloseHandles_def CloseFd_def open_fds_def handle_fds_def split_beta)

text \<open>The object descriptor an attach works on, the state after the initial reset, and the checks.\<close>

definition reset_state :: "AttachEnv \<Rightarrow> Session \<Rightarrow> SysState \<Rightarrow> SysState" where
  "reset_state env se w = snd (Reset (ae_resetLock env) se w)"

definition layout_accepted :: "abi \<Rightarrow> Shm \<Rightarrow> bool" where
  "layout_accepted a shm \<longleftrightarrow>
     (let h = shm_header shm; config = header_config h
      in ValidateLayoutConfig a config (of_int (shm_size shm)) \<and>
         ValidateRingCursor (hd_highRing h) (lc_highRingSize config) \<and>
         ValidateRingCursor (hd_normalRing h) (lc_normalRingSize config) \<and>
         ValidateRingCursor (hd_responseRing h) (lc_responseRingSize config))"

definition attached_session :: "abi \<Rightarrow> BootstrapHandles \<Rightarrow> AttachRole \<Rightarrow> nat \<Rightarrow> Shm \<Rightarrow> Session" where
  "attached_session a h role obj shm =
     (let config = header_config (shm_header shm); l = ComputeLayout a config
      in \<lparr>se_mappedSize = ly_totalSize l, se_initialMappedSize = 0, se_region = True, se_handles = h,
          se_header = True, se_obj = obj, se_layout = l, se_maxRequestBytes = lc_maxRequestBytes config,
          se_maxResponseBytes = lc_maxResponseBytes config, se_responseRingSize = lc_responseRingSize config,
          se_attachRole = role, se_ownsClientAttachment = (role = ClientRole)\<rparr>)"

definition attachment_free :: "AttachEnv \<Rightarrow> Shm \<Rightarrow> bool" where
  "attachment_free env shm \<longleftrightarrow> hd_clientAttached (shm_header shm) = 0 \<or>
     \<not> ProcessIsAlive (ae_kill env) (hd_activeClientPid (shm_header shm))"

lemma Reset_default: "Reset env se w = (default_Session, snd (Reset env se w))"
  by (simp add: Reset_def Let_def)

lemma Reset_fresh:
  "se_handles se = MakeDefaultBootstrapHandles \<Longrightarrow> \<not> se_ownsClientAttachment se \<Longrightarrow> se_region se \<Longrightarrow>
     CurrentMappedSize se = n \<Longrightarrow> n \<noteq> 0 \<Longrightarrow> Reset env se (sys_mmap n w) = (default_Session, w)"
  by (simp add: Reset_def Let_def ReleaseClientAttachment_def sys_munmap_def sys_mmap_def CloseHandles_log)

lemma header_bytes_nonzero: "abi_ok a \<Longrightarrow> sizeof_SharedMemoryHeader a \<noteq> 0"
  using sizeof_header_bounds(1) [of a] by auto

text \<open>The outcomes of the two mapping phases, from the object found behind the descriptor.\<close>

definition map_status :: "abi \<Rightarrow> AttachEnv \<Rightarrow> Shm \<Rightarrow> StatusCode" where
  "map_status a env shm =
     (if \<not> ae_fstat1 env then EngineInternalError
      else if shm_size shm < uint (sizeof_SharedMemoryHeader a) then ProtocolMismatch
      else if \<not> ae_mmap1 env then EngineInternalError
      else if hd_magic (shm_header shm) \<noteq> SHARED_MEMORY_MAGIC \<or>
        hd_protocolVersion (shm_header shm) \<noteq> PROTOCOL_VERSION then ProtocolMismatch
      else Ok)"

definition remap_status :: "abi \<Rightarrow> AttachEnv \<Rightarrow> Shm \<Rightarrow> StatusCode" where
  "remap_status a env shm =
     (if \<not> ae_fstat2 env then EngineInternalError
      else if \<not> layout_accepted a shm then ProtocolMismatch
      else if \<not> ae_mmap2 env then EngineInternalError
      else Ok)"

definition detached :: "Session \<Rightarrow> bool" where
  "detached se \<longleftrightarrow> \<not> se_header se \<and> \<not> se_region se \<and> \<not> se_ownsClientAttachment se \<and>
     se_handles se = MakeDefaultBootstrapHandles"

lemma detached_default [simp]: "detached default_Session"
  by (simp add: detached_def default_Session_def)

lemma sys_mmap_objs [simp]: "ss_objs (sys_mmap n w) = ss_objs w" "ss_fdobj (sys_mmap n w) = ss_fdobj w"
  by (simp_all add: sys_mmap_def)

abbreviation mapped_session :: "abi \<Rightarrow> nat \<Rightarrow> Session" where
  "mapped_session a obj \<equiv> default_Session\<lparr>se_initialMappedSize := sizeof_SharedMemoryHeader a,
     se_region := True, se_header := True, se_obj := obj\<rparr>"

lemma mapped_session_undo:
  "abi_ok a \<Longrightarrow> Reset env (mapped_session a obj) (sys_mmap (sizeof_SharedMemoryHeader a) w) = (default_Session, w)"
  using header_bytes_nonzero [of a]
  by (intro Reset_fresh) (simp_all add: default_Session_def CurrentMappedSize_def)

lemma Map_Ok:
  assumes "abi_ok a" "map_status a env (ss_objs w (ss_fdobj w fd)) = Ok"
  shows "MapAndValidateHeader a env fd default_Session w =
     (Ok, mapped_session a (ss_fdobj w fd), sys_mmap (sizeof_SharedMemoryHeader a) w)"
  using assms
  by (auto simp: MapAndValidateHeader_def map_status_def Let_def default_Session_def split: if_splits)

lemma Map_fail:
  assumes "abi_ok a" "map_status a env (ss_objs w (ss_fdobj w fd)) \<noteq> Ok"
  shows "\<exists>s. MapAndValidateHeader a env fd default_Session w =
     (map_status a env (ss_objs w (ss_fdobj w fd)), s, w) \<and> detached s"
proof -
  have init: "default_Session\<lparr>se_initialMappedSize := n, se_mappedSize := 0, se_region := True, se_header := True,
      se_obj := obj\<rparr> = default_Session\<lparr>se_initialMappedSize := n, se_region := True, se_header := True, se_obj := obj\<rparr>"
    for n obj by (simp add: default_Session_def)
  have "detached (default_Session\<lparr>se_initialMappedSize := n, se_mappedSize := 0, se_region := False\<rparr>)" for n
    by (simp add: detached_def default_Session_def)
  with assms(2) show ?thesis
    by (simp add: MapAndValidateHeader_def map_status_def Let_def init mapped_session_undo [OF assms(1)]
        split: if_split_asm) blast
qed

lemma Remap_Ok:
  assumes "obj = ss_fdobj w fd" "remap_status a env (ss_objs w obj) = Ok"
  shows "RemapWithActualLayout a env fd (mapped_session a obj) (sys_mmap (sizeof_SharedMemoryHeader a) w) =
     (Ok, attached_session a MakeDefaultBootstrapHandles ServerRole obj (ss_objs w obj),
      sys_mmap (ly_totalSize (ComputeLayout a (header_config (shm_header (ss_objs w obj))))) w)"
  using assms
  by (simp add: RemapWithActualLayout_def remap_status_def layout_accepted_def Let_def split: if_split_asm)
    (simp add: sys_mmap_def sys_munmap_def attached_session_def default_Session_def Let_def)

lemma Remap_fail:
  assumes "abi_ok a" "obj = ss_fdobj w fd" "remap_status a env (ss_objs w obj) \<noteq> Ok"
  shows "\<exists>s. RemapWithActualLayout a env fd (mapped_session a obj) (sys_mmap (sizeof_SharedMemoryHeader a) w) =
     (remap_status a env (ss_objs w obj), s, w) \<and> detached s"
proof -
  have "sys_munmap (sizeof_SharedMemoryHeader a) (sys_mmap (sizeof_SharedMemoryHeader a) w) = w"
    by (simp add: sys_munmap_def sys_mmap_def)
  moreover have "detached (mapped_session a obj\<lparr>se_region := False, se_header := False, se_initialMappedSize := 0,
      se_mappedSize := 0\<rparr>)"
    by (simp add: detached_def default_Session_def)
  ultimately show ?thesis
    using assms(2,3)
    by (simp add: RemapWithActualLayout_def remap_status_def layout_accepted_def Let_def
        mapped_session_undo [OF assms(1)] split: if_split_asm) blast
qed

definition given_handles :: "BootstrapHandles option \<Rightarrow> BootstrapHandles" where
  "given_handles handles = (case handles of None \<Rightarrow> MakeDefaultBootstrapHandles | Some h \<Rightarrow> h)"

definition cleared_handles :: "BootstrapHandles option \<Rightarrow> BootstrapHandles option" where
  "cleared_handles handles = map_option (\<lambda>_. MakeDefaultBootstrapHandles) handles"

lemma TakeBootstrapHandles_eq: "TakeBootstrapHandles handles = (given_handles handles, cleared_handles handles)"
  by (simp add: TakeBootstrapHandles_def given_handles_def cleared_handles_def split: option.split)

text \<open>The status up to the point where the session adopts the descriptors.\<close>

definition attach_status :: "abi \<Rightarrow> AttachEnv \<Rightarrow> BootstrapHandles \<Rightarrow> SysState \<Rightarrow> StatusCode" where
  "attach_status a env h w =
     (let shm = ss_objs w (ss_fdobj w (bh_shmFd h))
      in if bh_shmFd h < 0 then InvalidArgument
         else if map_status a env shm \<noteq> Ok then map_status a env shm
         else remap_status a env shm)"

lemma Attach_fail:
  fixes handles env se w
  defines "h \<equiv> given_handles handles" and "w0 \<equiv> reset_state env se w"
  assumes "abi_ok a" "attach_status a env h w0 \<noteq> Ok"
  shows "\<exists>s. Attach a env handles role se w =
      (attach_status a env h w0, cleared_handles handles, s, snd (CloseHandles h w0)) \<and> detached s"
proof -
  have reset: "Reset (ae_resetLock env) se w = (default_Session, w0)"
    unfolding w0_def reset_state_def by (rule Reset_default)
  define shm where "shm = ss_objs w0 (ss_fdobj w0 (bh_shmFd h))"
  consider "bh_shmFd h < 0" | "bh_shmFd h \<ge> 0" "map_status a env shm \<noteq> Ok"
    | "bh_shmFd h \<ge> 0" "map_status a env shm = Ok" "remap_status a env shm \<noteq> Ok"
    using assms(4) by (auto simp: attach_status_def shm_def Let_def split: if_splits)
  then show ?thesis
  proof cases
    case 1
    then show ?thesis
      by (simp add: Attach_def reset TakeBootstrapHandles_eq h_def [symmetric] attach_status_def)
  next
    case 2
    then obtain s where "MapAndValidateHeader a env (bh_shmFd h) default_Session w0 = (map_status a env shm, s, w0)"
      "detached s" using Map_fail [OF assms(3)] shm_def by blast
    with 2 show ?thesis
      by (simp add: Attach_def reset TakeBootstrapHandles_eq h_def [symmetric] attach_status_def shm_def [symmetric])
  next
    case 3
    have "MapAndValidateHeader a env (bh_shmFd h) default_Session w0 =
       (Ok, mapped_session a (ss_fdobj w0 (bh_shmFd h)), sys_mmap (sizeof_SharedMemoryHeader a) w0)"
      using 3 by (intro Map_Ok [OF assms(3)]) (simp add: shm_def)
    moreover obtain s where "RemapWithActualLayout a env (bh_shmFd h) (mapped_session a (ss_fdobj w0 (bh_shmFd h)))
       (sys_mmap (sizeof_SharedMemoryHeader a) w0) = (remap_status a env shm, s, w0)" "detached s"
      using Remap_fail [OF assms(3) refl] 3 shm_def by blast
    ultimately show ?thesis
      using 3 by (simp add: Attach_def reset TakeBootstrapHandles_eq h_def [symmetric] attach_status_def shm_def [symmetric])
  qed
qed

lemma Reset_undo:
  "se_region se \<Longrightarrow> CurrentMappedSize se = n \<Longrightarrow> n \<noteq> 0 \<Longrightarrow> \<not> se_ownsClientAttachment se \<Longrightarrow>
     Reset env se (sys_mmap n w) = (default_Session, snd (CloseHandles (se_handles se) w))"
  by (simp add: Reset_def Let_def ReleaseClientAttachment_def sys_munmap_def sys_mmap_def CloseHandles_log)

lemma layout_accepted_total: "abi_ok a \<Longrightarrow> layout_accepted a shm \<Longrightarrow>
    ly_totalSize (ComputeLayout a (header_config (shm_header shm))) \<noteq> 0"
  using header_bytes_nonzero [of a]
  by (auto simp: layout_accepted_def Let_def ValidateLayoutConfig_def word_gt_0 split: if_splits)

lemma Attach_adopt:
  fixes handles env se w a and role :: AttachRole
  defines "h \<equiv> given_handles handles" and "w0 \<equiv> reset_state env se w"
  defines "obj \<equiv> ss_fdobj w0 (bh_shmFd h)"
  defines "shm \<equiv> ss_objs w0 obj"
  defines "se' \<equiv> attached_session a h role obj shm"
    and "w1 \<equiv> sys_mmap (ly_totalSize (ComputeLayout a (header_config (shm_header shm)))) w0"
  assumes "abi_ok a" "attach_status a env h w0 = Ok"
  shows "Attach a env handles role se w =
    (if role = ServerRole then (Ok, cleared_handles handles, se', w1)
     else if LockSharedMutex (ae_lock env) \<noteq> Ok then
       (LockSharedMutex (ae_lock env), cleared_handles handles, default_Session, snd (CloseHandles h w0))
     else if \<not> attachment_free env shm then
       (InvalidArgument, cleared_handles handles, default_Session, snd (CloseHandles h w0))
     else (Ok, cleared_handles handles, se',
           upd_header obj (\<lambda>hd. hd\<lparr>hd_clientAttached := 1, hd_activeClientPid := ae_pid env\<rparr>) w1))"
proof -
  have reset: "Reset (ae_resetLock env) se w = (default_Session, w0)"
    unfolding w0_def reset_state_def by (rule Reset_default)
  have acc: "bh_shmFd h \<ge> 0" "map_status a env shm = Ok" "remap_status a env shm = Ok"
    using assms(8) by (auto simp: attach_status_def Let_def obj_def shm_def split: if_splits)
  define total where "total = ly_totalSize (ComputeLayout a (header_config (shm_header shm)))"
  have tot: "total \<noteq> 0"
    unfolding total_def using acc(3) by (intro layout_accepted_total assms(7)) (auto simp: remap_status_def split: if_splits)
  have map: "MapAndValidateHeader a env (bh_shmFd h) default_Session w0 =
     (Ok, mapped_session a obj, sys_mmap (sizeof_SharedMemoryHeader a) w0)"
    unfolding obj_def using acc(2) by (intro Map_Ok assms(7)) (simp add: obj_def shm_def)
  have remap: "RemapWithActualLayout a env (bh_shmFd h) (mapped_session a obj)
     (sys_mmap (sizeof_SharedMemoryHeader a) w0) =
     (Ok, attached_session a MakeDefaultBootstrapHandles ServerRole obj shm, sys_mmap total w0)"
    unfolding total_def shm_def using acc(3) by (intro Remap_Ok) (simp_all add: obj_def shm_def)
  define S where "S = attached_session a MakeDefaultBootstrapHandles ServerRole obj shm\<lparr>se_handles := h,
     se_attachRole := role, se_ownsClientAttachment := False\<rparr>"
  have S: "se_obj S = obj" "S\<lparr>se_ownsClientAttachment := role = ClientRole\<rparr> = se'"
    "Reset e S (sys_mmap total w0) = (default_Session, snd (CloseHandles h w0))" for e
    using Reset_undo [of S total e w0] tot
    by (simp_all add: S_def attached_session_def se'_def Let_def CurrentMappedSize_def total_def)
  have run: "Attach a env handles role se w =
      (if role = ClientRole then
         (case TryAcquireClientAttachment env S (sys_mmap total w0) of (status, s, w) \<Rightarrow> (status, cleared_handles handles, s, w))
       else (Ok, cleared_handles handles, S, sys_mmap total w0))"
    using acc(1) by (simp add: Attach_def reset TakeBootstrapHandles_eq h_def [symmetric] map remap S_def split_beta Let_def)
  have server: "role \<noteq> ClientRole \<Longrightarrow> S = se'"
    using S(2) by (simp add: S_def)
  show ?thesis
    unfolding run using S server
    by (cases role) (auto simp: TryAcquireClientAttachment_def attachment_free_def shm_def [symmetric] w1_def
        total_def [symmetric] Let_def)
qed

lemma Reset_frame:
  "ss_closed (snd (Reset env se w)) = ss_closed w @ open_fds (se_handles se)"
  "ss_fdobj (snd (Reset env se w)) = ss_fdobj w"
  by (simp_all add: Reset_def Let_def CloseHandles_log ReleaseClientAttachment_def sys_munmap_def)

lemma LockSharedMutex_values: "LockSharedMutex env \<in> {Ok, PeerDisconnected, EngineInternalError}"
  by (simp add: LockSharedMutex_def split: option.split LockRc.split)

section \<open>The client attachment of an object is exclusive\<close>

text \<open>Several processes, one session each, by process id.  A process attaches as client, resets its
  session, dies (its session vanishes without a release, its id may be used again) or is born.  The
  system calls of an attach may fail in any way, except that \<^verbatim>\<open>kill\<close> tells the living from the dead.\<close>

record ClientSystem =
  cs_sys :: SysState
  cs_sess :: "u32 \<Rightarrow> Session"
  cs_alive :: "u32 \<Rightarrow> bool"

inductive client_step :: "abi \<Rightarrow> ClientSystem \<Rightarrow> ClientSystem \<Rightarrow> bool" for a where
  client_attach:
    "cs_alive s pid \<Longrightarrow> ae_pid env = pid \<Longrightarrow>
     \<forall>p. ae_kill env p = (if cs_alive s p then KillOk else KillEsrch) \<Longrightarrow>
     Attach a env handles ClientRole (cs_sess s pid) (cs_sys s) = (st, handles', se', w') \<Longrightarrow>
     client_step a s (s\<lparr>cs_sys := w', cs_sess := (cs_sess s)(pid := se')\<rparr>)"
| client_reset:
    "cs_alive s pid \<Longrightarrow> Reset env (cs_sess s pid) (cs_sys s) = (se', w') \<Longrightarrow>
     client_step a s (s\<lparr>cs_sys := w', cs_sess := (cs_sess s)(pid := se')\<rparr>)"
| client_die:
    "client_step a s (s\<lparr>cs_alive := (cs_alive s)(pid := False), cs_sess := (cs_sess s)(pid := default_Session)\<rparr>)"
| client_born:
    "pid \<noteq> 0 \<Longrightarrow> \<not> cs_alive s pid \<Longrightarrow> client_step a s (s\<lparr>cs_alive := (cs_alive s)(pid := True)\<rparr>)"

definition owns :: "ClientSystem \<Rightarrow> u32 \<Rightarrow> nat \<Rightarrow> bool" where
  "owns s pid obj \<longleftrightarrow> se_ownsClientAttachment (cs_sess s pid) \<and> se_obj (cs_sess s pid) = obj"

definition no_sessions :: "ClientSystem \<Rightarrow> bool" where
  "no_sessions s \<longleftrightarrow> (\<forall>pid. cs_sess s pid = default_Session) \<and> \<not> cs_alive s 0"

inductive client_reachable :: "abi \<Rightarrow> ClientSystem \<Rightarrow> bool" for a where
  client_init: "no_sessions s \<Longrightarrow> client_reachable a s"
| client_next: "client_reachable a s \<Longrightarrow> client_step a s t \<Longrightarrow> client_reachable a t"

text \<open>An owner is alive, has the object mapped, and is the process the object's header names.\<close>

definition client_inv :: "ClientSystem \<Rightarrow> bool" where
  "client_inv s \<longleftrightarrow> \<not> cs_alive s 0 \<and>
     (\<forall>pid. se_ownsClientAttachment (cs_sess s pid) \<longrightarrow>
        cs_alive s pid \<and> se_header (cs_sess s pid) \<and>
        (let h = shm_header (ss_objs (cs_sys s) (se_obj (cs_sess s pid)))
         in hd_clientAttached h = 1 \<and> hd_activeClientPid h = pid))"

text \<open>A release changes only the object the releasing session owns.\<close>

lemma Reset_objs:
  "ss_objs (snd (Reset env se w)) obj =
     (if se_header se \<and> se_ownsClientAttachment se \<and> LockSharedMutex env = Ok \<and> obj = se_obj se
      then (ss_objs w obj)\<lparr>shm_header := (shm_header (ss_objs w obj))\<lparr>hd_clientAttached := 0, hd_activeClientPid := 0\<rparr>\<rparr>
      else ss_objs w obj)"
  by (simp add: Reset_def Let_def CloseHandles_log ReleaseClientAttachment_def sys_munmap_def)

lemma client_inv_drop:
  assumes "client_inv s" "\<And>q. q \<noteq> pid \<Longrightarrow> se_ownsClientAttachment (cs_sess s q) \<Longrightarrow>
      ss_objs w' (se_obj (cs_sess s q)) = ss_objs (cs_sys s) (se_obj (cs_sess s q))"
    "\<not> se_ownsClientAttachment se'"
  shows "client_inv (s\<lparr>cs_sys := w', cs_sess := (cs_sess s)(pid := se')\<rparr>)"
  using assms by (simp add: client_inv_def Let_def)

lemma owner_objects_differ:
  assumes "client_inv s" "se_ownsClientAttachment (cs_sess s p)" "se_ownsClientAttachment (cs_sess s q)"
    "se_obj (cs_sess s p) = se_obj (cs_sess s q)"
  shows "p = q"
  using assms unfolding client_inv_def Let_def by metis

lemma Reset_keeps_others:
  assumes "client_inv s" "q \<noteq> pid" "se_ownsClientAttachment (cs_sess s q)"
  shows "ss_objs (snd (Reset env (cs_sess s pid) (cs_sys s))) (se_obj (cs_sess s q)) =
    ss_objs (cs_sys s) (se_obj (cs_sess s q))"
  using owner_objects_differ [OF assms(1), of q pid] assms(2,3) by (auto simp: Reset_objs)

lemma client_inv_attach:
  assumes inv: "client_inv s" and abi: "abi_ok a"
    and alive: "cs_alive s pid" "ae_pid env = pid"
      "\<forall>p. ae_kill env p = (if cs_alive s p then KillOk else KillEsrch)"
    and att: "Attach a env handles ClientRole (cs_sess s pid) (cs_sys s) = (st, handles', se', w')"
  shows "client_inv (s\<lparr>cs_sys := w', cs_sess := (cs_sess s)(pid := se')\<rparr>)"
proof -
  let ?w0 = "reset_state env (cs_sess s pid) (cs_sys s)" and ?h = "given_handles handles"
  let ?obj = "ss_fdobj ?w0 (bh_shmFd ?h)"
  have keep: "ss_objs ?w0 (se_obj (cs_sess s q)) = ss_objs (cs_sys s) (se_obj (cs_sess s q))"
    if "q \<noteq> pid" "se_ownsClientAttachment (cs_sess s q)" for q
    unfolding reset_state_def using inv that by (rule Reset_keeps_others)
  have closed: "ss_objs (snd (CloseHandles h w)) = ss_objs w" for h w by (simp add: CloseHandles_log)
  show ?thesis
  proof (cases "attach_status a env ?h ?w0 = Ok")
    case False
    with Attach_fail [OF abi False, of ClientRole] att have "w' = snd (CloseHandles ?h ?w0)" "detached se'" by auto
    then show ?thesis
      using keep closed by (intro client_inv_drop inv) (auto simp: detached_def)
  next
    case True
    note att' = att [unfolded Attach_adopt [OF abi True]]
    show ?thesis
    proof (cases "LockSharedMutex (ae_lock env) = Ok \<and> attachment_free env (ss_objs ?w0 ?obj)")
      case False
      with att' have "w' = snd (CloseHandles ?h ?w0)" "se' = default_Session" by (auto split: if_splits)
      then show ?thesis
        using keep closed by (intro client_inv_drop inv) (auto simp: default_Session_def)
    next
      case free: True
      have other: "se_obj (cs_sess s q) \<noteq> ?obj" if q: "q \<noteq> pid" "se_ownsClientAttachment (cs_sess s q)" for q
      proof
        assume eq: "se_obj (cs_sess s q) = ?obj"
        have "hd_clientAttached (shm_header (ss_objs ?w0 ?obj)) = 1"
          "hd_activeClientPid (shm_header (ss_objs ?w0 ?obj)) = q" "cs_alive s q" "\<not> cs_alive s 0"
          using inv q keep [OF q] eq by (auto simp: client_inv_def Let_def)
        moreover have "ProcessIsAlive (ae_kill env) q"
          using \<open>cs_alive s q\<close> \<open>\<not> cs_alive s 0\<close> alive(3) by (auto simp: ProcessIsAlive_def)
        ultimately show False using free by (simp add: attachment_free_def)
      qed
      from free att' have w': "se' = attached_session a ?h ClientRole ?obj (ss_objs ?w0 ?obj)"
        "\<And>o'. ss_objs w' o' = (if o' = ?obj then (ss_objs ?w0 ?obj)\<lparr>shm_header := (shm_header (ss_objs ?w0 ?obj))
           \<lparr>hd_clientAttached := 1, hd_activeClientPid := pid\<rparr>\<rparr> else ss_objs ?w0 o')"
        using alive(2) by auto
      show ?thesis
        using inv keep other alive(1) unfolding client_inv_def Let_def
        by (simp add: w' attached_session_def Let_def)
    qed
  qed
qed

lemma client_step_inv:
  assumes "client_step a s t" "abi_ok a" "client_inv s"
  shows "client_inv t"
  using assms
proof (induction rule: client_step.induct)
  case (client_attach s pid env handles st handles' se' w')
  then show ?case by (intro client_inv_attach) auto
next
  case (client_reset s pid env se' w')
  then show ?case
    using Reset_keeps_others [of s _ pid env] Reset_default [of env "cs_sess s pid" "cs_sys s"]
    by (intro client_inv_drop) (auto simp: default_Session_def)
next
  case (client_die s pid)
  then show ?case by (auto simp: client_inv_def default_Session_def)
next
  case (client_born pid s)
  then show ?case by (auto simp: client_inv_def)
qed

lemma client_reachable_inv: "client_reachable a s \<Longrightarrow> abi_ok a \<Longrightarrow> client_inv s"
proof (induction rule: client_reachable.induct)
  case (client_init s)
  then show ?case by (simp add: no_sessions_def client_inv_def default_Session_def)
next
  case (client_next s t)
  then show ?case by (blast intro: client_step_inv)
qed

section \<open>Properties\<close>

text \<open>C9: An attach takes over the descriptors it is given, and every one of them has exactly one owner
  afterwards.  Whatever fails, the caller's handles are cleared; on success the session holds them and
  only the session's previous descriptors were closed; on failure all of them were closed, once, and
  the session holds none.\<close>

theorem Attach_fd_ownership:
  assumes "abi_ok a" "Attach a env (Some h) role se w = (st, h', se', w')"
  shows "h' = Some MakeDefaultBootstrapHandles \<and>
    (if st = Ok then se_handles se' = h \<and> ss_closed w' = ss_closed w @ open_fds (se_handles se)
     else open_fds (se_handles se') = [] \<and>
       ss_closed w' = ss_closed w @ open_fds (se_handles se) @ open_fds h)"
proof -
  let ?w0 = "reset_state env se w"
  have given: "given_handles (Some h) = h" "cleared_handles (Some h) = Some MakeDefaultBootstrapHandles"
    by (simp_all add: given_handles_def cleared_handles_def)
  have closed: "ss_closed ?w0 = ss_closed w @ open_fds (se_handles se)"
    by (simp add: reset_state_def Reset_frame)
  show ?thesis
  proof (cases "attach_status a env h ?w0 = Ok")
    case True
    then show ?thesis
      using assms(2) LockSharedMutex_values [of "ae_lock env"] closed
      unfolding Attach_adopt [OF assms(1), of env "Some h", unfolded given, OF True]
      by (auto simp: CloseHandles_log attached_session_def Let_def sys_mmap_def default_Session_def split: if_splits)
  next
    case False
    then show ?thesis
      using assms(2) Attach_fail [OF assms(1), of env "Some h", unfolded given, OF False, of role] closed
      by (auto simp: CloseHandles_log detached_def)
  qed
qed

text \<open>C11: At any time at most one process owns the client attachment of a shared-memory object, whatever
  sequence of attaches, resets, crashes and restarts led there, and the owner is alive.\<close>

theorem client_attachment_exclusive:
  assumes "abi_ok a" "client_reachable a s" "owns s p obj" "owns s q obj"
  shows "p = q \<and> cs_alive s p"
  using client_reachable_inv [OF assms(2,1)] assms(3,4) owner_objects_differ [of s p q]
  by (auto simp: owns_def client_inv_def)

text \<open>The mapping a session holds.\<close>

definition held_maps :: "Session \<Rightarrow> u64 multiset" where
  "held_maps se = (if se_region se \<and> CurrentMappedSize se \<noteq> 0 then {#CurrentMappedSize se#} else {#})"

lemma Reset_maps:
  "mset (ss_maps w) = B + held_maps se \<Longrightarrow> mset (ss_maps (snd (Reset env se w))) = B"
  by (auto simp: Reset_def Let_def CloseHandles_log ReleaseClientAttachment_def sys_munmap_def held_maps_def)

text \<open>Mappings are balanced: relative to what else the process has mapped, an attach leaves exactly
  the mapping that the session will unmap in its next reset, and none on failure.\<close>

lemma Attach_mappings_balanced:
  assumes "abi_ok a" "mset (ss_maps w) = B + held_maps se"
    and "Attach a env handles role se w = (st, h', se', w')"
  shows "mset (ss_maps w') = B + held_maps se' \<and> (st \<noteq> Ok \<longrightarrow> held_maps se' = {#})"
proof -
  let ?w0 = "reset_state env se w" and ?h = "given_handles handles"
  have base: "mset (ss_maps ?w0) = B" unfolding reset_state_def using assms(2) by (rule Reset_maps)
  show ?thesis
  proof (cases "attach_status a env ?h ?w0 = Ok")
    case True
    let ?shm = "ss_objs ?w0 (ss_fdobj ?w0 (bh_shmFd ?h))"
    have "layout_accepted a ?shm"
      using True by (auto simp: attach_status_def remap_status_def Let_def split: if_splits)
    note total = layout_accepted_total [OF assms(1) this]
    have held: "held_maps (attached_session a h r obj ?shm) =
        {#ly_totalSize (ComputeLayout a (header_config (shm_header ?shm)))#}" for h r obj
      using total by (simp add: held_maps_def attached_session_def Let_def CurrentMappedSize_def)
    have none: "held_maps default_Session = {#}" by (simp add: held_maps_def default_Session_def)
    show ?thesis
      using assms(3) LockSharedMutex_values [of "ae_lock env"] base
      unfolding Attach_adopt [OF assms(1) True]
      by (auto simp: CloseHandles_log sys_mmap_def held none split: if_splits)
  next
    case False
    then show ?thesis
      using assms(3) Attach_fail [OF assms(1) False, of role] base
      by (auto simp: CloseHandles_log detached_def held_maps_def)
  qed
qed

text \<open>The entry arrays have the lengths the header announces.\<close>

definition shm_arrays_ok :: "Shm \<Rightarrow> bool" where
  "shm_arrays_ok shm \<longleftrightarrow>
     length (shm_high shm) = unat (hd_highRingSize (shm_header shm)) \<and>
     length (shm_normal shm) = unat (hd_normalRingSize (shm_header shm)) \<and>
     length (shm_response shm) = unat (hd_responseRingSize (shm_header shm))"

lemma ValidateRingCursor_ring_ok:
  "ValidateRingCursor c n \<Longrightarrow> length es = unat n \<Longrightarrow> ring_ok \<lparr>rg_cursor = c, rg_entries = es\<rparr>"
  by (auto simp: ValidateRingCursor_def ring_ok_def word_less_nat_alt split: if_splits)
    (metis gr0I unat_eq_zero)

lemma layout_accepted_rings:
  assumes "layout_accepted a shm" "shm_arrays_ok shm"
  shows "ring_ok (request_ring HighRequest shm)" "ring_ok (request_ring NormalRequest shm)"
    "ring_ok (response_ring shm)"
  using assms
  by (auto simp: layout_accepted_def shm_arrays_ok_def header_config_def Let_def response_ring_def
      intro!: ValidateRingCursor_ring_ok)

lemma layout_accepted_config:
  assumes "layout_accepted a shm"
  defines "c \<equiv> header_config (shm_header shm)"
  shows "0 < lc_maxRequestBytes c" "unat (lc_maxRequestBytes c) \<le> RequestRingEntry_INLINE_PAYLOAD_BYTES"
    "0 < lc_maxResponseBytes c" "unat (lc_maxResponseBytes c) \<le> ResponseRingEntry_INLINE_PAYLOAD_BYTES"
    "ly_totalSize (ComputeLayout a c) \<le> of_int (shm_size shm)"
  using assms
  by (auto simp: layout_accepted_def c_def ValidateLayoutConfig_def HasAlignedPayloadSizes_def Let_def
      not_less word_gt_0 split: if_splits)

text \<open>C12: A session that attached may use its rings: the object carries the right magic and version, the
  three cursors are within their arrays (positive capacity, no more entries than slots), the payload
  limits fit into a ring entry, and the mapping covers the layout and lies within the object.\<close>

theorem Attach_validates:
  assumes "abi_ok a" "Attach a env (Some h) role se w = (Ok, h', se', w')"
    and "shm_arrays_ok (ss_objs w (ss_fdobj w (bh_shmFd h)))"
  shows "let shm = ss_objs w' (se_obj se') in
    se_obj se' = ss_fdobj w (bh_shmFd h) \<and> Valid se' \<and> se_region se' \<and>
    hd_magic (shm_header shm) = SHARED_MEMORY_MAGIC \<and> hd_protocolVersion (shm_header shm) = PROTOCOL_VERSION \<and>
    ring_ok (request_ring HighRequest shm) \<and> ring_ok (request_ring NormalRequest shm) \<and> ring_ok (response_ring shm) \<and>
    0 < se_maxRequestBytes se' \<and> unat (se_maxRequestBytes se') \<le> RequestRingEntry_INLINE_PAYLOAD_BYTES \<and>
    0 < se_maxResponseBytes se' \<and> unat (se_maxResponseBytes se') \<le> ResponseRingEntry_INLINE_PAYLOAD_BYTES \<and>
    se_mappedSize se' = ly_totalSize (se_layout se') \<and> se_mappedSize se' \<le> of_int (shm_size shm)"
proof -
  let ?w0 = "reset_state env se w"
  let ?obj = "ss_fdobj ?w0 (bh_shmFd h)"
  let ?shm = "ss_objs ?w0 ?obj"
  have given: "given_handles (Some h) = h" by (simp add: given_handles_def)
  have st: "attach_status a env h ?w0 = Ok"
    using assms(2) Attach_fail [OF assms(1), of env "Some h" se w role] by (auto simp: given)
  have fd: "ss_fdobj ?w0 = ss_fdobj w" by (simp add: reset_state_def Reset_frame)
  have arr: "shm_arrays_ok ?shm"
    using assms(3) by (auto simp: reset_state_def Reset_frame Reset_objs shm_arrays_ok_def)
  have acc: "layout_accepted a ?shm" "map_status a env ?shm = Ok"
    using st by (auto simp: attach_status_def remap_status_def Let_def split: if_splits)
  define shm' where "shm' = ss_objs w' ?obj"
  have se': "se' = attached_session a h role ?obj ?shm"
    "shm' = ?shm \<or> shm' = ?shm\<lparr>shm_header := (shm_header ?shm)\<lparr>hd_clientAttached := 1, hd_activeClientPid := ae_pid env\<rparr>\<rparr>"
    using assms(2) LockSharedMutex_values [of "ae_lock env"]
    unfolding Attach_adopt [OF assms(1), of env "Some h", unfolded given, OF st]
    by (auto simp: shm'_def sys_mmap_def split: if_splits)
  have same: "request_ring q shm' = request_ring q ?shm" "response_ring shm' = response_ring ?shm"
    "shm_size shm' = shm_size ?shm" "hd_magic (shm_header shm') = hd_magic (shm_header ?shm)"
    "hd_protocolVersion (shm_header shm') = hd_protocolVersion (shm_header ?shm)" for q
    using se'(2) by (cases q; auto simp: response_ring_def)+
  have obj: "se_obj se' = ?obj" by (simp add: se' attached_session_def Let_def)
  show ?thesis
    unfolding obj Let_def shm'_def [symmetric] same
    using layout_accepted_rings [OF acc(1) arr] layout_accepted_config [OF acc(1)] acc(2)
    by (simp add: se'(1) attached_session_def Let_def Valid_def fd map_status_def split: if_split_asm)
qed

section \<open>The rings through a session\<close>

text \<open>An attached session on a live object whose ring is in order and has a power of two slots.\<close>

definition usable :: "Session \<Rightarrow> SysState \<Rightarrow> bool" where
  "usable se w \<longleftrightarrow> se_header se \<and> se_region se \<and> State se w = SessionAlive"

definition request_queue_inv :: "QueueKind \<Rightarrow> Session \<Rightarrow> SysState \<Rightarrow> bool" where
  "request_queue_inv q se w \<longleftrightarrow> usable se w \<and> ring_inv (request_ring q (ss_objs w (se_obj se)))"

definition response_queue_inv :: "Session \<Rightarrow> SysState \<Rightarrow> bool" where
  "response_queue_inv se w \<longleftrightarrow> usable se w \<and> ring_inv (response_ring (ss_objs w (se_obj se)))"

lemma request_ring_put [simp]: "request_ring q (put_request_ring q r shm) = r"
  by (cases q) simp_all

lemma response_ring_put [simp]: "response_ring (put_response_ring r shm) = r"
  by (simp add: response_ring_def put_response_ring_def)

lemma put_ring_state [simp]:
  "hd_sessionState (shm_header (put_request_ring q r shm)) = hd_sessionState (shm_header shm)"
  "hd_sessionState (shm_header (put_response_ring r' shm)) = hd_sessionState (shm_header shm)"
  by (cases q; simp add: put_response_ring_def)+

lemma store_state [simp]:
  "State se (store_request q r se w) = State se w" "State se (store_response r' se w) = State se w"
  by (auto simp: State_def store_request_def store_response_def split: option.split)

lemma PushRequest_usable:
  assumes "usable se w"
  shows "PushRequest id q e se w =
    (let (st, access) = PushRingEntry (Some (request_ring q (ss_objs w (se_obj se)))) e in (st, store_request q access se w))"
  using assms by (simp add: PushRequest_def usable_def ResolveRequestRing_def split_beta Let_def)

lemma PopRequest_usable:
  assumes "usable se w"
  shows "PopRequest q se w =
    (let (e, access) = PopRingEntry (Some (request_ring q (ss_objs w (se_obj se)))) in (e, store_request q access se w))"
  using assms by (simp add: PopRequest_def usable_def ResolveRequestRing_def split_beta Let_def)

lemma PushResponse_usable:
  assumes "usable se w"
  shows "PushResponse id e se w =
    (let (st, access) = PushRingEntry (Some (response_ring (ss_objs w (se_obj se)))) e in (st, store_response access se w))"
  using assms by (simp add: PushResponse_def usable_def ResolveResponseRing_def split_beta Let_def)

lemma PopResponse_usable:
  assumes "usable se w"
  shows "PopResponse se w =
    (let (e, access) = PopRingEntry (Some (response_ring (ss_objs w (se_obj se)))) in (e, store_response access se w))"
  using assms by (simp add: PopResponse_def usable_def ResolveResponseRing_def split_beta Let_def)

lemma ring_result_Some:
  assumes "ring_inv r"
  shows "\<exists>r'. snd (PushRingEntry (Some r) e) = Some r'" "\<exists>r'. snd (PopRingEntry (Some r)) = Some r'"
  by (simp_all add: PushRingEntry_def PopRingEntry_def Let_def)

lemma store_request_ring:
  "request_ring q (ss_objs (store_request q (Some r) se w) (se_obj se)) = r"
  "usable se (store_request q (Some r) se w) = usable se w"
  by (auto simp: usable_def) (simp_all add: store_request_def)

lemma store_response_ring:
  "response_ring (ss_objs (store_response (Some r) se w) (se_obj se)) = r"
  "usable se (store_response (Some r) se w) = usable se w"
  by (auto simp: usable_def) (simp_all add: store_response_def)

interpretation request_queue: bounded_fifo "\<lambda>w e. PushRequest id q e se w" "PopRequest q se"
  "\<lambda>w. ring_contents (request_ring q (ss_objs w (se_obj se)))" "request_queue_inv q se"
  "\<lambda>w. ring_cap (request_ring q (ss_objs w (se_obj se)))"
  for q se
proof
  fix w e assume "request_queue_inv q se w"
  then have use: "usable se w" "ring_inv (request_ring q (ss_objs w (se_obj se)))"
    by (simp_all add: request_queue_inv_def)
  let ?r = "request_ring q (ss_objs w (se_obj se))"
  obtain r' where push: "snd (PushRingEntry (Some ?r) e) = Some r'" using ring_result_Some(1) [OF use(2)] by blast
  obtain r'' where pop: "snd (PopRingEntry (Some ?r)) = Some r''" using ring_result_Some(2) [OF use(2)] by blast
  show "(fst (PushRequest id q e se w), ring_contents (request_ring q (ss_objs (snd (PushRequest id q e se w)) (se_obj se)))) =
      spec_push (ring_cap ?r) (ring_contents ?r) e"
    using access_push_spec(1) [of "Some ?r" e] use push
    by (simp add: PushRequest_usable split_beta store_request_ring)
  show "request_queue_inv q se (snd (PushRequest id q e se w)) \<and>
      ring_cap (request_ring q (ss_objs (snd (PushRequest id q e se w)) (se_obj se))) = ring_cap ?r"
    using access_push_spec(2) [of "Some ?r" e] use push
    by (simp add: PushRequest_usable split_beta store_request_ring request_queue_inv_def)
  show "(fst (PopRequest q se w), ring_contents (request_ring q (ss_objs (snd (PopRequest q se w)) (se_obj se)))) =
      spec_pop (ring_contents ?r)"
    using access_pop_spec(1) [of "Some ?r"] use pop
    by (simp add: PopRequest_usable split_beta store_request_ring)
  show "request_queue_inv q se (snd (PopRequest q se w)) \<and>
      ring_cap (request_ring q (ss_objs (snd (PopRequest q se w)) (se_obj se))) = ring_cap ?r"
    using access_pop_spec(2) [of "Some ?r"] use pop
    by (simp add: PopRequest_usable split_beta store_request_ring request_queue_inv_def)
qed

interpretation response_queue: bounded_fifo "\<lambda>w e. PushResponse id e se w" "PopResponse se"
  "\<lambda>w. ring_contents (response_ring (ss_objs w (se_obj se)))" "response_queue_inv se"
  "\<lambda>w. ring_cap (response_ring (ss_objs w (se_obj se)))"
  for se
proof
  fix w e assume "response_queue_inv se w"
  then have use: "usable se w" "ring_inv (response_ring (ss_objs w (se_obj se)))"
    by (simp_all add: response_queue_inv_def)
  let ?r = "response_ring (ss_objs w (se_obj se))"
  obtain r' where push: "snd (PushRingEntry (Some ?r) e) = Some r'" using ring_result_Some(1) [OF use(2)] by blast
  obtain r'' where pop: "snd (PopRingEntry (Some ?r)) = Some r''" using ring_result_Some(2) [OF use(2)] by blast
  show "(fst (PushResponse id e se w), ring_contents (response_ring (ss_objs (snd (PushResponse id e se w)) (se_obj se)))) =
      spec_push (ring_cap ?r) (ring_contents ?r) e"
    using access_push_spec(1) [of "Some ?r" e] use push
    by (simp add: PushResponse_usable split_beta store_response_ring)
  show "response_queue_inv se (snd (PushResponse id e se w)) \<and>
      ring_cap (response_ring (ss_objs (snd (PushResponse id e se w)) (se_obj se))) = ring_cap ?r"
    using access_push_spec(2) [of "Some ?r" e] use push
    by (simp add: PushResponse_usable split_beta store_response_ring response_queue_inv_def)
  show "(fst (PopResponse se w), ring_contents (response_ring (ss_objs (snd (PopResponse se w)) (se_obj se)))) =
      spec_pop (ring_contents ?r)"
    using access_pop_spec(1) [of "Some ?r"] use pop
    by (simp add: PopResponse_usable split_beta store_response_ring)
  show "response_queue_inv se (snd (PopResponse se w)) \<and>
      ring_cap (response_ring (ss_objs (snd (PopResponse se w)) (se_obj se))) = ring_cap ?r"
    using access_pop_spec(2) [of "Some ?r"] use pop
    by (simp add: PopResponse_usable split_beta store_response_ring response_queue_inv_def)
qed


text \<open>The same for the response queue: \<^verbatim>\<open>PushResponse\<close> and \<^verbatim>\<open>PopResponse\<close>.\<close>

lemma session_responses_fifo:
  assumes "response_queue_inv se w"
  shows "run_queue (\<lambda>w e. PushResponse id e se w) (PopResponse se) w ops =
    run_queue (spec_push (ring_cap (response_ring (ss_objs w (se_obj se))))) spec_pop
      (ring_contents (response_ring (ss_objs w (se_obj se)))) ops"
  using assms by (rule response_queue.run_refines)

text \<open>A broken session carries no traffic: once its state is not alive, pushes are refused with
  \<open>PeerDisconnected\<close>, pops find nothing, and shared memory is left as it is.  And whatever the peer does
  between the push and the second look at the state, a push reports success only if the session was still
  alive at that look.\<close>

lemma broken_session_refuses:
  "(State se w \<noteq> SessionAlive \<longrightarrow>
      PushRequest interf q e se w = (PeerDisconnected, w) \<and> PopRequest q se w = (None, w) \<and>
      PushResponse interf r se w = (PeerDisconnected, w) \<and> PopResponse se w = (None, w)) \<and>
   (PushRequest interf q e se w = (Ok, w') \<longrightarrow> State se w' = SessionAlive) \<and>
   (PushResponse interf r se w = (Ok, w') \<longrightarrow> State se w' = SessionAlive)"
  by (auto simp: PushRequest_def PopRequest_def PushResponse_def PopResponse_def Let_def
      split: prod.splits if_splits)

section \<open>Pending file payloads of a dead session\<close>

lemma Remove_None:
  "map_of (fs_files fs) p = None \<Longrightarrow> map_of (fs_files (snd (RemoveFilePayloadFromTransport dir data sz kind fs))) p = None"
  by (auto simp: RemoveFilePayloadFromTransport_def RemoveFilePayload_def UnlinkFilePayload_def split_beta
      unlink_None split: option.splits)

lemma Remove_deny [simp]:
  "fs_deny (snd (RemoveFilePayloadFromTransport dir data sz kind fs)) = fs_deny fs"
  by (auto simp: RemoveFilePayloadFromTransport_def RemoveFilePayload_def UnlinkFilePayload_def split_beta
      split: option.splits)

lemma Remove_outside:
  "\<not> IsPathInsideFilePayloadRoot dir p \<Longrightarrow>
     map_of (fs_files (snd (RemoveFilePayloadFromTransport dir data sz kind fs))) p = map_of (fs_files fs) p"
  by (auto simp: RemoveFilePayloadFromTransport_def RemoveFilePayload_def UnlinkFilePayload_other
      split: option.splits)

text \<open>The file an entry refers to, if it is one the code may remove.\<close>

definition pending_file :: "string \<Rightarrow> bytes \<times> u32 \<times> u8 \<Rightarrow> string option" where
  "pending_file dir e =
     (case e of (payload, sz, kind) \<Rightarrow>
        if kind \<noteq> PAYLOAD_KIND_FILE_REF then None
        else case DecodeFilePayloadEnvelope (Some payload) (unat sz) of
               None \<Rightarrow> None
             | Some ref \<Rightarrow>
                 if unat (fp_size ref) \<le> MAX_FILE_PAYLOAD_BYTES \<and> IsPathInsideFilePayloadRoot dir (fp_path ref)
                 then Some (fp_path ref) else None)"

lemma DecodeEnvelope_path: "DecodeFilePayloadEnvelope data sz = Some ref \<Longrightarrow> fp_path ref \<noteq> []"
  by (auto simp: DecodeFilePayloadEnvelope_def then_read_def split: option.splits if_splits)

lemma Remove_pending:
  assumes "pending_file dir (payload, sz, kind) = Some p" "\<forall>q. fs_deny fs SysUnlink q = None"
  shows "map_of (fs_files (snd (RemoveFilePayloadFromTransport dir (Some payload) (unat sz) kind fs))) p = None"
proof -
  from assms(1) obtain ref where ref: "DecodeFilePayloadEnvelope (Some payload) (unat sz) = Some ref"
    "kind = PAYLOAD_KIND_FILE_REF" "p = fp_path ref" "unat (fp_size ref) \<le> MAX_FILE_PAYLOAD_BYTES"
    "IsPathInsideFilePayloadRoot dir (fp_path ref)"
    by (auto simp: pending_file_def split: option.splits if_splits)
  with DecodeEnvelope_path [OF ref(1)] assms(2) show ?thesis
    by (auto simp: RemoveFilePayloadFromTransport_def RemoveFilePayload_def UnlinkFilePayload_def
        PAYLOAD_KIND_FILE_REF_def PAYLOAD_KIND_INLINE_def sys_unlink_def fail_with_def split_beta)
qed

text \<open>The loop body, over the entries of the ring in order.\<close>

abbreviation discard :: "string \<Rightarrow> Fs \<Rightarrow> bytes \<times> u32 \<times> u8 \<Rightarrow> Fs" where
  "discard dir fs e \<equiv>
     snd (RemoveFilePayloadFromTransport dir (Some (fst e)) (unat (fst (snd e))) (snd (snd e)) fs)"

lemma foldl_discard:
  shows discard_None: "map_of (fs_files fs) p = None \<Longrightarrow> map_of (fs_files (foldl (discard dir) fs es)) p = None"
    and discard_deny: "fs_deny (foldl (discard dir) fs es) = fs_deny fs"
    and discard_outside: "\<not> IsPathInsideFilePayloadRoot dir p \<Longrightarrow>
      map_of (fs_files (foldl (discard dir) fs es)) p = map_of (fs_files fs) p"
  by (induction es arbitrary: fs) (simp_all add: Remove_None Remove_outside)

lemma discard_removes:
  assumes "e \<in> set es" "pending_file dir e = Some p" "\<forall>q. fs_deny fs SysUnlink q = None"
  shows "map_of (fs_files (foldl (discard dir) fs es)) p = None"
  using assms
proof (induction es arbitrary: fs)
  case (Cons x es)
  show ?case
  proof (cases "e = x")
    case True
    then have "map_of (fs_files (discard dir fs x)) p = None"
      using Cons.prems by (intro Remove_pending) simp_all
    then show ?thesis by (simp add: discard_None)
  qed (use Cons in simp)
qed simp

lemma RemovePending_foldl:
  assumes "ring_ok r"
  shows "RemovePendingFilePayloadsFromRing ref dir (Some r) fs = foldl (discard dir) fs (map ref (ring_contents r))"
proof -
  have cap: "rc_capacity (rg_cursor r) \<noteq> 0" using assms by (auto simp: ring_ok_def)
  have "min (rc_tail (rg_cursor r) - rc_head (rg_cursor r)) (rc_capacity (rg_cursor r)) = RingCount (rg_cursor r)"
    using assms by (simp add: ring_ok_def RingCount_def min_def word_le_nat_alt)
  with cap show ?thesis
    by (simp add: RemovePendingFilePayloadsFromRing_def ring_contents_def ring_slot_def Let_def foldl_map comp_def
        split_beta)
qed

text \<open>The references of everything still in the three rings.\<close>

definition pending_refs :: "Session \<Rightarrow> SysState \<Rightarrow> (bytes \<times> u32 \<times> u8) list" where
  "pending_refs se w =
     (let shm = ss_objs w (se_obj se)
      in map request_ref (ring_contents (request_ring HighRequest shm)) @
         map request_ref (ring_contents (request_ring NormalRequest shm)) @
         map response_ref (ring_contents (response_ring shm)))"

lemma RemovePending_eq:
  assumes "se_header se" "se_region se" "ring_ok (request_ring HighRequest (ss_objs w (se_obj se)))"
    "ring_ok (request_ring NormalRequest (ss_objs w (se_obj se)))" "ring_ok (response_ring (ss_objs w (se_obj se)))"
  shows "RemovePendingFilePayloads dir se w fs = foldl (discard dir) fs (pending_refs se w)"
  using assms
  by (simp add: RemovePendingFilePayloads_def ResolveRequestRing_def ResolveResponseRing_def RemovePending_foldl
      pending_refs_def Let_def del: request_ring.simps)


section \<open>Witnesses\<close>

text \<open>An object as the host creates it with the default ring sizes, and calls that all succeed.\<close>

definition demo_cursor :: RingCursor where
  "demo_cursor = \<lparr>rc_head = 0, rc_tail = 0, rc_capacity = 8, rc_reserved = 0\<rparr>"

definition demo_header :: SharedMemoryHeader where
  "demo_header = \<lparr>hd_magic = SHARED_MEMORY_MAGIC, hd_protocolVersion = PROTOCOL_VERSION, hd_sessionId = 1,
     hd_sessionState = 0, hd_clientAttached = 0, hd_activeClientPid = 0, hd_highRingSize = 8,
     hd_normalRingSize = 8, hd_responseRingSize = 8, hd_maxRequestBytes = 8000, hd_maxResponseBytes = 8000,
     hd_highRing = demo_cursor, hd_normalRing = demo_cursor, hd_responseRing = demo_cursor\<rparr>"

definition demo_shm :: Shm where
  "demo_shm = \<lparr>shm_size = 300000, shm_header = demo_header, shm_high = replicate 8 default_RequestRingEntry,
     shm_normal = replicate 8 default_RequestRingEntry, shm_response = replicate 8 default_ResponseRingEntry\<rparr>"

definition demo_sys :: SysState where
  "demo_sys = \<lparr>ss_objs = \<lambda>_. demo_shm, ss_fdobj = nat, ss_closed = [], ss_maps = []\<rparr>"

definition demo_lock :: LockEnv where
  "demo_lock = \<lparr>le_clock = Some (1, 999999999), le_timedlock = \<lambda>_. LockAcquired\<rparr>"

definition demo_env :: AttachEnv where
  "demo_env = \<lparr>ae_resetLock = demo_lock, ae_fstat1 = True, ae_mmap1 = True, ae_fstat2 = True, ae_mmap2 = True,
     ae_lock = demo_lock, ae_kill = \<lambda>p. if p = 7 then KillOk else KillEsrch, ae_pid = 7\<rparr>"

definition demo_handles :: BootstrapHandles where
  "demo_handles = \<lparr>bh_shmFd = 3, bh_highReqEventFd = 4, bh_normalReqEventFd = 5, bh_respEventFd = 6,
     bh_reqCreditEventFd = 7, bh_respCreditEventFd = 8, bh_protocolVersion = PROTOCOL_VERSION, bh_sessionId = 1\<rparr>"

abbreviation demo_attach where
  "demo_attach \<equiv> Attach lp64_abi demo_env (Some demo_handles) ClientRole default_Session demo_sys"

lemma lp64_ok: "abi_ok lp64_abi"
  by (simp add: abi_ok_def lp64_abi_def)

lemma demo_layout: "ly_totalSize (ComputeLayout lp64_abi (header_config demo_header)) = 196752"
  by code_simp

lemma demo_accepted: "layout_accepted lp64_abi demo_shm"
proof -
  have "ValidateLayoutConfig lp64_abi (header_config demo_header) 300000" by code_simp
  moreover have "ValidateRingCursor demo_cursor 8" by code_simp
  ultimately show ?thesis
    by (simp add: layout_accepted_def demo_shm_def) (simp add: demo_header_def header_config_def)
qed

lemma demo_reset: "reset_state demo_env default_Session demo_sys = demo_sys"
  by (simp add: reset_state_def Reset_def ReleaseClientAttachment_def CloseHandles_log default_Session_def)

lemma demo_status: "attach_status lp64_abi demo_env demo_handles demo_sys = Ok"
proof -
  have "sizeof_SharedMemoryHeader lp64_abi = 136" by code_simp
  then show ?thesis
    using demo_accepted
    by (simp add: attach_status_def map_status_def remap_status_def demo_env_def demo_handles_def demo_sys_def)
      (simp add: demo_shm_def demo_header_def)
qed

lemma demo_attached:
  "demo_attach = (Ok, Some MakeDefaultBootstrapHandles, attached_session lp64_abi demo_handles ClientRole 3 demo_shm,
     upd_header 3 (\<lambda>hd. hd\<lparr>hd_clientAttached := 1, hd_activeClientPid := 7\<rparr>)
       (sys_mmap (ly_totalSize (ComputeLayout lp64_abi (header_config demo_header))) demo_sys))"
proof -
  have "LockSharedMutex (ae_lock demo_env) = Ok"
    by (simp add: LockSharedMutex_def demo_env_def demo_lock_def)
  moreover have "attachment_free demo_env demo_shm"
    by (simp add: attachment_free_def demo_shm_def demo_header_def)
  moreover have "given_handles (Some demo_handles) = demo_handles"
    "cleared_handles (Some demo_handles) = Some MakeDefaultBootstrapHandles"
    "ss_fdobj demo_sys (bh_shmFd demo_handles) = 3" "ss_objs demo_sys 3 = demo_shm" "shm_header demo_shm = demo_header"
    "ae_pid demo_env = 7"
    by (simp_all add: given_handles_def cleared_handles_def demo_sys_def demo_handles_def demo_shm_def demo_env_def)
  ultimately show ?thesis
    using Attach_adopt [OF lp64_ok, of demo_env "Some demo_handles" default_Session demo_sys ClientRole]
    by (simp add: demo_reset demo_status)
qed

theorem Attach_fd_ownership_witness:
  "abi_ok lp64_abi \<and> fst demo_attach = Ok \<and> se_handles (fst (snd (snd demo_attach))) = demo_handles \<and>
   ss_closed (snd (snd (snd demo_attach))) = []"
proof -
  have "ss_closed demo_sys = []" "open_fds (se_handles default_Session) = []"
    by (simp_all add: demo_sys_def default_Session_def)
  with Attach_fd_ownership [OF lp64_ok demo_attached] show ?thesis
    unfolding demo_attached by (simp add: lp64_ok)
qed

theorem Attach_validates_witness:
  "ring_ok (response_ring (ss_objs (snd (snd (snd demo_attach))) (se_obj (fst (snd (snd demo_attach))))))"
proof -
  have "shm_arrays_ok (ss_objs demo_sys (ss_fdobj demo_sys (bh_shmFd demo_handles)))"
    by (simp add: demo_sys_def shm_arrays_ok_def demo_shm_def demo_header_def)
  from Attach_validates [OF lp64_ok demo_attached this] show ?thesis
    unfolding demo_attached Let_def fst_conv snd_conv by blast
qed

text \<open>A system in which process 7 attaches to object 3.\<close>

definition demo_system :: ClientSystem where
  "demo_system = \<lparr>cs_sys = demo_sys, cs_sess = \<lambda>_. default_Session, cs_alive = \<lambda>p. p = 7\<rparr>"

definition demo_system' :: ClientSystem where
  "demo_system' = demo_system\<lparr>cs_sys := snd (snd (snd demo_attach)),
     cs_sess := (cs_sess demo_system)(7 := fst (snd (snd demo_attach)))\<rparr>"

theorem client_attachment_exclusive_witness:
  "client_reachable lp64_abi demo_system' \<and> owns demo_system' 7 3 \<and> cs_alive demo_system' 7"
proof -
  have "no_sessions demo_system" by (simp add: no_sessions_def demo_system_def)
  moreover have "client_step lp64_abi demo_system demo_system'"
    unfolding demo_system'_def
  proof (rule client_attach)
    show "Attach lp64_abi demo_env (Some demo_handles) ClientRole (cs_sess demo_system 7) (cs_sys demo_system) =
        (Ok, fst (snd demo_attach), fst (snd (snd demo_attach)), snd (snd (snd demo_attach)))"
      by (simp add: demo_system_def demo_attached)
  qed (simp_all add: demo_system_def demo_env_def)
  ultimately have run: "client_reachable lp64_abi demo_system'" by (blast intro: client_init client_next)
  have "owns demo_system' 7 3"
    by (simp add: owns_def demo_system'_def demo_attached attached_session_def Let_def)
  with client_attachment_exclusive [OF lp64_ok run this this] run show ?thesis by simp
qed

lemma demo_ring_inv: "request_ring q demo_shm = fresh_ring 8 default_RequestRingEntry"
  "response_ring demo_shm = fresh_ring 8 default_ResponseRingEntry"
  by (cases q; simp add: demo_shm_def demo_header_def demo_cursor_def fresh_ring_def response_ring_def)+

lemma fresh_ring8_inv: "ring_inv (fresh_ring 8 e)"
  by (simp add: ring_inv_def ring_ok_def cap_wraps_def fresh_ring_def RingCount_def)

abbreviation demo_session :: Session where
  "demo_session \<equiv> attached_session lp64_abi demo_handles ServerRole 3 demo_shm"

lemma demo_usable: "usable demo_session demo_sys"
  by (simp add: usable_def attached_session_def Let_def State_def demo_sys_def)
    (simp add: demo_shm_def demo_header_def SessionAlive_def)



end
