(* ===== verification/Memrpc_Host.thy ===== *)
theory Memrpc_Host
  imports Memrpc_Session
begin

text \<open>
  \<^verbatim>\<open>SharedMemorySessionHost\<close> (\<^verbatim>\<open>shared_memory_session_host.cpp\<close>): creates the shared-memory object and the
  five event descriptors of a session, hands out duplicates, and closes its own set.  The process's
  open descriptors are the multiset of \<open>hs_open\<close>; the scripts \<open>hs_fds\<close> and \<open>hs_calls\<close> give the outcomes of
  the calls that create descriptors and of the others, in the order they are made (a call past the end
  of its script succeeds); \<open>hs_random\<close> are the numbers of the random engine.
\<close>

section \<open>The operating system seen by the host\<close>

datatype FdOutcome = FdOpens | FdExists | FdFails

record HostSys =
  hs_open :: "int list"
  hs_next :: nat
  hs_fds :: "FdOutcome list"
  hs_calls :: "bool list"
  hs_random :: "u64 list"
  hs_fdobj :: "int \<Rightarrow> nat"
  hs_objs :: "nat \<Rightarrow> Shm"
  hs_nextobj :: nat

definition next_fd_outcome :: "HostSys \<Rightarrow> FdOutcome \<times> HostSys" where
  "next_fd_outcome w = (case hs_fds w of [] \<Rightarrow> (FdOpens, w) | x # xs \<Rightarrow> (x, w\<lparr>hs_fds := xs\<rparr>))"

definition next_call :: "HostSys \<Rightarrow> bool \<times> HostSys" where
  "next_call w = (case hs_calls w of [] \<Rightarrow> (True, w) | x # xs \<Rightarrow> (x, w\<lparr>hs_calls := xs\<rparr>))"

definition next_random :: "HostSys \<Rightarrow> u64 \<times> HostSys" where
  "next_random w = (case hs_random w of [] \<Rightarrow> (0, w) | x # xs \<Rightarrow> (x, w\<lparr>hs_random := xs\<rparr>))"

text \<open>A new descriptor for an object, and the close of one.\<close>

definition alloc_fd :: "nat \<Rightarrow> HostSys \<Rightarrow> int \<times> HostSys" where
  "alloc_fd obj w =
     (let fd = int (hs_next w)
      in (fd, w\<lparr>hs_open := fd # hs_open w, hs_next := Suc (hs_next w), hs_fdobj := (hs_fdobj w)(fd := obj)\<rparr>))"

definition sys_eventfd :: "HostSys \<Rightarrow> int \<times> HostSys" where
  "sys_eventfd w = (case next_fd_outcome w of (FdOpens, w1) \<Rightarrow> alloc_fd (hs_nextobj w1) w1 | (_, w1) \<Rightarrow> (- 1, w1))"

definition sys_dup :: "int \<Rightarrow> HostSys \<Rightarrow> int \<times> HostSys" where
  "sys_dup fd w =
     (if fd < 0 then (- 1, w)
      else case next_fd_outcome w of (FdOpens, w1) \<Rightarrow> alloc_fd (hs_fdobj w1 fd) w1 | (_, w1) \<Rightarrow> (- 1, w1))"

definition host_close :: "int \<Rightarrow> HostSys \<Rightarrow> HostSys" where
  "host_close fd w = (if fd \<ge> 0 then w\<lparr>hs_open := remove1 fd (hs_open w)\<rparr> else w)"

section \<open>Host state and helpers\<close>

record SharedMemorySessionConfig =
  smc_highRingSize :: u32
  smc_normalRingSize :: u32
  smc_responseRingSize :: u32
  smc_maxRequestBytes :: u32
  smc_maxResponseBytes :: u32
  smc_shmName :: string

record Host =
  ho_config :: SharedMemorySessionConfig
  ho_handles :: BootstrapHandles
  ho_initialized :: bool

definition MkHost :: "SharedMemorySessionConfig \<Rightarrow> Host" where
  "MkHost config = \<lparr>ho_config = config, ho_handles = MakeDefaultBootstrapHandles, ho_initialized = False\<rparr>"

definition MAX_AUTO_SHM_NAME_ATTEMPTS :: nat where
  "MAX_AUTO_SHM_NAME_ATTEMPTS = 8"

text \<open>The loop over the six descriptor fields: the duplicates so far are closed when one fails.\<close>

fun dup_fields :: "int list \<Rightarrow> int list \<Rightarrow> HostSys \<Rightarrow> int list option \<times> HostSys" where
  "dup_fields [] done w = (Some done, w)"
| "dup_fields (fd # fds) done w =
     (case sys_dup fd w of (new, w1) \<Rightarrow>
      if new < 0 then (None, foldl (\<lambda>w fd. host_close fd w) w1 done)
      else dup_fields fds (done @ [new]) w1)"

definition DuplicateHandles :: "BootstrapHandles \<Rightarrow> HostSys \<Rightarrow> bool \<times> BootstrapHandles \<times> HostSys" where
  "DuplicateHandles source w =
     (case dup_fields (handle_fds source) [] w of
        (Some [a, b, c, d, e, f], w1) \<Rightarrow>
          (True, \<lparr>bh_shmFd = a, bh_highReqEventFd = b, bh_normalReqEventFd = c, bh_respEventFd = d,
             bh_reqCreditEventFd = e, bh_respCreditEventFd = f, bh_protocolVersion = bh_protocolVersion source,
             bh_sessionId = bh_sessionId source\<rparr>, w1)
      | (_, w1) \<Rightarrow> (False, MakeDefaultBootstrapHandles, w1))"

definition ResetHandles :: "Host \<Rightarrow> HostSys \<Rightarrow> Host \<times> HostSys" where
  "ResetHandles h w =
     (h\<lparr>ho_handles := MakeDefaultBootstrapHandles, ho_initialized := False\<rparr>,
      foldl (\<lambda>w fd. host_close fd w) w (handle_fds (ho_handles h)))"

definition HasValidConfig :: "Host \<Rightarrow> bool" where
  "HasValidConfig h =
     (let c = ho_config h
      in smc_maxRequestBytes c \<noteq> 0 \<and> smc_maxResponseBytes c \<noteq> 0 \<and>
         HasAlignedPayloadSizes (smc_maxRequestBytes c) (smc_maxResponseBytes c) \<and>
         smc_maxRequestBytes c \<le> DEFAULT_MAX_REQUEST_BYTES \<and> smc_maxResponseBytes c \<le> DEFAULT_MAX_RESPONSE_BYTES)"

definition host_layout_config :: "Host \<Rightarrow> LayoutConfig" where
  "host_layout_config h =
     (let c = ho_config h
      in \<lparr>lc_highRingSize = smc_highRingSize c, lc_normalRingSize = smc_normalRingSize c,
          lc_responseRingSize = smc_responseRingSize c, lc_maxRequestBytes = smc_maxRequestBytes c,
          lc_maxResponseBytes = smc_maxResponseBytes c\<rparr>)"

definition BuildLayout :: "abi \<Rightarrow> Host \<Rightarrow> Layout" where
  "BuildLayout a h = ComputeLayout a (host_layout_config h)"

text \<open>The header of zeroed memory after \<^verbatim>\<open>PopulateHeader\<close>.\<close>

definition PopulateHeader :: "Host \<Rightarrow> u64 \<Rightarrow> SharedMemoryHeader" where
  "PopulateHeader h sessionId =
     (let c = ho_config h; cursor = (\<lambda>cap. \<lparr>rc_head = 0, rc_tail = 0, rc_capacity = cap, rc_reserved = 0\<rparr>)
      in \<lparr>hd_magic = SHARED_MEMORY_MAGIC, hd_protocolVersion = PROTOCOL_VERSION, hd_sessionId = sessionId,
          hd_sessionState = 0, hd_clientAttached = 0, hd_activeClientPid = 0,
          hd_highRingSize = smc_highRingSize c, hd_normalRingSize = smc_normalRingSize c,
          hd_responseRingSize = smc_responseRingSize c, hd_maxRequestBytes = smc_maxRequestBytes c,
          hd_maxResponseBytes = smc_maxResponseBytes c, hd_highRing = cursor (smc_highRingSize c),
          hd_normalRing = cursor (smc_normalRingSize c), hd_responseRing = cursor (smc_responseRingSize c)\<rparr>)"

text \<open>An object of zeroes behind a new header: zeroed entries are default entries.\<close>

definition fresh_shm :: "abi \<Rightarrow> Host \<Rightarrow> u64 \<Rightarrow> Shm" where
  "fresh_shm a h sessionId =
     (let c = ho_config h
      in \<lparr>shm_size = uint (ly_totalSize (BuildLayout a h)), shm_header = PopulateHeader h sessionId,
          shm_high = replicate (unat (smc_highRingSize c)) default_RequestRingEntry,
          shm_normal = replicate (unat (smc_normalRingSize c)) default_RequestRingEntry,
          shm_response = replicate (unat (smc_responseRingSize c)) default_ResponseRingEntry\<rparr>)"

definition InitializeSharedMemory :: "abi \<Rightarrow> Host \<Rightarrow> int \<Rightarrow> HostSys \<Rightarrow> StatusCode \<times> u64 \<times> HostSys" where
  "InitializeSharedMemory a h shmFd w =
     (case next_call w of (truncated, w1) \<Rightarrow>
      if \<not> truncated then (EngineInternalError, 0, w1)
      else case next_call w1 of (mapped, w2) \<Rightarrow>
      if \<not> mapped then (EngineInternalError, 0, w2)
      else case next_random w2 of (sessionId, w3) \<Rightarrow>
      let w4 = w3\<lparr>hs_objs := (hs_objs w3)(hs_fdobj w3 shmFd := fresh_shm a h sessionId)\<rparr>
      in case next_call w4 of (mutexOk, w5) \<Rightarrow>
         if \<not> mutexOk then (EngineInternalError, sessionId, w5) else (Ok, sessionId, w5))"

definition CreateEventFds :: "Host \<Rightarrow> HostSys \<Rightarrow> bool \<times> Host \<times> HostSys" where
  "CreateEventFds h w =
     (case sys_eventfd w of (a, w) \<Rightarrow> case sys_eventfd w of (b, w) \<Rightarrow> case sys_eventfd w of (c, w) \<Rightarrow>
      case sys_eventfd w of (d, w) \<Rightarrow> case sys_eventfd w of (e, w) \<Rightarrow>
      (a \<ge> 0 \<and> b \<ge> 0 \<and> c \<ge> 0 \<and> d \<ge> 0 \<and> e \<ge> 0,
       h\<lparr>ho_handles := (ho_handles h)\<lparr>bh_highReqEventFd := a, bh_normalReqEventFd := b, bh_respEventFd := c,
           bh_reqCreditEventFd := d, bh_respCreditEventFd := e\<rparr>\<rparr>, w))"

text \<open>The attempts of \<^verbatim>\<open>OpenSharedMemoryFd\<close> that are left; only an automatic name is tried again.\<close>

fun open_attempts :: "nat \<Rightarrow> bool \<Rightarrow> HostSys \<Rightarrow> int \<times> HostSys" where
  "open_attempts 0 useAutoName w = (- 1, w)"
| "open_attempts (Suc n) useAutoName w =
     (case (if useAutoName then snd (next_random (snd (next_random w))) else w) of w0 \<Rightarrow>
      case next_fd_outcome w0 of
        (FdExists, w1) \<Rightarrow> if useAutoName then open_attempts n useAutoName w1 else (- 1, w1)
      | (FdFails, w1) \<Rightarrow> (- 1, w1)
      | (FdOpens, w1) \<Rightarrow>
          (case alloc_fd (hs_nextobj w1) w1 of (shmFd, w2) \<Rightarrow>
           case next_call (w2\<lparr>hs_nextobj := Suc (hs_nextobj w2)\<rparr>) of (unlinked, w3) \<Rightarrow>
           if \<not> unlinked then (- 1, host_close shmFd w3) else (shmFd, w3)))"

definition OpenSharedMemoryFd :: "Host \<Rightarrow> HostSys \<Rightarrow> int \<times> HostSys" where
  "OpenSharedMemoryFd h w = open_attempts MAX_AUTO_SHM_NAME_ATTEMPTS (smc_shmName (ho_config h) = []) w"

definition FinalizeInitializedSession :: "abi \<Rightarrow> int \<Rightarrow> Host \<Rightarrow> HostSys \<Rightarrow> StatusCode \<times> Host \<times> HostSys" where
  "FinalizeInitializedSession a shmFd h w =
     (case InitializeSharedMemory a h shmFd w of (initStatus, sessionId, w1) \<Rightarrow>
      if initStatus \<noteq> Ok then (initStatus, h, host_close shmFd w1)
      else
        let h1 = h\<lparr>ho_handles := (ho_handles h)\<lparr>bh_shmFd := shmFd, bh_protocolVersion := PROTOCOL_VERSION,
               bh_sessionId := sessionId\<rparr>\<rparr>
        in case CreateEventFds h1 w1 of (created, h2, w2) \<Rightarrow>
           if created then (Ok, h2\<lparr>ho_initialized := True\<rparr>, w2)
           else case ResetHandles (h2\<lparr>ho_initialized := False\<rparr>) w2 of (h3, w3) \<Rightarrow> (EngineInternalError, h3, w3))"

definition EnsureInitialized :: "abi \<Rightarrow> Host \<Rightarrow> HostSys \<Rightarrow> StatusCode \<times> Host \<times> HostSys" where
  "EnsureInitialized a h w =
     (if ho_initialized h then (Ok, h, w)
      else if \<not> HasValidConfig h then (InvalidArgument, h, w)
      else case ResetHandles h w of (h1, w1) \<Rightarrow>
      case OpenSharedMemoryFd h1 w1 of (shmFd, w2) \<Rightarrow>
      if shmFd < 0 then (EngineInternalError, h1, w2) else FinalizeInitializedSession a shmFd h1 w2)"

section \<open>The public operations\<close>

definition EnsureSession :: "abi \<Rightarrow> Host \<Rightarrow> HostSys \<Rightarrow> StatusCode \<times> Host \<times> HostSys" where
  "EnsureSession a h w = EnsureInitialized a h w"

text \<open>The caller's handles are assigned only when the session could be initialised.\<close>

definition HostOpenSession ::
  "abi \<Rightarrow> BootstrapHandles \<Rightarrow> Host \<Rightarrow> HostSys \<Rightarrow> StatusCode \<times> BootstrapHandles \<times> Host \<times> HostSys" where
  "HostOpenSession a handles h w =
     (case EnsureInitialized a h w of (initStatus, h1, w1) \<Rightarrow>
      if initStatus \<noteq> Ok then (initStatus, handles, h1, w1)
      else case DuplicateHandles (ho_handles h1) w1 of (ok, handles, w2) \<Rightarrow>
      if \<not> ok then (EngineInternalError, handles, h1, w2) else (Ok, handles, h1, w2))"

definition HostCloseSession :: "Host \<Rightarrow> HostSys \<Rightarrow> StatusCode \<times> Host \<times> HostSys" where
  "HostCloseSession h w = (case ResetHandles h w of (h1, w1) \<Rightarrow> (Ok, h1, w1))"

definition serverHandles :: "Host \<Rightarrow> HostSys \<Rightarrow> BootstrapHandles \<times> HostSys" where
  "serverHandles h w =
     (if \<not> ho_initialized h then (MakeDefaultBootstrapHandles, w)
      else case DuplicateHandles (ho_handles h) w of (ok, handles, w1) \<Rightarrow> (handles, w1))"

definition sessionId :: "Host \<Rightarrow> u64" where
  "sessionId h = bh_sessionId (ho_handles h)"

section \<open>Descriptor accounting\<close>

definition fdm :: "BootstrapHandles \<Rightarrow> int multiset" where
  "fdm h = mset (open_fds h)"

abbreviation opened :: "HostSys \<Rightarrow> int multiset" where
  "opened w \<equiv> mset (hs_open w)"

definition one_fd :: "int \<Rightarrow> int multiset" where
  "one_fd fd = (if fd \<ge> 0 then {#fd#} else {#})"

lemma one_fd_nonneg [simp]: "0 \<le> fd \<Longrightarrow> one_fd fd = {#fd#}" "fd < 0 \<Longrightarrow> one_fd fd = {#}"
  by (simp_all add: one_fd_def)

lemma fdm_default [simp]: "fdm MakeDefaultBootstrapHandles = {#}"
  by (simp add: fdm_def)

lemma fdm_sum: "fdm h = one_fd (bh_shmFd h) + one_fd (bh_highReqEventFd h) + one_fd (bh_normalReqEventFd h) +
    one_fd (bh_respEventFd h) + one_fd (bh_reqCreditEventFd h) + one_fd (bh_respCreditEventFd h)"
  by (simp add: fdm_def open_fds_def handle_fds_def one_fd_def)

lemma script_open [simp]:
  "hs_open (snd (next_fd_outcome w)) = hs_open w" "hs_open (snd (next_call w)) = hs_open w"
  "hs_open (snd (next_random w)) = hs_open w"
  by (simp_all add: next_fd_outcome_def next_call_def next_random_def split: list.split)

lemma script_openD:
  "next_fd_outcome w = (x, w') \<Longrightarrow> hs_open w' = hs_open w" "next_call w = (b, w') \<Longrightarrow> hs_open w' = hs_open w"
  "next_random w = (n, w') \<Longrightarrow> hs_open w' = hs_open w"
  using script_open [of w] by simp_all

lemma opened_alloc: "alloc_fd obj w = (fd, w') \<Longrightarrow> opened w' = opened w + one_fd fd \<and> 0 \<le> fd"
  by (auto simp: alloc_fd_def Let_def)

lemma opened_eventfd: "sys_eventfd w = (fd, w') \<Longrightarrow> opened w' = opened w + one_fd fd"
  by (auto simp: sys_eventfd_def dest!: opened_alloc script_openD(1) split: prod.splits FdOutcome.splits)

lemma opened_dup: "sys_dup fd w = (fd', w') \<Longrightarrow> opened w' = opened w + one_fd fd'"
  by (auto simp: sys_dup_def dest!: opened_alloc script_openD(1) split: prod.splits FdOutcome.splits if_splits)

lemma opened_close: "opened (host_close fd w) = opened w - one_fd fd"
  by (simp add: host_close_def one_fd_def)

lemma opened_close_all:
  "opened (foldl (\<lambda>w fd. host_close fd w) w fds) = opened w - mset (filter (\<lambda>fd. 0 \<le> fd) fds)"
  by (induction fds arbitrary: w) (auto simp: opened_close one_fd_def)

lemma dup_fields_opened:
  assumes "opened w = B + mset ds" "\<forall>d \<in> set ds. 0 \<le> d" "dup_fields fds ds w = (res, w')"
  shows "case res of
      None \<Rightarrow> opened w' = B
    | Some l \<Rightarrow> opened w' = B + mset l \<and> (\<forall>d \<in> set l. 0 \<le> d) \<and> length l = length ds + length fds"
  using assms
proof (induction fds arbitrary: ds w)
  case (Cons fd fds)
  obtain new w1 where dup: "sys_dup fd w = (new, w1)" by (meson surj_pair)
  note op = opened_dup [OF dup]
  have keep: "filter (\<lambda>fd. 0 \<le> fd) ds = ds" using Cons.prems(2) by simp
  show ?case
  proof (cases "new < 0")
    case True
    with Cons.prems(1,3) dup op keep show ?thesis by (auto simp: opened_close_all)
  next
    case False
    with Cons.prems dup op have "dup_fields fds (ds @ [new]) w1 = (res, w')"
      "opened w1 = B + mset (ds @ [new])" "\<forall>d \<in> set (ds @ [new]). 0 \<le> d" by auto
    with Cons.IH show ?thesis by (fastforce split: option.splits)
  qed
qed auto

lemma length_six: "length l = 6 \<Longrightarrow> \<exists>a b c d e f. l = [a, b, c, d, e, f]"
  by (simp add: numeral_eq_Suc length_Suc_conv) blast

lemma DuplicateHandles_opened:
  assumes "DuplicateHandles h w = (ok, h', w')"
  shows "opened w' = opened w + fdm h'" "ok \<Longrightarrow> \<forall>fd \<in> set (handle_fds h'). 0 \<le> fd" "\<not> ok \<Longrightarrow> h' = MakeDefaultBootstrapHandles"
proof -
  obtain res w1 where dup: "dup_fields (handle_fds h) [] w = (res, w1)" by (meson surj_pair)
  note acc = dup_fields_opened [of w "opened w" "[]", OF _ _ dup]
  have "opened w' = opened w + fdm h' \<and> (ok \<longrightarrow> (\<forall>fd \<in> set (handle_fds h'). 0 \<le> fd)) \<and>
      (\<not> ok \<longrightarrow> h' = MakeDefaultBootstrapHandles)"
  proof (cases res)
    case None
    with assms acc show ?thesis by (simp add: DuplicateHandles_def dup)
  next
    case (Some l)
    with acc have l: "opened w1 = opened w + mset l" "\<forall>d \<in> set l. 0 \<le> d" "length l = 6"
      by (simp_all add: handle_fds_def)
    then obtain a b c d e f where "l = [a, b, c, d, e, f]" using length_six by blast
    note l' = this
    have eq: "ok" "w' = w1" "handle_fds h' = l"
      using assms unfolding DuplicateHandles_def dup Some l' by (auto simp: handle_fds_def)
    have "filter (\<lambda>fd. 0 \<le> fd) l = l" using l(2) by simp
    then show ?thesis unfolding fdm_def open_fds_def eq using l(1,2) eq(1) by simp
  qed
  then show "opened w' = opened w + fdm h'" "ok \<Longrightarrow> \<forall>fd \<in> set (handle_fds h'). 0 \<le> fd"
    "\<not> ok \<Longrightarrow> h' = MakeDefaultBootstrapHandles" by blast+
qed

lemma ResetHandles_opened:
  "ResetHandles h w = (h', w') \<Longrightarrow> opened w = B + fdm (ho_handles h) \<Longrightarrow> opened w' = B"
  by (auto simp: ResetHandles_def opened_close_all fdm_def open_fds_def)

lemma open_attempts_opened:
  "open_attempts n auto w = (fd, w') \<Longrightarrow> opened w' = opened w + one_fd fd"
proof (induction n arbitrary: w)
  case (Suc n)
  define w0 where "w0 = (if auto then snd (next_random (snd (next_random w))) else w)"
  have w0: "hs_open w0 = hs_open w" by (simp add: w0_def)
  obtain o1 w1 where out: "next_fd_outcome w0 = (o1, w1)" by (meson surj_pair)
  have w1: "hs_open w1 = hs_open w" using script_open(1) [of w0] out w0 by simp
  show ?case
  proof (cases o1)
    case FdOpens
    obtain f w2 where al: "alloc_fd (hs_nextobj w1) w1 = (f, w2)" by (meson surj_pair)
    obtain b w3 where nc: "next_call (w2\<lparr>hs_nextobj := Suc (hs_nextobj w2)\<rparr>) = (b, w3)" by (meson surj_pair)
    have "hs_open w3 = hs_open w2" using script_open(2) [of "w2\<lparr>hs_nextobj := Suc (hs_nextobj w2)\<rparr>"] nc by simp
    with Suc.prems FdOpens out al nc opened_alloc [OF al] w1 show ?thesis
      by (auto simp: w0_def [symmetric] opened_close split: if_splits)
  next
    case FdExists
    with Suc out w1 show ?thesis by (auto simp: w0_def [symmetric] split: if_splits)
  next
    case FdFails
    with Suc out w1 show ?thesis by (auto simp: w0_def [symmetric])
  qed
qed simp

lemma InitializeSharedMemory_opened:
  "InitializeSharedMemory a h fd w = (st, sid, w') \<Longrightarrow> hs_open w' = hs_open w"
  by (auto simp: InitializeSharedMemory_def Let_def dest!: script_openD split: prod.splits if_splits)

lemma CreateEventFds_opened:
  assumes "CreateEventFds h w = (ok, h', w')" "opened w = B + one_fd (bh_shmFd (ho_handles h))"
  shows "opened w' = B + fdm (ho_handles h')"
    "ok \<Longrightarrow> 0 \<le> bh_shmFd (ho_handles h) \<Longrightarrow> \<forall>fd \<in> set (handle_fds (ho_handles h')). 0 \<le> fd"
proof -
  obtain a w1 where 1: "sys_eventfd w = (a, w1)" by (meson surj_pair)
  obtain b w2 where 2: "sys_eventfd w1 = (b, w2)" by (meson surj_pair)
  obtain c w3 where 3: "sys_eventfd w2 = (c, w3)" by (meson surj_pair)
  obtain d w4 where 4: "sys_eventfd w3 = (d, w4)" by (meson surj_pair)
  obtain e w5 where 5: "sys_eventfd w4 = (e, w5)" by (meson surj_pair)
  note ops = opened_eventfd [OF 1] opened_eventfd [OF 2] opened_eventfd [OF 3] opened_eventfd [OF 4] opened_eventfd [OF 5]
  show "opened w' = B + fdm (ho_handles h')"
    using assms ops by (auto simp: CreateEventFds_def 1 2 3 4 5 fdm_sum add_ac)
  show "ok \<Longrightarrow> 0 \<le> bh_shmFd (ho_handles h) \<Longrightarrow> \<forall>fd \<in> set (handle_fds (ho_handles h')). 0 \<le> fd"
    using assms by (auto simp: CreateEventFds_def 1 2 3 4 5 handle_fds_def)
qed

text \<open>An initialised host holds all six descriptors, another one none.\<close>

definition host_ok :: "Host \<Rightarrow> bool" where
  "host_ok h \<longleftrightarrow> (if ho_initialized h then \<forall>fd \<in> set (handle_fds (ho_handles h)). 0 \<le> fd
     else ho_handles h = MakeDefaultBootstrapHandles)"

lemma FinalizeInitializedSession_opened:
  assumes "FinalizeInitializedSession a fd h w = (st, h', w')" "0 \<le> fd"
    "ho_handles h = MakeDefaultBootstrapHandles" "\<not> ho_initialized h" "opened w = B + {#fd#}"
  shows "opened w' = B + fdm (ho_handles h') \<and> host_ok h'"
proof -
  obtain ist sid w1 where init: "InitializeSharedMemory a h fd w = (ist, sid, w1)" by (metis prod_cases3)
  let ?h1 = "h\<lparr>ho_handles := (ho_handles h)\<lparr>bh_shmFd := fd, bh_protocolVersion := PROTOCOL_VERSION, bh_sessionId := sid\<rparr>\<rparr>"
  obtain ok h2 w2 where ev: "CreateEventFds ?h1 w1 = (ok, h2, w2)" by (metis prod_cases3)
  have w1: "opened w1 = B + one_fd (bh_shmFd (ho_handles ?h1))"
    using InitializeSharedMemory_opened [OF init] assms(2,5) by simp
  note cr = CreateEventFds_opened [OF ev w1]
  show ?thesis
  proof (cases "ist = Ok \<and> ok")
    case True
    with assms(1) init ev cr assms(2) show ?thesis
      by (auto simp: FinalizeInitializedSession_def host_ok_def)
  next
    case False
    with assms init ev w1 cr(1) ResetHandles_opened [of "h2\<lparr>ho_initialized := False\<rparr>" w2 _ _ B] show ?thesis
      by (auto simp: FinalizeInitializedSession_def host_ok_def opened_close ResetHandles_def split: if_splits prod.splits)
  qed
qed

lemma EnsureInitialized_opened:
  assumes "EnsureInitialized a h w = (st, h', w')" "host_ok h" "opened w = B + fdm (ho_handles h)"
  shows "opened w' = B + fdm (ho_handles h') \<and> host_ok h' \<and> (st = Ok \<longrightarrow> ho_initialized h')"
proof (cases "ho_initialized h \<or> \<not> HasValidConfig h")
  case True
  with assms show ?thesis by (auto simp: EnsureInitialized_def split: if_splits)
next
  case False
  obtain h1 w1 where rs: "ResetHandles h w = (h1, w1)" by (meson surj_pair)
  obtain fd w2 where op: "OpenSharedMemoryFd h1 w1 = (fd, w2)" by (meson surj_pair)
  have h1: "ho_handles h1 = MakeDefaultBootstrapHandles" "\<not> ho_initialized h1" "opened w1 = B"
    using rs ResetHandles_opened [OF rs assms(3)] by (auto simp: ResetHandles_def)
  have w2: "opened w2 = B + one_fd fd"
    using op open_attempts_opened h1(3) unfolding OpenSharedMemoryFd_def by fastforce
  show ?thesis
  proof (cases "fd < 0")
    case True
    with assms(1) False rs op h1 w2 show ?thesis by (auto simp: EnsureInitialized_def host_ok_def)
  next
    case fd: False
    with assms(1) False rs op have fin: "FinalizeInitializedSession a fd h1 w2 = (st, h', w')"
      by (simp add: EnsureInitialized_def)
    have "opened w' = B + fdm (ho_handles h') \<and> host_ok h'"
      using FinalizeInitializedSession_opened [OF fin _ h1(1,2)] fd w2 by simp
    moreover have "st = Ok \<longrightarrow> ho_initialized h'"
      using fin by (auto simp: FinalizeInitializedSession_def Let_def split: prod.splits if_splits)
    ultimately show ?thesis by blast
  qed
qed

section \<open>Sequences of host operations\<close>

datatype HostOp = OpEnsureSession | OpOpenSession | OpCloseSession | OpServerHandles

text \<open>The host, the system and the descriptors handed out so far.\<close>

fun host_op :: "abi \<Rightarrow> HostOp \<Rightarrow> Host \<times> HostSys \<times> int list \<Rightarrow> Host \<times> HostSys \<times> int list" where
  "host_op a OpEnsureSession (h, w, out) = (case EnsureSession a h w of (st, h1, w1) \<Rightarrow> (h1, w1, out))"
| "host_op a OpOpenSession (h, w, out) =
     (case HostOpenSession a MakeDefaultBootstrapHandles h w of (st, handles, h1, w1) \<Rightarrow> (h1, w1, out @ open_fds handles))"
| "host_op a OpCloseSession (h, w, out) = (case HostCloseSession h w of (st, h1, w1) \<Rightarrow> (h1, w1, out))"
| "host_op a OpServerHandles (h, w, out) = (case serverHandles h w of (handles, w1) \<Rightarrow> (h, w1, out @ open_fds handles))"

definition host_acc :: "int multiset \<Rightarrow> Host \<times> HostSys \<times> int list \<Rightarrow> bool" where
  "host_acc B s \<longleftrightarrow> (case s of (h, w, out) \<Rightarrow>
     host_ok h \<and> opened w = B + fdm (ho_handles h) + mset out)"

lemma host_op_acc:
  assumes "host_acc B s"
  shows "host_acc B (host_op a opr s)"
proof -
  obtain h w out where s: "s = (h, w, out)" by (metis prod_cases3)
  have ok: "host_ok h" and acc: "opened w = (B + mset out) + fdm (ho_handles h)"
    using assms s by (simp_all add: host_acc_def add_ac)
  show ?thesis
  proof (cases opr)
    case OpEnsureSession
    then show ?thesis
      using EnsureInitialized_opened [OF _ ok acc]
      by (auto simp: s host_acc_def EnsureSession_def add_ac split: prod.splits)
  next
    case OpOpenSession
    obtain st h1 w1 where en: "EnsureInitialized a h w = (st, h1, w1)" by (metis prod_cases3)
    obtain d hs w2 where du: "DuplicateHandles (ho_handles h1) w1 = (d, hs, w2)" by (metis prod_cases3)
    show ?thesis
      using EnsureInitialized_opened [OF en ok acc] DuplicateHandles_opened(1) [OF du] OpOpenSession
      by (auto simp: s host_acc_def HostOpenSession_def en du fdm_def [symmetric] add_ac)
  next
    case OpCloseSession
    then show ?thesis
      using ResetHandles_opened [OF _ acc]
      by (auto simp: s host_acc_def HostCloseSession_def host_ok_def ResetHandles_def split: prod.splits)
  next
    case OpServerHandles
    obtain d hs w2 where du: "DuplicateHandles (ho_handles h) w = (d, hs, w2)" by (metis prod_cases3)
    show ?thesis
      using DuplicateHandles_opened(1) [OF du] OpServerHandles ok acc
      by (auto simp: s host_acc_def serverHandles_def du fdm_def [symmetric] add_ac)
  qed
qed

lemma host_ops_acc: "host_acc B s \<Longrightarrow> host_acc B (fold (host_op a) ops s)"
  by (induction ops arbitrary: s) (simp_all add: host_op_acc)

section \<open>What a new session looks like\<close>

text \<open>Ring sizes that a session accepts.\<close>

definition ring_sizes_ok :: "SharedMemorySessionConfig \<Rightarrow> bool" where
  "ring_sizes_ok c \<longleftrightarrow> (\<forall>n \<in> {smc_highRingSize c, smc_normalRingSize c, smc_responseRingSize c}.
     0 < n \<and> n \<le> MAX_RING_ENTRIES)"

lemma header_config_fresh: "header_config (shm_header (fresh_shm a h sid)) = host_layout_config h"
  by (simp add: fresh_shm_def PopulateHeader_def header_config_def host_layout_config_def Let_def)

lemma fresh_shm_size:
  assumes "abi_ok a"
  shows "(of_int (shm_size (fresh_shm a h sid)) :: u64) = ly_totalSize (ComputeLayout a (host_layout_config h))"
    "uint (sizeof_SharedMemoryHeader a) \<le> shm_size (fresh_shm a h sid)"
    "sizeof_SharedMemoryHeader a \<le> ly_totalSize (ComputeLayout a (host_layout_config h))"
proof -
  let ?l = "ComputeLayout a (host_layout_config h)"
  have "unat (sizeof_SharedMemoryHeader a) \<le> unat (ly_totalSize ?l)"
    using layout_regions(1-4) [OF assms, of "host_layout_config h"] by linarith
  then show le: "sizeof_SharedMemoryHeader a \<le> ly_totalSize ?l" by (simp add: word_le_nat_alt)
  show "uint (sizeof_SharedMemoryHeader a) \<le> shm_size (fresh_shm a h sid)"
    using le by (simp add: fresh_shm_def BuildLayout_def Let_def word_le_def)
  show "(of_int (shm_size (fresh_shm a h sid)) :: u64) = ly_totalSize ?l"
    by (simp add: fresh_shm_def BuildLayout_def Let_def)
qed

lemma ValidateRingCursor_fresh:
  "ValidateRingCursor \<lparr>rc_head = 0, rc_tail = 0, rc_capacity = n, rc_reserved = 0\<rparr> n \<longleftrightarrow> 0 < n \<and> n \<le> MAX_RING_ENTRIES"
  by (auto simp: ValidateRingCursor_def RingCount_def word_gt_0 not_less)

lemma layout_accepted_fresh:
  assumes "abi_ok a" "HasValidConfig h"
  shows "layout_accepted a (fresh_shm a h sid) \<longleftrightarrow> ring_sizes_ok (ho_config h)"
proof -
  note sz = fresh_shm_size(1) [OF assms(1), of h sid] fresh_shm_size(3) [OF assms(1), of h]
  have cursors: "hd_highRing (shm_header (fresh_shm a h sid)) = \<lparr>rc_head = 0, rc_tail = 0, rc_capacity = smc_highRingSize (ho_config h), rc_reserved = 0\<rparr>"
    "hd_normalRing (shm_header (fresh_shm a h sid)) = \<lparr>rc_head = 0, rc_tail = 0, rc_capacity = smc_normalRingSize (ho_config h), rc_reserved = 0\<rparr>"
    "hd_responseRing (shm_header (fresh_shm a h sid)) = \<lparr>rc_head = 0, rc_tail = 0, rc_capacity = smc_responseRingSize (ho_config h), rc_reserved = 0\<rparr>"
    by (simp_all add: fresh_shm_def PopulateHeader_def Let_def)
  have cfg: "lc_highRingSize (host_layout_config h) = smc_highRingSize (ho_config h)"
    "lc_normalRingSize (host_layout_config h) = smc_normalRingSize (ho_config h)"
    "lc_responseRingSize (host_layout_config h) = smc_responseRingSize (ho_config h)"
    "lc_maxRequestBytes (host_layout_config h) = smc_maxRequestBytes (ho_config h)"
    "lc_maxResponseBytes (host_layout_config h) = smc_maxResponseBytes (ho_config h)"
    by (simp_all add: host_layout_config_def Let_def)
  show ?thesis
    using assms(2) sz(2)
    unfolding layout_accepted_def header_config_fresh Let_def cursors cfg ValidateRingCursor_fresh sz(1)
    by (auto simp: ValidateLayoutConfig_def cfg HasValidConfig_def ring_sizes_ok_def Let_def word_gt_0 not_less)
qed

lemma fresh_shm_attachable:
  assumes "abi_ok a" "HasValidConfig h" "ring_sizes_ok (ho_config h)"
    "ae_fstat1 env" "ae_mmap1 env" "ae_fstat2 env" "ae_mmap2 env"
  shows "map_status a env (fresh_shm a h sid) = Ok" "remap_status a env (fresh_shm a h sid) = Ok"
  using assms fresh_shm_size(2) [OF assms(1), of h sid] layout_accepted_fresh [OF assms(1,2), of sid]
  by (simp_all add: map_status_def remap_status_def)
    (simp add: fresh_shm_def PopulateHeader_def Let_def)

text \<open>Steps that create descriptors leave the objects and the older descriptors alone.\<close>

definition grows :: "HostSys \<Rightarrow> HostSys \<Rightarrow> bool" where
  "grows w w' \<longleftrightarrow> hs_objs w' = hs_objs w \<and> hs_next w \<le> hs_next w' \<and>
     (\<forall>fd < int (hs_next w). hs_fdobj w' fd = hs_fdobj w fd)"

lemma grows_refl [simp]: "grows w w"
  by (simp add: grows_def)

lemma grows_trans: "grows w w' \<Longrightarrow> grows w' w'' \<Longrightarrow> grows w w''"
  by (auto simp: grows_def)

lemma grows_steps:
  "next_call w = (b, w') \<Longrightarrow> grows w w'" "next_random w = (n, w') \<Longrightarrow> grows w w'"
  "next_fd_outcome w = (x, w') \<Longrightarrow> grows w w'" "alloc_fd obj w = (fd, w') \<Longrightarrow> grows w w'"
  by (auto simp: next_call_def next_random_def next_fd_outcome_def alloc_fd_def Let_def grows_def split: list.splits)

lemma grows_eventfd: "sys_eventfd w = (fd, w') \<Longrightarrow> grows w w'"
  by (auto simp: sys_eventfd_def dest!: grows_steps(3,4) intro: grows_trans split: prod.splits FdOutcome.splits)

lemma grows_dup: "sys_dup fd w = (fd', w') \<Longrightarrow> grows w w'"
  by (auto simp: sys_dup_def dest!: grows_steps(3,4) intro: grows_trans split: prod.splits FdOutcome.splits if_splits)

lemma dup_object:
  assumes "sys_dup fd w = (fd', w')" "0 \<le> fd'"
  shows "hs_fdobj w' fd' = hs_fdobj w fd" "fd' < int (hs_next w')"
  using assms
  by (auto simp: sys_dup_def alloc_fd_def next_fd_outcome_def Let_def split: FdOutcome.splits list.splits if_splits)

lemma CreateEventFds_grows: "CreateEventFds h w = (ok, h', w') \<Longrightarrow> grows w w' \<and>
    bh_shmFd (ho_handles h') = bh_shmFd (ho_handles h) \<and> bh_sessionId (ho_handles h') = bh_sessionId (ho_handles h) \<and>
    ho_config h' = ho_config h"
  by (auto simp: CreateEventFds_def dest!: grows_eventfd split: prod.splits; meson grows_trans)

lemma dup_fields_grows:
  "dup_fields fds ds w = (Some l, w') \<Longrightarrow> grows w w' \<and> (\<exists>new. l = ds @ new)"
proof (induction fds arbitrary: ds w)
  case (Cons fd fds)
  obtain new w1 where dup: "sys_dup fd w = (new, w1)" by (meson surj_pair)
  with Cons show ?case
    using grows_trans [OF grows_dup [OF dup]] by (fastforce split: if_splits)
qed simp

lemma open_attempts_fd:
  "open_attempts n auto w = (fd, w') \<Longrightarrow> 0 \<le> fd \<Longrightarrow> fd < int (hs_next w')"
proof (induction n arbitrary: w)
  case (Suc n)
  then show ?case
    by (auto simp: Let_def alloc_fd_def next_call_def host_close_def split: prod.splits FdOutcome.splits if_splits list.splits)
qed simp

lemma InitializeSharedMemory_creates:
  assumes "InitializeSharedMemory a h fd w = (Ok, sid, w')"
  shows "hs_objs w' (hs_fdobj w' fd) = fresh_shm a h sid" "hs_next w' = hs_next w"
  using assms
  by (auto simp: InitializeSharedMemory_def next_call_def next_random_def Let_def split: list.splits if_splits)

lemma EnsureInitialized_creates:
  assumes "EnsureInitialized a h w = (Ok, h', w')" "\<not> ho_initialized h"
  shows "hs_objs w' (hs_fdobj w' (bh_shmFd (ho_handles h'))) = fresh_shm a h (sessionId h') \<and>
    bh_shmFd (ho_handles h') < int (hs_next w') \<and> 0 \<le> bh_shmFd (ho_handles h') \<and> HasValidConfig h"
proof -
  obtain h1 w1 where rs: "ResetHandles h w = (h1, w1)" by (meson surj_pair)
  obtain fd w2 where op: "OpenSharedMemoryFd h1 w1 = (fd, w2)" by (meson surj_pair)
  obtain ist sid w3 where init: "InitializeSharedMemory a h1 fd w2 = (ist, sid, w3)" by (metis prod_cases3)
  let ?h = "h1\<lparr>ho_handles := (ho_handles h1)\<lparr>bh_shmFd := fd, bh_protocolVersion := PROTOCOL_VERSION, bh_sessionId := sid\<rparr>\<rparr>"
  obtain ok h2 w4 where ev: "CreateEventFds ?h w3 = (ok, h2, w4)" by (metis prod_cases3)
  have run: "HasValidConfig h" "0 \<le> fd" "ist = Ok" "w' = w4" "ho_handles h' = ho_handles h2"
    using assms by (auto simp: EnsureInitialized_def rs op FinalizeInitializedSession_def init ev split: if_splits prod.splits)
  have fresh: "fresh_shm a h1 sid = fresh_shm a h sid"
    using rs by (auto simp: ResetHandles_def fresh_shm_def BuildLayout_def host_layout_config_def PopulateHeader_def Let_def)
  have "fd < int (hs_next w2)" using op run(2) open_attempts_fd unfolding OpenSharedMemoryFd_def by blast
  with init [unfolded run(3), THEN InitializeSharedMemory_creates(1)] init [unfolded run(3), THEN InitializeSharedMemory_creates(2)]
    CreateEventFds_grows [OF ev] run fresh
  show ?thesis by (auto simp: grows_def sessionId_def)
qed

lemma DuplicateHandles_object:
  assumes "DuplicateHandles h w = (True, h', w')"
  shows "grows w w'" "hs_fdobj w' (bh_shmFd h') = hs_fdobj w (bh_shmFd h)" "bh_shmFd h' < int (hs_next w')" "0 \<le> bh_shmFd h'"
    "bh_sessionId h' = bh_sessionId h"
proof -
  obtain res w1 where df: "dup_fields (handle_fds h) [] w = (res, w1)" by (meson surj_pair)
  from assms obtain l where l: "res = Some l" "w1 = w'" "hd l = bh_shmFd h'" "bh_sessionId h' = bh_sessionId h" "l \<noteq> []"
    by (auto simp: DuplicateHandles_def df split: option.splits list.splits)
  obtain new w2 where du: "sys_dup (bh_shmFd h) w = (new, w2)" by (meson surj_pair)
  from df l(1,2) du have rest: "0 \<le> new" "dup_fields (tl (handle_fds h)) [new] w2 = (Some l, w')"
    by (auto simp: handle_fds_def split: if_splits)
  with dup_fields_grows [OF rest(2)] l(3) have new: "new = bh_shmFd h'" "grows w2 w'" by auto
  show "grows w w'" using grows_trans [OF grows_dup [OF du] new(2)] .
  from dup_object [OF du rest(1)] new rest(1) l(4)
  show "hs_fdobj w' (bh_shmFd h') = hs_fdobj w (bh_shmFd h)" "bh_shmFd h' < int (hs_next w')" "0 \<le> bh_shmFd h'"
    "bh_sessionId h' = bh_sessionId h"
    by (auto simp: grows_def)
qed

lemma HostOpenSession_creates:
  assumes "HostOpenSession a hs0 h w = (Ok, hs, h', w')" "\<not> ho_initialized h"
  shows "hs_objs w' (hs_fdobj w' (bh_shmFd hs)) = fresh_shm a h (sessionId h')" "0 \<le> bh_shmFd hs" "HasValidConfig h"
    "bh_sessionId hs = sessionId h'"
proof -
  obtain st h1 w1 where en: "EnsureInitialized a h w = (st, h1, w1)" by (metis prod_cases3)
  obtain d hs1 w2 where du: "DuplicateHandles (ho_handles h1) w1 = (d, hs1, w2)" by (metis prod_cases3)
  have run: "st = Ok" "d = True" "hs = hs1" "h' = h1" "w' = w2"
    using assms(1) by (auto simp: HostOpenSession_def en du split: if_splits)
  show "hs_objs w' (hs_fdobj w' (bh_shmFd hs)) = fresh_shm a h (sessionId h')" "0 \<le> bh_shmFd hs" "HasValidConfig h"
    "bh_sessionId hs = sessionId h'"
    using EnsureInitialized_creates [OF en [unfolded run(1)] assms(2)] DuplicateHandles_object [OF du [unfolded run(2)]]
    by (auto simp: run grows_def sessionId_def)
qed

lemma default_reset_state:
  "reset_state env default_Session s = s"
  by (simp add: reset_state_def Reset_def ReleaseClientAttachment_def CloseHandles_log default_Session_def)

lemma fresh_shm_rings:
  "ring_contents (request_ring q (fresh_shm a h sid)) = []" "ring_contents (response_ring (fresh_shm a h sid)) = []"
  by (cases q; simp add: fresh_shm_def PopulateHeader_def Let_def ring_contents_def RingCount_def response_ring_def)+

lemma fresh_attach:
  assumes "abi_ok a" "HasValidConfig h" "ring_sizes_ok (ho_config h)" "0 \<le> bh_shmFd hs"
    "ss_objs s (ss_fdobj s (bh_shmFd hs)) = fresh_shm a h sid"
    "ae_fstat1 env" "ae_mmap1 env" "ae_fstat2 env" "ae_mmap2 env" "LockSharedMutex (ae_lock env) = Ok"
  shows "\<exists>s'. Attach a env (Some hs) role default_Session s =
      (Ok, Some MakeDefaultBootstrapHandles, attached_session a hs role (ss_fdobj s (bh_shmFd hs)) (fresh_shm a h sid), s') \<and>
    (\<forall>q. ring_contents (request_ring q (ss_objs s' (ss_fdobj s (bh_shmFd hs)))) = []) \<and>
    ring_contents (response_ring (ss_objs s' (ss_fdobj s (bh_shmFd hs)))) = []"
proof -
  note ok = fresh_shm_attachable [OF assms(1-3,6-9), of sid]
  have st: "attach_status a env hs s = Ok" using assms(4) ok by (simp add: attach_status_def assms(5))
  have free: "attachment_free env (fresh_shm a h sid)"
    by (simp add: attachment_free_def fresh_shm_def PopulateHeader_def Let_def)
  have given: "given_handles (Some hs) = hs" "cleared_handles (Some hs) = Some MakeDefaultBootstrapHandles"
    by (simp_all add: given_handles_def cleared_handles_def)
  have rings: "request_ring q (sh\<lparr>shm_header := (shm_header sh)\<lparr>hd_clientAttached := x, hd_activeClientPid := y\<rparr>\<rparr>) = request_ring q sh"
    "response_ring (sh\<lparr>shm_header := (shm_header sh)\<lparr>hd_clientAttached := x, hd_activeClientPid := y\<rparr>\<rparr>) = response_ring sh"
    for q sh x y by (cases q; simp add: response_ring_def)+
  show ?thesis
    using Attach_adopt [OF assms(1), of env "Some hs" default_Session s role] st free assms(10)
    by (cases role) (auto simp: default_reset_state given assms(5) attached_session_def Let_def rings fresh_shm_rings)
qed

section \<open>Properties\<close>

text \<open>C31: The host leaks no descriptor.  Whatever sequence of operations is run and whichever of the system
  calls fail, the open descriptors are the ones from before, the ones the host holds (all six of a session or
  none) and the ones handed out; after \<^verbatim>\<open>CloseSession\<close> only those handed out remain.\<close>

theorem host_descriptors_balanced:
  assumes "host_ok h" "opened w = B + fdm (ho_handles h)" "fold (host_op a) ops (h, w, []) = (h', w', out)"
  shows "host_ok h' \<and> opened w' = B + fdm (ho_handles h') + mset out \<and>
    opened (snd (snd (HostCloseSession h' w'))) = B + mset out"
proof -
  have "host_acc B (h, w, [])" using assms(1,2) by (simp add: host_acc_def)
  from host_ops_acc [OF this, of a ops] assms(3)
  have acc: "host_ok h'" "opened w' = (B + mset out) + fdm (ho_handles h')" by (simp_all add: host_acc_def add_ac)
  have "opened (snd (ResetHandles h' w')) = B + mset out"
    using ResetHandles_opened [OF prod.collapse [symmetric] acc(2)] by simp
  with acc show ?thesis by (simp add: HostCloseSession_def split_beta add_ac)
qed

text \<open>C22: What the host creates, a session accepts.  When a host whose ring sizes lie between 1 and
  \<open>2 ^ 20\<close> opens its first session, then attaching to the handles succeeds in either role (if the
  system calls do), and the attached session finds its three rings empty.\<close>

theorem host_session_attachable:
  assumes "abi_ok a" "\<not> ho_initialized h" "ring_sizes_ok (ho_config h)"
    and "HostOpenSession a hs0 h w = (Ok, hs, h', w')"
    and "ss_objs s = hs_objs w'" "ss_fdobj s = hs_fdobj w'"
    and "ae_fstat1 env" "ae_mmap1 env" "ae_fstat2 env" "ae_mmap2 env" "LockSharedMutex (ae_lock env) = Ok"
  shows "\<exists>se s'. Attach a env (Some hs) role default_Session s = (Ok, Some MakeDefaultBootstrapHandles, se, s') \<and>
    (\<forall>q. ring_contents (request_ring q (ss_objs s' (se_obj se))) = []) \<and>
    ring_contents (response_ring (ss_objs s' (se_obj se))) = []"
proof -
  note made = HostOpenSession_creates [OF assms(4,2)]
  have "ss_objs s (ss_fdobj s (bh_shmFd hs)) = fresh_shm a h (sessionId h')" using made(1) assms(5,6) by simp
  from fresh_attach [OF assms(1) made(3) assms(3) made(2) this assms(7-11), of role] show ?thesis
    by (auto simp: attached_session_def Let_def)
qed


section \<open>Witnesses\<close>

definition demo_config :: SharedMemorySessionConfig where
  "demo_config = \<lparr>smc_highRingSize = 8, smc_normalRingSize = 8, smc_responseRingSize = 8,
     smc_maxRequestBytes = 8000, smc_maxResponseBytes = 8000, smc_shmName = []\<rparr>"

definition demo_hostsys :: HostSys where
  "demo_hostsys = \<lparr>hs_open = [0, 1, 2], hs_next = 3, hs_fds = [FdExists], hs_calls = [], hs_random = [1, 2, 3, 4, 99],
     hs_fdobj = \<lambda>_. 0, hs_objs = \<lambda>_. demo_shm, hs_nextobj = 1\<rparr>"

definition demo_opened where
  "demo_opened config = HostOpenSession lp64_abi MakeDefaultBootstrapHandles (MkHost config) demo_hostsys"

lemma Suc_attempts: "Suc 7 = 8" "Suc 6 = 7"
  by simp_all

lemmas attempts_eval = open_attempts.simps(2) [of 7, unfolded Suc_attempts]
  open_attempts.simps(2) [of 6, unfolded Suc_attempts]

lemmas host_eval = HostOpenSession_def EnsureInitialized_def MkHost_def demo_config_def HasValidConfig_def
  HasAlignedPayloadSizes_def request_inline_bytes response_inline_bytes DEFAULT_MAX_REQUEST_BYTES_def
  DEFAULT_MAX_RESPONSE_BYTES_def ResetHandles_def OpenSharedMemoryFd_def MAX_AUTO_SHM_NAME_ATTEMPTS_def attempts_eval
  next_fd_outcome_def next_random_def next_call_def alloc_fd_def demo_hostsys_def Let_def host_close_def handle_fds_def
  MakeDefaultBootstrapHandles_def FinalizeInitializedSession_def InitializeSharedMemory_def CreateEventFds_def
  sys_eventfd_def DuplicateHandles_def sys_dup_def

lemma demo_opened_Ok: "fst (demo_opened demo_config) = Ok"
  by (simp add: demo_opened_def host_eval)

lemma demo_host_ok: "host_ok (MkHost config)" "opened demo_hostsys = {#0, 1, 2#} + fdm (ho_handles (MkHost config))"
  "\<not> ho_initialized (MkHost config)"
  by (simp_all add: host_ok_def MkHost_def demo_hostsys_def)

theorem host_descriptors_balanced_witness:
  "let r = fold (host_op lp64_abi) [OpOpenSession, OpServerHandles, OpCloseSession] (MkHost demo_config, demo_hostsys, [])
   in opened (fst (snd r)) = {#0, 1, 2#} + fdm (ho_handles (fst r)) + mset (snd (snd r))"
proof -
  obtain h' w' out where run: "fold (host_op lp64_abi) [OpOpenSession, OpServerHandles, OpCloseSession]
      (MkHost demo_config, demo_hostsys, []) = (h', w', out)" by (metis prod_cases3)
  from host_descriptors_balanced [OF demo_host_ok(1,2) run] show ?thesis unfolding run by (simp add: Let_def)
qed

abbreviation demo_result where
  "demo_result config \<equiv> demo_opened config = (Ok, fst (snd (demo_opened config)), fst (snd (snd (demo_opened config))),
     snd (snd (snd (demo_opened config))))"

definition opened_sys :: "SharedMemorySessionConfig \<Rightarrow> SysState" where
  "opened_sys config = \<lparr>ss_objs = hs_objs (snd (snd (snd (demo_opened config)))),
     ss_fdobj = hs_fdobj (snd (snd (snd (demo_opened config)))), ss_closed = [], ss_maps = []\<rparr>"

theorem host_session_attachable_witness:
  "\<exists>se s'. Attach lp64_abi demo_env (Some (fst (snd (demo_opened demo_config)))) ClientRole default_Session
      (opened_sys demo_config) = (Ok, Some MakeDefaultBootstrapHandles, se, s')"
proof -
  have "demo_result demo_config" using demo_opened_Ok by (simp add: prod_eq_iff)
  note run = this [unfolded demo_opened_def]
  have "ring_sizes_ok (ho_config (MkHost demo_config))"
    by (simp add: ring_sizes_ok_def MkHost_def demo_config_def MAX_RING_ENTRIES_def)
  moreover have "ae_fstat1 demo_env" "ae_mmap1 demo_env" "ae_fstat2 demo_env" "ae_mmap2 demo_env"
    "LockSharedMutex (ae_lock demo_env) = Ok"
    by (simp_all add: demo_env_def demo_lock_def LockSharedMutex_def)
  ultimately show ?thesis
    using host_session_attachable [OF lp64_ok demo_host_ok(3) _ run, of "opened_sys demo_config" demo_env ClientRole]
    by (auto simp: opened_sys_def demo_opened_def)
qed


end
