(* ===== verification/Memrpc_Runtime.thy ===== *)
theory Memrpc_Runtime
  imports Memrpc_Session
begin

text \<open>
  \<^verbatim>\<open>runtime_utils.h\<close>: event descriptors and deadlines.  An event descriptor is the kernel's counter with a
  script of the faults its coming calls meet (\<^verbatim>\<open>EINTR\<close> or an error); a call past the end of the script
  works.  \<open>World\<close> is the state the client and the server share: shared memory, files and event descriptors.
\<close>

section \<open>Event descriptors\<close>

datatype EventFault = EvIntr | EvError

record EventFd =
  ef_counter :: nat
  ef_faults :: "EventFault list"

datatype PollEventFdResult = PollReady | PollTimeout | PollRetry | PollFailed

datatype EventFdReadResult = EvReadConsumed | EvReadRetry | EvReadEmpty | EvReadFailed

datatype EventFdWriteResult = EvWrote | EvWriteRetry | EvWriteFailed

text \<open>A non-blocking read takes the whole counter, or fails with \<^verbatim>\<open>EAGAIN\<close> when it is zero.\<close>

definition ReadEventFdOnce :: "EventFd \<Rightarrow> EventFdReadResult \<times> EventFd" where
  "ReadEventFdOnce ev =
     (case ef_faults ev of
        EvIntr # fs \<Rightarrow> (EvReadRetry, ev\<lparr>ef_faults := fs\<rparr>)
      | EvError # fs \<Rightarrow> (EvReadFailed, ev\<lparr>ef_faults := fs\<rparr>)
      | [] \<Rightarrow> if ef_counter ev > 0 then (EvReadConsumed, ev\<lparr>ef_counter := 0\<rparr>) else (EvReadEmpty, ev))"

function drain_loop :: "bool \<Rightarrow> EventFd \<Rightarrow> bool \<times> EventFd" where
  "drain_loop drained ev =
     (case ReadEventFdOnce ev of
        (EvReadConsumed, ev') \<Rightarrow> drain_loop True ev'
      | (EvReadRetry, ev') \<Rightarrow> drain_loop drained ev'
      | (EvReadEmpty, ev') \<Rightarrow> (drained, ev')
      | (EvReadFailed, ev') \<Rightarrow> (False, ev'))"
  by pat_completeness auto

termination
  by (relation "measure (\<lambda>(d, ev). ef_counter ev + length (ef_faults ev))")
    (auto simp: ReadEventFdOnce_def split: list.splits EventFault.splits if_splits)

declare drain_loop.simps [simp del]

definition DrainEventFd :: "EventFd \<Rightarrow> bool \<times> EventFd" where
  "DrainEventFd ev = drain_loop False ev"

definition WriteEventFdOnce :: "EventFd \<Rightarrow> EventFdWriteResult \<times> EventFd" where
  "WriteEventFdOnce ev =
     (case ef_faults ev of
        EvIntr # fs \<Rightarrow> (EvWriteRetry, ev\<lparr>ef_faults := fs\<rparr>)
      | EvError # fs \<Rightarrow> (EvWriteFailed, ev\<lparr>ef_faults := fs\<rparr>)
      | [] \<Rightarrow> (EvWrote, ev\<lparr>ef_counter := ef_counter ev + 1\<rparr>))"

function signal_loop :: "EventFd \<Rightarrow> bool \<times> EventFd" where
  "signal_loop ev =
     (case WriteEventFdOnce ev of
        (EvWrote, ev') \<Rightarrow> (True, ev')
      | (EvWriteFailed, ev') \<Rightarrow> (False, ev')
      | (EvWriteRetry, ev') \<Rightarrow> signal_loop ev')"
  by pat_completeness auto

termination
  by (relation "measure (\<lambda>ev. length (ef_faults ev))")
    (auto simp: WriteEventFdOnce_def split: list.splits EventFault.splits)

declare signal_loop.simps [simp del]

text \<open>What \<^verbatim>\<open>poll\<close> reports: a count or an error, and for a positive count the events.\<close>

datatype PollCall = PollCallTimeout | PollCallIntr | PollCallError | PollCallEvents bool bool

definition ClassifyPollCallResult :: "PollCall \<Rightarrow> PollEventFdResult" where
  "ClassifyPollCallResult r =
     (case r of PollCallTimeout \<Rightarrow> PollTimeout | PollCallIntr \<Rightarrow> PollRetry | PollCallError \<Rightarrow> PollFailed
      | PollCallEvents failure readable \<Rightarrow> PollReady)"

definition HandlePolledEvent :: "bool \<Rightarrow> bool \<Rightarrow> EventFd \<Rightarrow> PollEventFdResult \<times> EventFd" where
  "HandlePolledEvent failure readable ev =
     (if failure then (PollFailed, ev)
      else if \<not> readable then (PollRetry, ev)
      else case DrainEventFd ev of (drained, ev') \<Rightarrow> (if drained then PollReady else PollRetry, ev'))"

definition PollEventFd :: "PollCall \<Rightarrow> EventFd \<Rightarrow> PollEventFdResult \<times> EventFd" where
  "PollEventFd r ev =
     (if ClassifyPollCallResult r = PollReady then
        (case r of PollCallEvents failure readable \<Rightarrow> HandlePolledEvent failure readable ev | _ \<Rightarrow> (PollReady, ev))
      else (ClassifyPollCallResult r, ev))"

text \<open>Time points are milliseconds of the steady clock; \<open>None\<close> is \<^verbatim>\<open>time_point::max()\<close>.\<close>

definition DeadlineReached :: "nat option \<Rightarrow> nat \<Rightarrow> bool" where
  "DeadlineReached deadline now = (case deadline of None \<Rightarrow> False | Some d \<Rightarrow> now \<ge> d)"

definition RemainingTimeoutMs :: "nat option \<Rightarrow> nat \<Rightarrow> int" where
  "RemainingTimeoutMs deadline now =
     (case deadline of
        None \<Rightarrow> 2 ^ 63 - 1
      | Some d \<Rightarrow> let remaining = int d - int now in if remaining > 0 then remaining else 0)"

section \<open>The shared world\<close>

record World =
  wd_sys :: SysState
  wd_fs :: Fs
  wd_events :: "int \<Rightarrow> EventFd"

definition SignalEventFd :: "int \<Rightarrow> World \<Rightarrow> bool \<times> World" where
  "SignalEventFd fd w =
     (if fd < 0 then (False, w)
      else case signal_loop (wd_events w fd) of (ok, ev) \<Rightarrow> (ok, w\<lparr>wd_events := (wd_events w)(fd := ev)\<rparr>))"

lemma signal_loop_works:
  "EvError \<notin> set (ef_faults ev) \<Longrightarrow> signal_loop ev = (True, \<lparr>ef_counter = ef_counter ev + 1, ef_faults = []\<rparr>)"
proof (induction ev rule: signal_loop.induct)
  case (1 ev)
  show ?case
  proof (cases "ef_faults ev")
    case Nil
    then show ?thesis by (subst signal_loop.simps) (simp add: WriteEventFdOnce_def)
  next
    case (Cons f fs)
    with 1(2) have f: "f = EvIntr" by (cases f) auto
    then have "WriteEventFdOnce ev = (EvWriteRetry, ev\<lparr>ef_faults := fs\<rparr>)"
      using Cons by (simp add: WriteEventFdOnce_def)
    with 1(1) [OF this [symmetric]] 1(2) Cons f show ?thesis by (subst signal_loop.simps) simp
  qed
qed

lemma drain_loop_works:
  "EvError \<notin> set (ef_faults ev) \<Longrightarrow>
     drain_loop d ev = (d \<or> ef_counter ev > 0, \<lparr>ef_counter = 0, ef_faults = []\<rparr>)"
proof (induction d ev rule: drain_loop.induct)
  case (1 d ev)
  show ?case
  proof (cases "ef_faults ev")
    case Nil
    show ?thesis
    proof (cases "ef_counter ev > 0")
      case True
      with Nil have "ReadEventFdOnce ev = (EvReadConsumed, ev\<lparr>ef_counter := 0\<rparr>)"
        by (simp add: ReadEventFdOnce_def)
      with 1(1) [OF this [symmetric]] Nil True show ?thesis by (subst drain_loop.simps) simp
    next
      case False
      with Nil show ?thesis
        by (subst drain_loop.simps) (cases ev; simp add: ReadEventFdOnce_def)
    qed
  next
    case (Cons f fs)
    with 1(3) have f: "f = EvIntr" by (cases f) auto
    then have "ReadEventFdOnce ev = (EvReadRetry, ev\<lparr>ef_faults := fs\<rparr>)"
      using Cons by (simp add: ReadEventFdOnce_def)
    with 1(2) [OF this [symmetric]] 1(3) Cons f show ?thesis by (subst drain_loop.simps) simp
  qed
qed

section \<open>Properties\<close>

text \<open>A signal is a wake-up: after \<^verbatim>\<open>SignalEventFd\<close> on a valid descriptor, a poll that finds it readable
  reports \<open>PollReady\<close> and leaves the counter at zero, however many signals were pending and however often
  the calls were interrupted; without a pending signal it reports \<open>PollRetry\<close>.\<close>

lemma signal_then_poll_ready:
  assumes "0 \<le> fd" "EvError \<notin> set (ef_faults (wd_events w fd))"
  shows "\<exists>w'. SignalEventFd fd w = (True, w') \<and>
    PollEventFd (PollCallEvents False True) (wd_events w' fd) = (PollReady, \<lparr>ef_counter = 0, ef_faults = []\<rparr>) \<and>
    PollEventFd (PollCallEvents False True) (snd (PollEventFd (PollCallEvents False True) (wd_events w' fd))) =
      (PollRetry, \<lparr>ef_counter = 0, ef_faults = []\<rparr>)"
  using assms
  by (simp add: SignalEventFd_def signal_loop_works PollEventFd_def ClassifyPollCallResult_def HandlePolledEvent_def
      DrainEventFd_def drain_loop_works)

definition demo_world :: World where
  "demo_world = \<lparr>wd_sys = demo_sys, wd_fs = demo_fs, wd_events = \<lambda>_. \<lparr>ef_counter = 2, ef_faults = [EvIntr, EvIntr]\<rparr>\<rparr>"

end
