(* ===== verification/Memrpc_Server.thy ===== *)
theory Memrpc_Server
  imports Memrpc_Runtime
begin

text \<open>
  \<^verbatim>\<open>RpcServer\<close> (\<^verbatim>\<open>rpc_server.cpp\<close>): the dispatcher pops requests and submits them to the executor of their
  priority, a worker validates a request, runs its handler and queues the reply, and the response writer
  pushes queued replies and events into the response ring.

  Each function of the source is a function on the server state \<open>Server\<close> and the \<open>World\<close>.  A worker blocks
  between queueing its reply and the writer's completion; \<open>BeginWriteResponse\<close> is the part of
  \<^verbatim>\<open>WriteResponse\<close> up to that point and \<open>AwaitWriteCompletion\<close> the rest.  The threads are interleaved by the
  step relation at the end.
\<close>

section \<open>The thread pool\<close>

text \<open>The tasks are the requests to process.\<close>

record Executor =
  ex_running :: bool
  ex_queue :: "RequestRingEntry list"
  ex_capacity :: nat

definition ThreadPoolExecutor :: "u32 \<Rightarrow> Executor" where
  "ThreadPoolExecutor threadCount = \<lparr>ex_running = True, ex_queue = [], ex_capacity = unat (max 1 threadCount)\<rparr>"

definition TrySubmit :: "RequestRingEntry \<Rightarrow> Executor \<Rightarrow> bool \<times> Executor" where
  "TrySubmit task ex =
     (if \<not> ex_running ex \<or> length (ex_queue ex) \<ge> ex_capacity ex then (False, ex)
      else (True, ex\<lparr>ex_queue := ex_queue ex @ [task]\<rparr>))"

definition HasCapacity :: "Executor \<Rightarrow> bool" where
  "HasCapacity ex = (ex_running ex \<and> length (ex_queue ex) < ex_capacity ex)"

text \<open>The predicate \<^verbatim>\<open>WaitForCapacity\<close> waits for, and one round of \<^verbatim>\<open>WorkerLoop\<close>: the task it takes.\<close>

definition WaitForCapacity :: "Executor \<Rightarrow> bool" where
  "WaitForCapacity ex = (\<not> ex_running ex \<or> length (ex_queue ex) < ex_capacity ex)"

definition WorkerTake :: "Executor \<Rightarrow> RequestRingEntry option \<times> Executor" where
  "WorkerTake ex =
     (case ex_queue ex of [] \<Rightarrow> (None, ex) | t # ts \<Rightarrow> (Some t, ex\<lparr>ex_queue := ts\<rparr>))"

definition StopExecutor :: "Executor \<Rightarrow> Executor" where
  "StopExecutor ex = ex\<lparr>ex_running := False\<rparr>"

section \<open>Server state\<close>

definition RESPONSE_RETRY_BUDGET :: nat where
  "RESPONSE_RETRY_BUDGET = 50"

definition EVENT_RETRY_BUDGET :: nat where
  "EVENT_RETRY_BUDGET = 10"

text \<open>A completion state is known by its number; \<open>sv_completions\<close> holds its status once it is ready.\<close>

record CompletionItem =
  ci_entry :: ResponseRingEntry
  ci_retryBudget :: nat
  ci_breakSessionOnFailure :: bool
  ci_completion :: nat

record ServerOptions =
  so_highWorkerThreads :: u32
  so_normalWorkerThreads :: u32
  so_completionQueueCapacity :: u32
  so_highExecutor :: "Executor option"
  so_normalExecutor :: "Executor option"

record Server =
  sv_handles :: BootstrapHandles
  sv_options :: ServerOptions
  sv_session :: Session
  sv_highExecutor :: "Executor option"
  sv_normalExecutor :: "Executor option"
  sv_completionQueue :: "CompletionItem list"
  sv_completionQueueCapacity :: u32
  sv_pendingCompletionCount :: u32
  sv_responseWriterRunning :: bool
  sv_waitingForCredit :: bool
  sv_running :: bool
  sv_handlers :: "(u16 \<times> RpcHandler) list"
  sv_activeExecutions :: "(u64 \<times> u64) list"
  sv_pendingSubmittedTasks :: u32
  sv_completions :: "nat \<Rightarrow> StatusCode option"
  sv_nextCompletion :: nat

definition IsHighPriority :: "RequestRingEntry \<Rightarrow> bool" where
  "IsHighPriority entry = (rq_priority entry = Priority_u8 PriorityHigh)"

definition MarkExecutionStarted :: "u64 \<Rightarrow> u64 \<Rightarrow> Server \<Rightarrow> Server" where
  "MarkExecutionStarted now requestId sv =
     sv\<lparr>sv_activeExecutions := (requestId, now) # filter (\<lambda>e. fst e \<noteq> requestId) (sv_activeExecutions sv)\<rparr>"

definition MarkExecutionFinished :: "u64 \<Rightarrow> Server \<Rightarrow> Server" where
  "MarkExecutionFinished requestId sv =
     sv\<lparr>sv_activeExecutions := filter (\<lambda>e. fst e \<noteq> requestId) (sv_activeExecutions sv)\<rparr>"

definition TakeSubmittedTaskToken :: "Server \<Rightarrow> Server" where
  "TakeSubmittedTaskToken sv = sv\<lparr>sv_pendingSubmittedTasks := sv_pendingSubmittedTasks sv + 1\<rparr>"

definition ReleaseSubmittedTaskToken :: "Server \<Rightarrow> Server" where
  "ReleaseSubmittedTaskToken sv =
     (if sv_pendingSubmittedTasks sv > 0 then sv\<lparr>sv_pendingSubmittedTasks := sv_pendingSubmittedTasks sv - 1\<rparr> else sv)"

section \<open>Pushing responses\<close>

text \<open>One turn of the loop of \<^verbatim>\<open>WaitForResponseCredit\<close>: whether the writer still runs, the time, and what \<^verbatim>\<open>poll\<close>
  reports.  The list is finite: the deadline ends the loop.\<close>

record CreditTurn =
  ct_running :: bool
  ct_now :: nat
  ct_poll :: PollCall

fun credit_loop :: "int \<Rightarrow> nat option \<Rightarrow> CreditTurn list \<Rightarrow> World \<Rightarrow> PollEventFdResult \<times> World" where
  "credit_loop fd deadline [] w = (PollTimeout, w)"
| "credit_loop fd deadline (t # ts) w =
     (if \<not> ct_running t then (PollFailed, w)
      else if RemainingTimeoutMs deadline (ct_now t) \<le> 0 then (PollTimeout, w)
      else case PollEventFd (ct_poll t) (wd_events w fd) of (r, ev) \<Rightarrow>
        let w1 = w\<lparr>wd_events := (wd_events w)(fd := ev)\<rparr>
        in if r = PollRetry then credit_loop fd deadline ts w1 else (r, w1))"

definition WaitForResponseCredit :: "nat option \<Rightarrow> CreditTurn list \<Rightarrow> Server \<Rightarrow> World \<Rightarrow> PollEventFdResult \<times> World" where
  "WaitForResponseCredit deadline turns sv w =
     (let fd = bh_respCreditEventFd (se_handles (sv_session sv))
      in if fd < 0 then (PollFailed, w) else credit_loop fd deadline turns w)"

text \<open>One turn of the loop of \<^verbatim>\<open>PushResponseWithRetry\<close>: what other threads and the client do during the
  push, the time when the queue was found full, the wait for credit, and what the others do before the next
  turn.  The loop ends at the deadline; a list that ends earlier stands for a clock that has reached it.\<close>

record PushTurn =
  pt_interf :: "SysState \<Rightarrow> SysState"
  pt_now :: nat
  pt_wait :: "CreditTurn list"
  pt_others :: "World \<Rightarrow> World"

fun push_loop ::
  "ResponseRingEntry \<Rightarrow> nat \<Rightarrow> Server \<Rightarrow> PushTurn \<Rightarrow> PushTurn list \<Rightarrow> World \<Rightarrow> StatusCode \<times> World" where
  "push_loop response deadline sv t ts w =
     (case PushResponse (pt_interf t) response (sv_session sv) (wd_sys w) of (status, sys) \<Rightarrow>
      let w1 = w\<lparr>wd_sys := sys\<rparr>
      in if status \<noteq> QueueFull then (status, w1)
         else if DeadlineReached (Some deadline) (pt_now t) then (QueueFull, w1)
         else case WaitForResponseCredit (Some deadline) (pt_wait t) sv w1 of (waitResult, w2) \<Rightarrow>
           if waitResult = PollReady then
             (case ts of [] \<Rightarrow> (QueueFull, w2) | t' # ts' \<Rightarrow> push_loop response deadline sv t' ts' (pt_others t w2))
           else (if waitResult = PollTimeout then QueueFull else PeerDisconnected, w2))"

declare push_loop.simps [simp del]

definition PushResponseWithRetry ::
  "nat \<Rightarrow> PushTurn \<Rightarrow> PushTurn list \<Rightarrow> ResponseRingEntry \<Rightarrow> nat \<Rightarrow> Server \<Rightarrow> World \<Rightarrow> StatusCode \<times> World" where
  "PushResponseWithRetry now t ts response retryBudget sv w = push_loop response (now + retryBudget) sv t ts w"

definition MarkSessionBroken :: "Server \<Rightarrow> World \<Rightarrow> World" where
  "MarkSessionBroken sv w =
     (let se = sv_session sv;
          w1 = w\<lparr>wd_sys := SetState SessionBroken se (wd_sys w)\<rparr>;
          w2 = w1\<lparr>wd_fs := RemovePendingFilePayloads DEFAULT_FILE_PAYLOAD_DIR se (wd_sys w1) (wd_fs w1)\<rparr>
      in if bh_respEventFd (se_handles se) \<ge> 0 then snd (SignalEventFd (bh_respEventFd (se_handles se)) w2) else w2)"

section \<open>Completion queue\<close>

definition CompleteItem :: "nat \<Rightarrow> StatusCode \<Rightarrow> Server \<Rightarrow> Server" where
  "CompleteItem completion status sv = sv\<lparr>sv_completions := (sv_completions sv)(completion := Some status)\<rparr>"

definition RemoveResponseFilePayloadIfPresent :: "ResponseRingEntry \<Rightarrow> World \<Rightarrow> World" where
  "RemoveResponseFilePayloadIfPresent entry w =
     w\<lparr>wd_fs := snd (RemoveFilePayloadFromTransport DEFAULT_FILE_PAYLOAD_DIR (Some (rs_payload entry))
        (unat (rs_resultSize entry)) (rs_payloadKind entry) (wd_fs w))\<rparr>"

definition OnCompletionItemFinished :: "Server \<Rightarrow> Server" where
  "OnCompletionItemFinished sv =
     (if sv_pendingCompletionCount sv > 0 then sv\<lparr>sv_pendingCompletionCount := sv_pendingCompletionCount sv - 1\<rparr> else sv)"

definition EnqueueCompletion :: "CompletionItem \<Rightarrow> Server \<Rightarrow> bool \<times> Server" where
  "EnqueueCompletion item sv =
     (if \<not> sv_responseWriterRunning sv \<or> sv_pendingCompletionCount sv \<ge> sv_completionQueueCapacity sv then (False, sv)
      else (True, sv\<lparr>sv_completionQueue := sv_completionQueue sv @ [item],
             sv_pendingCompletionCount := sv_pendingCompletionCount sv + 1\<rparr>))"

text \<open>\<^verbatim>\<open>WaitAndPopCompletionItem\<close> once its wait is over: an item, or \<open>None\<close> when the writer has to end.\<close>

definition WaitAndPopCompletionItem :: "Server \<Rightarrow> CompletionItem option \<times> Server" where
  "WaitAndPopCompletionItem sv =
     (case sv_completionQueue sv of
        [] \<Rightarrow> (None, sv)
      | item # rest \<Rightarrow> (Some item, sv\<lparr>sv_completionQueue := rest\<rparr>))"

fun fail_items :: "StatusCode \<Rightarrow> CompletionItem list \<Rightarrow> Server \<Rightarrow> World \<Rightarrow> Server \<times> World" where
  "fail_items status [] sv w = (sv, w)"
| "fail_items status (item # items) sv w =
     fail_items status items (CompleteItem (ci_completion item) status sv)
       (RemoveResponseFilePayloadIfPresent (ci_entry item) w)"

definition FailPendingCompletionItems :: "StatusCode \<Rightarrow> Server \<Rightarrow> World \<Rightarrow> Server \<times> World" where
  "FailPendingCompletionItems status sv w =
     fail_items status (sv_completionQueue sv) (sv\<lparr>sv_completionQueue := [], sv_pendingCompletionCount := 0\<rparr>) w"

text \<open>The body of \<^verbatim>\<open>ResponseWriterLoop\<close> for one item: the push, and what follows it.\<close>

definition FinishItem :: "StatusCode \<Rightarrow> CompletionItem \<Rightarrow> Server \<Rightarrow> World \<Rightarrow> Server \<times> World" where
  "FinishItem status item sv w =
     (let w1 = (if status = Ok then snd (SignalEventFd (bh_respEventFd (se_handles (sv_session sv))) w) else w);
          w2 = (if status \<noteq> Ok then RemoveResponseFilePayloadIfPresent (ci_entry item) w1 else w1);
          w3 = (if status \<noteq> Ok \<and> ci_breakSessionOnFailure item then MarkSessionBroken sv w2 else w2)
      in (OnCompletionItemFinished (CompleteItem (ci_completion item) status sv), w3))"

definition WriteItem ::
  "nat \<Rightarrow> PushTurn \<Rightarrow> PushTurn list \<Rightarrow> CompletionItem \<Rightarrow> Server \<Rightarrow> World \<Rightarrow> Server \<times> World" where
  "WriteItem now t ts item sv w =
     (case PushResponseWithRetry now t ts (ci_entry item) (ci_retryBudget item) sv w of (status, w1) \<Rightarrow>
      FinishItem status item sv w1)"

section \<open>Processing a request\<close>

definition ResolveRequestPayload :: "RequestRingEntry \<Rightarrow> Fs \<Rightarrow> bytes option \<times> Fs" where
  "ResolveRequestPayload entry fs =
     ResolveFilePayloadFromTransport DEFAULT_FILE_PAYLOAD_DIR (Some (rq_payload entry))
       (unat (rq_payloadSize entry)) (rq_payloadKind entry) fs"

definition BuildServerCall :: "RequestRingEntry \<Rightarrow> bytes \<Rightarrow> RpcServerCall" where
  "BuildServerCall entry payload =
     \<lparr>sc_opcode = rq_opcode entry, sc_priority = (if IsHighPriority entry then PriorityHigh else PriorityNormal),
      sc_execTimeoutMs = rq_execTimeoutMs entry, sc_payload = payload\<rparr>"

definition InvokeHandler :: "RequestRingEntry \<Rightarrow> Server \<Rightarrow> World \<Rightarrow> RpcReply \<times> World" where
  "InvokeHandler entry sv w =
     (case map_of (sv_handlers sv) (rq_opcode entry) of
        None \<Rightarrow> (default_RpcReply\<lparr>rp_status := InvalidArgument\<rparr>, w)
      | Some handler \<Rightarrow>
          (case ResolveRequestPayload entry (wd_fs w) of (result, fs) \<Rightarrow>
           (case result of
              None \<Rightarrow> (default_RpcReply\<lparr>rp_status := ProtocolMismatch\<rparr>, w\<lparr>wd_fs := fs\<rparr>)
            | Some payload \<Rightarrow> (handler (BuildServerCall entry payload) default_RpcReply, w\<lparr>wd_fs := fs\<rparr>))))"

definition PrepareResponsePayloadForTransport ::
  "bytes \<Rightarrow> Server \<Rightarrow> World \<Rightarrow> StatusCode \<times> bytes \<times> u8 \<times> World" where
  "PrepareResponsePayloadForTransport payload sv w =
     (if \<not> Valid (sv_session sv) then (PeerDisconnected, payload, PAYLOAD_KIND_INLINE, w)
      else
        let maxTransportBytes = min (unat (se_maxResponseBytes (sv_session sv))) ResponseRingEntry_INLINE_PAYLOAD_BYTES
        in case PrepareFilePayloadForTransport DEFAULT_FILE_PAYLOAD_DIR payload maxTransportBytes (wd_fs w) of
             (ok, entryPayload, kind, fs) \<Rightarrow>
               if \<not> ok then (PayloadTooLarge, payload, kind, w\<lparr>wd_fs := fs\<rparr>)
               else (Ok, entryPayload, kind, w\<lparr>wd_fs := fs\<rparr>))"

definition BuildReplyEntry :: "RequestRingEntry \<Rightarrow> RpcReply \<Rightarrow> u8 \<Rightarrow> ResponseRingEntry" where
  "BuildReplyEntry requestEntry reply payloadKind =
     default_ResponseRingEntry\<lparr>rs_requestId := rq_requestId requestEntry, rs_messageKind := ReplyMessage,
       rs_statusCode := StatusCode_u32 (rp_status reply), rs_resultSize := of_nat (length (rp_payload reply)),
       rs_payloadKind := payloadKind,
       rs_payload := copy_into (rs_payload default_ResponseRingEntry) (rp_payload reply)\<rparr>"

definition BuildResponseCompletionItem :: "ResponseRingEntry \<Rightarrow> nat \<Rightarrow> CompletionItem" where
  "BuildResponseCompletionItem entry completion =
     \<lparr>ci_entry = entry, ci_retryBudget = RESPONSE_RETRY_BUDGET, ci_breakSessionOnFailure = True,
      ci_completion = completion\<rparr>"

text \<open>\<^verbatim>\<open>WriteResponse\<close> up to its wait: \<open>Inl\<close> is an early return, \<open>Inr\<close> the completion to wait for.\<close>

definition BeginWriteResponse ::
  "RequestRingEntry \<Rightarrow> RpcReply \<Rightarrow> Server \<Rightarrow> World \<Rightarrow> (StatusCode + nat) \<times> Server \<times> World" where
  "BeginWriteResponse requestEntry reply sv w =
     (case PrepareResponsePayloadForTransport (rp_payload reply) sv w of (prepareStatus, payload, kind, w1) \<Rightarrow>
      if prepareStatus \<noteq> PayloadTooLarge \<and> prepareStatus \<noteq> Ok then (Inl prepareStatus, sv, w1)
      else
        let (reply1, kind1) =
              (if prepareStatus = PayloadTooLarge
               then (reply\<lparr>rp_status := PayloadTooLarge, rp_payload := []\<rparr>, PAYLOAD_KIND_INLINE)
               else (reply\<lparr>rp_payload := payload\<rparr>, kind));
            entry = BuildReplyEntry requestEntry reply1 kind1;
            completion = sv_nextCompletion sv;
            sv1 = sv\<lparr>sv_nextCompletion := Suc completion, sv_completions := (sv_completions sv)(completion := None)\<rparr>
        in case EnqueueCompletion (BuildResponseCompletionItem entry completion) sv1 of (enqueued, sv2) \<Rightarrow>
           if \<not> enqueued then
             (Inl PeerDisconnected, sv2, MarkSessionBroken sv2 (RemoveResponseFilePayloadIfPresent entry w1))
           else (Inr completion, sv2, w1))"

text \<open>The end of the wait: the status, once the completion is ready.\<close>

definition AwaitWriteCompletion :: "nat \<Rightarrow> Server \<Rightarrow> StatusCode option" where
  "AwaitWriteCompletion completion sv = sv_completions sv completion"

definition invalid_transport :: "RequestRingEntry \<Rightarrow> Server \<Rightarrow> StatusCode option" where
  "invalid_transport entry sv =
     (let maxBytes = se_maxRequestBytes (sv_session sv);
          tooLarge = rq_payloadSize entry > maxBytes \<or> unat (rq_payloadSize entry) > RequestRingEntry_INLINE_PAYLOAD_BYTES;
          invalidInlinePayload = (rq_payloadKind entry = PAYLOAD_KIND_INLINE \<and> tooLarge);
          invalidFilePayloadRef = (rq_payloadKind entry = PAYLOAD_KIND_FILE_REF \<and> (rq_payloadSize entry = 0 \<or> tooLarge));
          unknownPayloadKind = (rq_payloadKind entry \<noteq> PAYLOAD_KIND_INLINE \<and> rq_payloadKind entry \<noteq> PAYLOAD_KIND_FILE_REF)
      in if invalidInlinePayload \<or> invalidFilePayloadRef \<or> unknownPayloadKind
         then Some (if unknownPayloadKind then ProtocolMismatch else PayloadTooLarge) else None)"

text \<open>\<^verbatim>\<open>ProcessEntry\<close> up to the wait in \<^verbatim>\<open>WriteResponse\<close>; \<^verbatim>\<open>MarkExecutionFinished\<close> runs when the wait is over.\<close>

definition ProcessEntry ::
  "u64 \<Rightarrow> RequestRingEntry \<Rightarrow> Server \<Rightarrow> World \<Rightarrow> (StatusCode + nat) option \<times> Server \<times> World" where
  "ProcessEntry now entry sv w =
     (if \<not> Valid (sv_session sv) then (None, sv, w)
      else case invalid_transport entry sv of
        Some status \<Rightarrow>
          (case BeginWriteResponse entry (default_RpcReply\<lparr>rp_status := status\<rparr>) sv w of (r, sv1, w1) \<Rightarrow> (Some r, sv1, w1))
      | None \<Rightarrow>
          (case InvokeHandler entry sv w of (reply, w1) \<Rightarrow>
           case BeginWriteResponse entry reply (MarkExecutionStarted now (rq_requestId entry) sv) w1 of (r, sv1, w2) \<Rightarrow>
           (Some r, sv1, w2)))"

text \<open>What the worker does once the reply is written or refused.\<close>

definition FinishTask :: "RequestRingEntry \<Rightarrow> Server \<Rightarrow> Server" where
  "FinishTask entry sv = ReleaseSubmittedTaskToken (MarkExecutionFinished (rq_requestId entry) sv)"

text \<open>\<^verbatim>\<open>PublishEvent\<close> up to its wait, as \<open>BeginWriteResponse\<close>.\<close>

definition BuildEventEntry :: "RpcEvent \<Rightarrow> bytes \<Rightarrow> u8 \<Rightarrow> ResponseRingEntry" where
  "BuildEventEntry event payload payloadKind =
     default_ResponseRingEntry\<lparr>rs_messageKind := EventMessage, rs_eventDomain := ev_eventDomain event,
       rs_eventType := ev_eventType event, rs_flags := ev_flags event, rs_payloadKind := payloadKind,
       rs_resultSize := of_nat (length payload),
       rs_payload := copy_into (rs_payload default_ResponseRingEntry) payload\<rparr>"

definition BeginPublishEvent :: "RpcEvent \<Rightarrow> Server \<Rightarrow> World \<Rightarrow> (StatusCode + nat) \<times> Server \<times> World" where
  "BeginPublishEvent event sv w =
     (if \<not> sv_running sv \<or> State (sv_session sv) (wd_sys w) \<noteq> SessionAlive then (Inl PeerDisconnected, sv, w)
      else if \<not> Valid (sv_session sv) \<or> bh_respEventFd (se_handles (sv_session sv)) < 0 then
        (Inl EngineInternalError, sv, w)
      else case PrepareResponsePayloadForTransport (ev_payload event) sv w of (prepareStatus, payload, kind, w1) \<Rightarrow>
      if prepareStatus \<noteq> Ok then (Inl prepareStatus, sv, w1)
      else
        let entry = BuildEventEntry event payload kind;
            completion = sv_nextCompletion sv;
            sv1 = sv\<lparr>sv_nextCompletion := Suc completion, sv_completions := (sv_completions sv)(completion := None)\<rparr>;
            item = \<lparr>ci_entry = entry, ci_retryBudget = EVENT_RETRY_BUDGET, ci_breakSessionOnFailure = False,
                    ci_completion = completion\<rparr>
        in case EnqueueCompletion item sv1 of (enqueued, sv2) \<Rightarrow>
           if \<not> enqueued then (Inl QueueFull, sv2, RemoveResponseFilePayloadIfPresent entry w1)
           else (Inr completion, sv2, w1))"

section \<open>Dispatching\<close>

fun executor :: "QueueKind \<Rightarrow> Server \<Rightarrow> Executor option" where
  "executor HighRequest sv = sv_highExecutor sv"
| "executor _ sv = sv_normalExecutor sv"

fun put_executor :: "QueueKind \<Rightarrow> Executor \<Rightarrow> Server \<Rightarrow> Server" where
  "put_executor HighRequest ex sv = sv\<lparr>sv_highExecutor := Some ex\<rparr>"
| "put_executor _ ex sv = sv\<lparr>sv_normalExecutor := Some ex\<rparr>"

text \<open>One turn of the loop of \<^verbatim>\<open>DrainQueue\<close>: \<open>None\<close> when the loop ends, and otherwise whether the ring was full
  before the pop.\<close>

definition DrainIteration :: "QueueKind \<Rightarrow> Server \<Rightarrow> World \<Rightarrow> (bool \<times> Server \<times> World) option" where
  "DrainIteration kind sv w =
     (case executor kind sv of
        None \<Rightarrow> None
      | Some ex \<Rightarrow>
          if \<not> HasCapacity ex then None
          else case PopRequest kind (sv_session sv) (wd_sys w) of (popped, sys) \<Rightarrow>
            (case popped of
               None \<Rightarrow> None
             | Some entry \<Rightarrow>
                 let cursor = rg_cursor (request_ring kind (ss_objs sys (se_obj (sv_session sv))));
                     ringBecameNotFull = (rc_capacity cursor \<noteq> 0 \<and> RingCount cursor + 1 = rc_capacity cursor);
                     sv1 = TakeSubmittedTaskToken sv
                 in case TrySubmit entry ex of (submitted, ex') \<Rightarrow>
                    Some (ringBecameNotFull,
                      if submitted then put_executor kind ex' sv1 else ReleaseSubmittedTaskToken sv1,
                      w\<lparr>wd_sys := sys\<rparr>)))"

definition free_slots :: "QueueKind \<Rightarrow> Server \<Rightarrow> nat" where
  "free_slots kind sv = (case executor kind sv of None \<Rightarrow> 0 | Some ex \<Rightarrow> ex_capacity ex - length (ex_queue ex))"

lemma executor_put [simp]: "executor kind (put_executor kind ex sv) = Some ex"
  by (cases kind) auto

lemma DrainIteration_free_slots:
  "DrainIteration kind sv w = Some (b, sv', w') \<Longrightarrow> free_slots kind sv' < free_slots kind sv"
  by (auto simp: DrainIteration_def free_slots_def HasCapacity_def TrySubmit_def Let_def
      split: option.splits if_splits prod.splits)

function drain_queue_loop ::
  "QueueKind \<Rightarrow> bool \<Rightarrow> bool \<Rightarrow> Server \<Rightarrow> World \<Rightarrow> bool \<times> bool \<times> Server \<times> World" where
  "drain_queue_loop kind drained ringBecameNotFull sv w =
     (case DrainIteration kind sv w of
        None \<Rightarrow> (drained, ringBecameNotFull, sv, w)
      | Some (b, sv1, w1) \<Rightarrow> drain_queue_loop kind True (ringBecameNotFull \<or> b) sv1 w1)"
  by pat_completeness auto

termination
  by (relation "measure (\<lambda>(kind, d, r, sv, w). free_slots kind sv)") (auto dest: DrainIteration_free_slots)

declare drain_queue_loop.simps [simp del]

definition DrainQueue :: "QueueKind \<Rightarrow> Server \<Rightarrow> World \<Rightarrow> bool \<times> Server \<times> World" where
  "DrainQueue kind sv w =
     (if executor kind sv = None \<or> \<not> Valid (sv_session sv) then (False, sv, w)
      else case drain_queue_loop kind False False sv w of (drained, ringBecameNotFull, sv1, w1) \<Rightarrow>
        (drained, sv1,
         if ringBecameNotFull then snd (SignalEventFd (bh_reqCreditEventFd (se_handles (sv_session sv1))) w1) else w1))"

definition ring_pending :: "QueueKind \<Rightarrow> Server \<Rightarrow> World \<Rightarrow> u32" where
  "ring_pending kind sv w = RingCount (rg_cursor (request_ring kind (ss_objs (wd_sys w) (se_obj (sv_session sv)))))"

text \<open>\<^verbatim>\<open>HandleBackloggedQueues\<close>: whether it waits, at most 100 ms, for the capacity of an executor.\<close>

definition HandleBackloggedQueues :: "Server \<Rightarrow> World \<Rightarrow> bool" where
  "HandleBackloggedQueues sv w =
     (if \<not> Valid (sv_session sv) then False
      else case (sv_highExecutor sv, sv_normalExecutor sv) of
        (Some high, Some normal) \<Rightarrow>
          ring_pending HighRequest sv w > 0 \<and> \<not> HasCapacity high \<or>
          ring_pending NormalRequest sv w > 0 \<and> \<not> HasCapacity normal
      | _ \<Rightarrow> False)"

text \<open>\<^verbatim>\<open>SpinForRingActivity\<close>, on the worlds the iterations see.\<close>

fun SpinForRingActivity :: "Server \<Rightarrow> World list \<Rightarrow> bool" where
  "SpinForRingActivity sv [] = False"
| "SpinForRingActivity sv (w # ws) =
     (Valid (sv_session sv) \<and>
      (ring_pending HighRequest sv w > 0 \<or> ring_pending NormalRequest sv w > 0 \<or> SpinForRingActivity sv ws))"

text \<open>One round of \<^verbatim>\<open>DispatcherLoop\<close>.  \<open>spins\<close> are the worlds the 256 spins see, \<open>poll\<close> what \<^verbatim>\<open>poll\<close> reports for
  the two request descriptors: \<open>None\<close> is an error, and a timeout reports neither.\<close>

definition drain_event :: "int \<Rightarrow> World \<Rightarrow> World" where
  "drain_event fd w = w\<lparr>wd_events := (wd_events w)(fd := snd (DrainEventFd (wd_events w fd)))\<rparr>"

definition DispatcherRound :: "World list \<Rightarrow> (bool \<times> bool) option \<Rightarrow> Server \<Rightarrow> World \<Rightarrow> Server \<times> World" where
  "DispatcherRound spins poll sv w =
     (case DrainQueue HighRequest sv w of (highWork, sv1, w1) \<Rightarrow>
      case (if highWork then (sv1, w1) else snd (DrainQueue NormalRequest sv1 w1)) of (sv2, w2) \<Rightarrow>
      if HandleBackloggedQueues sv2 w2 \<or> SpinForRingActivity sv2 (w2 # spins) then (sv2, w2)
      else (case poll of
        None \<Rightarrow> (sv2, w2)
      | Some (highReady, normalReady) \<Rightarrow>
          (case (if highReady
                 then DrainQueue HighRequest sv2 (drain_event (bh_highReqEventFd (se_handles (sv_session sv2))) w2)
                 else (highWork, sv2, w2)) of (highWork', sv3, w3) \<Rightarrow>
           if \<not> highWork' \<and> normalReady
           then snd (DrainQueue NormalRequest sv3
             (drain_event (bh_normalReqEventFd (se_handles (sv_session sv3))) w3))
           else (sv3, w3))))"

section \<open>Public operations\<close>

definition new_RpcServer :: "BootstrapHandles \<Rightarrow> ServerOptions \<Rightarrow> Server" where
  "new_RpcServer handles options =
     \<lparr>sv_handles = handles, sv_options = options, sv_session = default_Session, sv_highExecutor = None,
      sv_normalExecutor = None, sv_completionQueue = [], sv_completionQueueCapacity = 0,
      sv_pendingCompletionCount = 0, sv_responseWriterRunning = False, sv_waitingForCredit = False,
      sv_running = False, sv_handlers = [], sv_activeExecutions = [], sv_pendingSubmittedTasks = 0,
      sv_completions = (\<lambda>_. None), sv_nextCompletion = 0\<rparr>"

definition SetBootstrapHandles :: "BootstrapHandles \<Rightarrow> Server \<Rightarrow> Server" where
  "SetBootstrapHandles handles sv = sv\<lparr>sv_handles := handles\<rparr>"

definition SetOptions :: "ServerOptions \<Rightarrow> Server \<Rightarrow> Server" where
  "SetOptions options sv = sv\<lparr>sv_options := options\<rparr>"

definition RegisterHandler :: "u16 \<Rightarrow> RpcHandler option \<Rightarrow> Server \<Rightarrow> Server" where
  "RegisterHandler opcode handler sv =
     (case handler of
        None \<Rightarrow> sv\<lparr>sv_handlers := filter (\<lambda>e. fst e \<noteq> opcode) (sv_handlers sv)\<rparr>
      | Some h \<Rightarrow> sv\<lparr>sv_handlers := (opcode, h) # filter (\<lambda>e. fst e \<noteq> opcode) (sv_handlers sv)\<rparr>)"

definition Start :: "abi \<Rightarrow> AttachEnv \<Rightarrow> Server \<Rightarrow> World \<Rightarrow> StatusCode \<times> Server \<times> World" where
  "Start a env sv w =
     (if sv_handlers sv = [] then (InvalidArgument, sv, w)
      else if sv_running sv then (Ok, sv, w)
      else case Attach a env (Some (sv_handles sv)) ServerRole (sv_session sv) (wd_sys w) of
        (attachStatus, handles, se, sys) \<Rightarrow>
        let sv1 = sv\<lparr>sv_running := True, sv_handles := the handles, sv_session := se\<rparr>; w1 = w\<lparr>wd_sys := sys\<rparr>;
            options = sv_options sv
        in if attachStatus \<noteq> Ok then (attachStatus, sv1\<lparr>sv_running := False\<rparr>, w1)
           else (Ok, sv1\<lparr>
             sv_highExecutor := Some (case so_highExecutor options of
               Some ex \<Rightarrow> ex | None \<Rightarrow> ThreadPoolExecutor (so_highWorkerThreads options)),
             sv_normalExecutor := Some (case so_normalExecutor options of
               Some ex \<Rightarrow> ex | None \<Rightarrow> ThreadPoolExecutor (so_normalWorkerThreads options)),
             sv_completionQueueCapacity := (if so_completionQueueCapacity options = 0 then se_responseRingSize se
               else so_completionQueueCapacity options),
             sv_responseWriterRunning := True\<rparr>, w1))"

record RpcServerRuntimeStats =
  st_completionBacklog :: u32
  st_completionBacklogCapacity :: u32
  st_highRequestRingPending :: u32
  st_normalRequestRingPending :: u32
  st_responseRingPending :: u32
  st_activeRequestExecutions :: u32
  st_oldestExecutionAgeMs :: u32
  st_waitingForResponseCredit :: bool

definition GetRuntimeStats :: "u64 \<Rightarrow> Server \<Rightarrow> World \<Rightarrow> RpcServerRuntimeStats" where
  "GetRuntimeStats now sv w =
     (let shm = ss_objs (wd_sys w) (se_obj (sv_session sv)); attached = Valid (sv_session sv)
      in \<lparr>st_completionBacklog = sv_pendingCompletionCount sv,
          st_completionBacklogCapacity = sv_completionQueueCapacity sv,
          st_highRequestRingPending = (if attached then RingCount (hd_highRing (shm_header shm)) else 0),
          st_normalRequestRingPending = (if attached then RingCount (hd_normalRing (shm_header shm)) else 0),
          st_responseRingPending = (if attached then RingCount (hd_responseRing (shm_header shm)) else 0),
          st_activeRequestExecutions = of_nat (length (sv_activeExecutions sv)),
          st_oldestExecutionAgeMs =
            (case map snd (sv_activeExecutions sv) of
               [] \<Rightarrow> 0
             | t # ts \<Rightarrow> ucast (min (now - fold min ts t) (ucast (- 1 :: u32)))),
          st_waitingForResponseCredit = sv_waitingForCredit sv\<rparr>)"

section \<open>Stop\<close>

text \<open>
  \<^verbatim>\<open>Stop\<close> with the work that is still there: \<open>inflight\<close> are the requests whose handler is running, \<open>awaiting\<close> those
  whose worker waits for the writer, \<open>now\<close> the clock.  The writer ends when its queue is empty, the workers when theirs are, so each finishes what is
  left; the session is broken by then, hence a push does not wait.  The branch that ends the process after
  \<^verbatim>\<open>STOP_TIMEOUT\<close> is not part of the function.
\<close>

definition idle_turn :: PushTurn where
  "idle_turn = \<lparr>pt_interf = id, pt_now = 0, pt_wait = [], pt_others = id\<rparr>"

fun writer_drain :: "CompletionItem list \<Rightarrow> Server \<Rightarrow> World \<Rightarrow> Server \<times> World" where
  "writer_drain [] sv w = (sv, w)"
| "writer_drain (item # items) sv w =
     (case WriteItem 0 idle_turn [] item (sv\<lparr>sv_completionQueue := items\<rparr>) w of (sv1, w1) \<Rightarrow> writer_drain items sv1 w1)"

definition signal_if_open :: "int \<Rightarrow> World \<Rightarrow> World" where
  "signal_if_open fd w = (if fd \<ge> 0 then snd (SignalEventFd fd w) else w)"

definition StopResponseWriter :: "Server \<Rightarrow> World \<Rightarrow> Server \<times> World" where
  "StopResponseWriter sv w =
     (let sv1 = sv\<lparr>sv_responseWriterRunning := False\<rparr>;
          w1 = signal_if_open (bh_respCreditEventFd (se_handles (sv_session sv1))) w
      in case writer_drain (sv_completionQueue sv1) sv1 w1 of (sv2, w2) \<Rightarrow>
         FailPendingCompletionItems PeerDisconnected sv2 w2)"

fun run_tasks :: "u64 \<Rightarrow> RequestRingEntry list \<Rightarrow> Server \<Rightarrow> World \<Rightarrow> Server \<times> World" where
  "run_tasks now [] sv w = (sv, w)"
| "run_tasks now (entry # entries) sv w =
     (case ProcessEntry now entry sv w of (r, sv1, w1) \<Rightarrow> run_tasks now entries (FinishTask entry sv1) w1)"

definition Stop ::
  "LockEnv \<Rightarrow> u64 \<Rightarrow> RequestRingEntry list \<Rightarrow> RequestRingEntry list \<Rightarrow> Server \<Rightarrow> World \<Rightarrow> Server \<times> World" where
  "Stop env now inflight awaiting sv w =
     (if \<not> sv_running sv then (sv, w)
      else
        let sv1 = sv\<lparr>sv_running := False\<rparr>;
            w1 = MarkSessionBroken sv1 w;
            sv2 = sv1\<lparr>sv_responseWriterRunning := False\<rparr>
        in case StopResponseWriter sv2 w1 of (sv3, w2) \<Rightarrow>
           let sv3 = fold FinishTask awaiting sv3;
               h = se_handles (sv_session sv3);
               w3 = signal_if_open (bh_normalReqEventFd h) (signal_if_open (bh_highReqEventFd h) w2);
               queued = (\<lambda>ex. case ex of None \<Rightarrow> [] | Some e \<Rightarrow> ex_queue e);
               tasks = inflight @ queued (sv_highExecutor sv3) @ queued (sv_normalExecutor sv3)
           in case run_tasks now tasks (sv3\<lparr>sv_highExecutor := None, sv_normalExecutor := None\<rparr>) w3 of (sv4, w4) \<Rightarrow>
              case Reset env (sv_session sv4) (wd_sys w4) of (se, sys) \<Rightarrow>
              (sv4\<lparr>sv_session := se\<rparr>, w4\<lparr>wd_sys := sys\<rparr>))"

end
