(* ===== verification/Memrpc_ServerThreads.thy ===== *)
theory Memrpc_ServerThreads
  imports Memrpc_Server
begin

text \<open>
  The threads of a running server (\<^verbatim>\<open>rpc_server.cpp\<close>) as a step relation: the dispatcher, the workers of
  the two executors, threads that publish events, the response writer, \<^verbatim>\<open>Stop\<close>, and the client.  The steps are
  the functions of \<open>Memrpc_Server\<close>; a blocking wait is a step that is not enabled yet.

  The ghost fields count where a request went: \<open>ts_dispatched\<close> the requests taken from the rings, \<open>ts_replied\<close> the
  replies the response ring took, \<open>ts_lost\<close> the requests that get no reply.
\<close>

section \<open>Threads\<close>

record Threads =
  ts_server :: Server
  ts_world :: World
  ts_taken :: "RequestRingEntry list"
  ts_waiting :: "(RequestRingEntry \<times> nat) list"
  ts_writing :: "CompletionItem option"
  ts_dispatched :: "u64 multiset"
  ts_replied :: "u64 multiset"
  ts_lost :: "u64 multiset"

text \<open>What the other process may do to shared memory, files and descriptors: anything but revive a session.\<close>

definition keeps_broken :: "Server \<Rightarrow> SysState \<Rightarrow> SysState \<Rightarrow> bool" where
  "keeps_broken sv sys sys' \<longleftrightarrow> (State (sv_session sv) sys \<noteq> SessionAlive \<longrightarrow> State (sv_session sv) sys' \<noteq> SessionAlive)"

definition reply_ids :: "CompletionItem list \<Rightarrow> u64 multiset" where
  "reply_ids items = mset (map (\<lambda>i. rs_requestId (ci_entry i)) (filter ci_breakSessionOnFailure items))"

definition count_reply :: "StatusCode \<Rightarrow> CompletionItem \<Rightarrow> Threads \<Rightarrow> Threads" where
  "count_reply status item ts =
     (if status = Ok then ts\<lparr>ts_replied := ts_replied ts + reply_ids [item]\<rparr>
      else ts\<lparr>ts_lost := ts_lost ts + reply_ids [item]\<rparr>)"

inductive server_step :: "Threads \<Rightarrow> Threads \<Rightarrow> bool" where
  dispatch: "sv_running (ts_server ts) \<Longrightarrow> kind \<noteq> ResponseQueue \<Longrightarrow>
    fst (PopRequest kind (sv_session (ts_server ts)) (wd_sys (ts_world ts))) = Some entry \<Longrightarrow>
    DrainIteration kind (ts_server ts) (ts_world ts) = Some (b, sv, w) \<Longrightarrow>
    server_step ts (ts\<lparr>ts_server := sv, ts_world := w,
      ts_dispatched := add_mset (rq_requestId entry) (ts_dispatched ts)\<rparr>)"
| take_task: "executor kind (ts_server ts) = Some ex \<Longrightarrow> WorkerTake ex = (Some entry, ex') \<Longrightarrow>
    server_step ts (ts\<lparr>ts_server := put_executor kind ex' (ts_server ts), ts_taken := entry # ts_taken ts\<rparr>)"
| process: "entry \<in> set (ts_taken ts) \<Longrightarrow>
    ProcessEntry now entry (ts_server ts) (ts_world ts) = (Some (Inr completion), sv, w) \<Longrightarrow>
    server_step ts (ts\<lparr>ts_server := sv, ts_world := w, ts_taken := remove1 entry (ts_taken ts),
      ts_waiting := (entry, completion) # ts_waiting ts\<rparr>)"
| process_refused: "entry \<in> set (ts_taken ts) \<Longrightarrow>
    ProcessEntry now entry (ts_server ts) (ts_world ts) = (r, sv, w) \<Longrightarrow> r = None \<or> r = Some (Inl status) \<Longrightarrow>
    server_step ts (ts\<lparr>ts_server := FinishTask entry sv, ts_world := w, ts_taken := remove1 entry (ts_taken ts),
      ts_lost := add_mset (rq_requestId entry) (ts_lost ts)\<rparr>)"
| finish_task: "(entry, completion) \<in> set (ts_waiting ts) \<Longrightarrow>
    AwaitWriteCompletion completion (ts_server ts) = Some status \<Longrightarrow>
    server_step ts (ts\<lparr>ts_server := FinishTask entry (ts_server ts),
      ts_waiting := remove1 (entry, completion) (ts_waiting ts)\<rparr>)"
| publish: "BeginPublishEvent event (ts_server ts) (ts_world ts) = (r, sv, w) \<Longrightarrow>
    server_step ts (ts\<lparr>ts_server := sv, ts_world := w\<rparr>)"
| write_pop: "ts_writing ts = None \<Longrightarrow> WaitAndPopCompletionItem (ts_server ts) = (Some item, sv) \<Longrightarrow>
    server_step ts (ts\<lparr>ts_server := sv, ts_writing := Some item\<rparr>)"
| write_push: "ts_writing ts = Some item \<Longrightarrow> (\<And>sys. keeps_broken (ts_server ts) sys (interf sys)) \<Longrightarrow>
    PushResponse interf (ci_entry item) (sv_session (ts_server ts)) (wd_sys (ts_world ts)) = (status, sys) \<Longrightarrow>
    status \<noteq> QueueFull \<Longrightarrow> FinishItem status item (ts_server ts) ((ts_world ts)\<lparr>wd_sys := sys\<rparr>) = (sv, w) \<Longrightarrow>
    server_step ts ((count_reply status item ts)\<lparr>ts_server := sv, ts_world := w, ts_writing := None\<rparr>)"
| write_give_up: "ts_writing ts = Some item \<Longrightarrow> status \<in> {QueueFull, PeerDisconnected} \<Longrightarrow>
    FinishItem status item (ts_server ts) (ts_world ts) = (sv, w) \<Longrightarrow>
    server_step ts ((count_reply status item ts)\<lparr>ts_server := sv, ts_world := w, ts_writing := None\<rparr>)"
| begin_stop: "sv_running (ts_server ts) \<Longrightarrow>
    server_step ts (ts\<lparr>ts_server := (ts_server ts)\<lparr>sv_running := False, sv_responseWriterRunning := False\<rparr>,
      ts_world := MarkSessionBroken (ts_server ts) (ts_world ts)\<rparr>)"
| environment: "keeps_broken (ts_server ts) (wd_sys (ts_world ts)) (wd_sys w) \<Longrightarrow>
    server_step ts (ts\<lparr>ts_world := w\<rparr>)"

text \<open>A server that is not running and has nothing queued, as constructed or as \<^verbatim>\<open>Stop\<close> leaves it.\<close>

definition idle_server :: "Server \<Rightarrow> bool" where
  "idle_server sv \<longleftrightarrow> \<not> sv_running sv \<and> sv_completionQueue sv = [] \<and> sv_pendingCompletionCount sv = 0 \<and>
     (\<forall>ex. so_highExecutor (sv_options sv) = Some ex \<longrightarrow> ex_queue ex = []) \<and>
     (\<forall>ex. so_normalExecutor (sv_options sv) = Some ex \<longrightarrow> ex_queue ex = [])"

inductive server_reachable :: "Threads \<Rightarrow> bool" where
  started: "idle_server sv0 \<Longrightarrow> Start a env sv0 w0 = (Ok, sv, w) \<Longrightarrow>
    server_reachable \<lparr>ts_server = sv, ts_world = w, ts_taken = [], ts_waiting = [], ts_writing = None,
      ts_dispatched = {#}, ts_replied = {#}, ts_lost = {#}\<rparr>"
| steps: "server_reachable ts \<Longrightarrow> server_step ts ts' \<Longrightarrow> server_reachable ts'"

section \<open>What the operations do\<close>

definition executor_queue :: "QueueKind \<Rightarrow> Server \<Rightarrow> RequestRingEntry list" where
  "executor_queue kind sv = (case executor kind sv of None \<Rightarrow> [] | Some ex \<Rightarrow> ex_queue ex)"

definition queued_ids :: "Server \<Rightarrow> u64 multiset" where
  "queued_ids sv = mset (map rq_requestId (executor_queue HighRequest sv @ executor_queue NormalRequest sv))"

lemma State_SetState_Broken [simp]: "State se (SetState SessionBroken se sys) \<noteq> SessionAlive"
  by (simp add: State_def SetState_def SessionAlive_def SessionBroken_def)

lemma SignalEventFd_sys [simp]: "wd_sys (snd (SignalEventFd fd w)) = wd_sys w"
  by (simp add: SignalEventFd_def split: prod.splits)

lemma MarkSessionBroken_State [simp]: "State (sv_session sv) (wd_sys (MarkSessionBroken sv w)) \<noteq> SessionAlive"
  by (simp add: MarkSessionBroken_def Let_def)

lemma RemoveResponse_sys [simp]: "wd_sys (RemoveResponseFilePayloadIfPresent e w) = wd_sys w"
  by (simp add: RemoveResponseFilePayloadIfPresent_def)

lemma PrepareResponse_sys:
  "PrepareResponsePayloadForTransport payload sv w = (st, p, k, w') \<Longrightarrow> wd_sys w' = wd_sys w"
  by (auto simp: PrepareResponsePayloadForTransport_def Let_def split: if_splits prod.splits)

lemma PrepareResponse_status:
  "PrepareResponsePayloadForTransport payload sv w = (st, p, k, w') \<Longrightarrow>
     if Valid (sv_session sv) then st \<in> {Ok, PayloadTooLarge} else st = PeerDisconnected \<and> w' = w"
  by (auto simp: PrepareResponsePayloadForTransport_def Let_def split: if_splits prod.splits)

lemma InvokeHandler_sys: "InvokeHandler entry sv w = (reply, w') \<Longrightarrow> wd_sys w' = wd_sys w"
  by (auto simp: InvokeHandler_def split: option.splits prod.splits)

lemma invalid_State: "\<not> Valid se \<Longrightarrow> State se sys \<noteq> SessionAlive"
  by (simp add: Valid_def State_def SessionAlive_def SessionBroken_def)

text \<open>A server whose queue took an item, and one that only gave out a completion number.\<close>

definition with_item :: "CompletionItem \<Rightarrow> Server \<Rightarrow> Server" where
  "with_item item sv = sv\<lparr>sv_nextCompletion := Suc (sv_nextCompletion sv),
     sv_completions := (sv_completions sv)(sv_nextCompletion sv := None),
     sv_completionQueue := sv_completionQueue sv @ [item],
     sv_pendingCompletionCount := sv_pendingCompletionCount sv + 1\<rparr>"

definition without_item :: "Server \<Rightarrow> Server" where
  "without_item sv = sv\<lparr>sv_nextCompletion := Suc (sv_nextCompletion sv),
     sv_completions := (sv_completions sv)(sv_nextCompletion sv := None)\<rparr>"

lemma EnqueueCompletion_cases:
  "EnqueueCompletion item (without_item sv) = (ok, sv') \<Longrightarrow>
     (if ok then sv' = with_item item sv \<and> sv_pendingCompletionCount sv < sv_completionQueueCapacity sv \<and>
        sv_responseWriterRunning sv else sv' = without_item sv)"
  by (auto simp: EnqueueCompletion_def with_item_def without_item_def not_le split: if_splits)

lemma BeginWriteResponse_queued:
  assumes "BeginWriteResponse requestEntry reply sv w = (Inr completion, sv', w')"
  obtains item where "completion = sv_nextCompletion sv" "sv' = with_item item sv"
    "ci_completion item = completion" "ci_breakSessionOnFailure item"
    "rs_requestId (ci_entry item) = rq_requestId requestEntry" "wd_sys w' = wd_sys w"
    "sv_pendingCompletionCount sv < sv_completionQueueCapacity sv"
  using assms PrepareResponse_sys [of "rp_payload reply" sv w]
  by (fastforce simp: BeginWriteResponse_def BuildResponseCompletionItem_def BuildReplyEntry_def
      Let_def simp flip: without_item_def dest!: EnqueueCompletion_cases split: prod.splits if_splits)

lemma BeginWriteResponse_refused:
  assumes "BeginWriteResponse requestEntry reply sv w = (Inl status, sv', w')"
  shows "sv' \<in> {sv, without_item sv}" "State (sv_session sv) (wd_sys w') \<noteq> SessionAlive"
proof -
  obtain st p k w1 where prep: "PrepareResponsePayloadForTransport (rp_payload reply) sv w = (st, p, k, w1)"
    by (metis prod_cases4)
  have "sv' = sv \<and> \<not> Valid (sv_session sv) \<or>
      sv' = without_item sv \<and> (\<exists>v. w' = MarkSessionBroken (without_item sv) v)"
    using assms PrepareResponse_status [OF prep]
    by (auto simp: BeginWriteResponse_def prep Let_def simp flip: without_item_def
        dest!: EnqueueCompletion_cases split: prod.splits if_splits)
  then show "sv' \<in> {sv, without_item sv}" "State (sv_session sv) (wd_sys w') \<noteq> SessionAlive"
    using MarkSessionBroken_State [of "without_item sv"] invalid_State
    by (auto simp: without_item_def)
qed

lemma BeginPublishEvent_result:
  assumes "BeginPublishEvent event sv w = (r, sv', w')"
  shows "wd_sys w' = wd_sys w"
    "sv' \<in> {sv, without_item sv} \<or> (\<exists>item. sv' = with_item item sv \<and> ci_completion item = sv_nextCompletion sv \<and>
       \<not> ci_breakSessionOnFailure item \<and> sv_pendingCompletionCount sv < sv_completionQueueCapacity sv)"
proof -
  obtain st p k w1 where prep: "PrepareResponsePayloadForTransport (ev_payload event) sv w = (st, p, k, w1)"
    by (metis prod_cases4)
  show "wd_sys w' = wd_sys w"
    using assms PrepareResponse_sys [OF prep]
    by (auto simp: BeginPublishEvent_def prep Let_def split: prod.splits if_splits)
  show "sv' \<in> {sv, without_item sv} \<or> (\<exists>item. sv' = with_item item sv \<and> ci_completion item = sv_nextCompletion sv \<and>
       \<not> ci_breakSessionOnFailure item \<and> sv_pendingCompletionCount sv < sv_completionQueueCapacity sv)"
    using assms
    by (fastforce simp: BeginPublishEvent_def prep Let_def simp flip: without_item_def
        dest!: EnqueueCompletion_cases split: prod.splits if_splits)
qed

text \<open>\<^verbatim>\<open>ProcessEntry\<close> is \<^verbatim>\<open>WriteResponse\<close> up to the record of running handlers.\<close>

lemma ProcessEntry_write:
  assumes "ProcessEntry now entry sv w = (Some r, sv', w')"
  obtains reply e w1 where "BeginWriteResponse entry reply (sv\<lparr>sv_activeExecutions := e\<rparr>) w1 = (r, sv', w')"
    "wd_sys w1 = wd_sys w"
proof (cases "invalid_transport entry sv")
  case (Some st)
  have same: "sv\<lparr>sv_activeExecutions := sv_activeExecutions sv\<rparr> = sv"
    by simp
  have "BeginWriteResponse entry (default_RpcReply\<lparr>rp_status := st\<rparr>)
      (sv\<lparr>sv_activeExecutions := sv_activeExecutions sv\<rparr>) w = (r, sv', w')"
    unfolding same using assms Some by (auto simp: ProcessEntry_def split: if_splits prod.splits)
  then show ?thesis
    by (rule that) simp
next
  case None
  obtain reply w1 where call: "InvokeHandler entry sv w = (reply, w1)"
    by (meson surj_pair)
  have "BeginWriteResponse entry reply (MarkExecutionStarted now (rq_requestId entry) sv) w1 = (r, sv', w')"
    using assms None by (auto simp: ProcessEntry_def call split: if_splits prod.splits)
  then show ?thesis
    unfolding MarkExecutionStarted_def by (rule that) (rule InvokeHandler_sys [OF call])
qed

section \<open>Invariant of the threads\<close>

definition in_flight :: "Threads \<Rightarrow> CompletionItem list" where
  "in_flight ts = (case ts_writing ts of None \<Rightarrow> [] | Some item \<Rightarrow> [item]) @ sv_completionQueue (ts_server ts)"

definition accounted :: "Threads \<Rightarrow> bool" where
  "accounted ts \<longleftrightarrow> ts_dispatched ts = queued_ids (ts_server ts) + mset (map rq_requestId (ts_taken ts)) +
     reply_ids (in_flight ts) + ts_replied ts + ts_lost ts"

definition loss_breaks :: "Threads \<Rightarrow> bool" where
  "loss_breaks ts \<longleftrightarrow> (ts_lost ts \<noteq> {#} \<longrightarrow> State (sv_session (ts_server ts)) (wd_sys (ts_world ts)) \<noteq> SessionAlive)"

definition backlog_ok :: "Threads \<Rightarrow> bool" where
  "backlog_ok ts \<longleftrightarrow> unat (sv_pendingCompletionCount (ts_server ts)) = length (in_flight ts) \<and>
     sv_pendingCompletionCount (ts_server ts) \<le> sv_completionQueueCapacity (ts_server ts)"

text \<open>Waiting completions \<open>W\<close> and queued ones \<open>F\<close>: every number was given out, and a completion someone waits for
  is ready or still queued.\<close>

definition completions_ok :: "nat set \<Rightarrow> nat set \<Rightarrow> (nat \<Rightarrow> StatusCode option) \<Rightarrow> nat \<Rightarrow> bool" where
  "completions_ok W F comps n \<longleftrightarrow> (\<forall>c \<in> F. c < n) \<and> (\<forall>c \<in> W. c < n \<and> (comps c \<noteq> None \<or> c \<in> F))"

definition waiters_ok :: "Threads \<Rightarrow> bool" where
  "waiters_ok ts \<longleftrightarrow> completions_ok (snd ` set (ts_waiting ts)) (ci_completion ` set (in_flight ts))
     (sv_completions (ts_server ts)) (sv_nextCompletion (ts_server ts))"

lemma completions_new:
  "completions_ok W F comps n \<Longrightarrow> completions_ok W (insert n F) (comps(n := None)) (Suc n)"
  "completions_ok W F comps n \<Longrightarrow> completions_ok (insert n W) (insert n F) (comps(n := None)) (Suc n)"
  "completions_ok W F comps n \<Longrightarrow> completions_ok W F (comps(n := None)) (Suc n)"
  by (auto simp: completions_ok_def less_Suc_eq)

lemma completions_done:
  "completions_ok W (insert c F) comps n \<Longrightarrow> completions_ok W F (comps(c := Some st)) n"
  by (auto simp: completions_ok_def)

lemma completions_mono: "completions_ok W F comps n \<Longrightarrow> W' \<subseteq> W \<Longrightarrow> completions_ok W' F comps n"
  by (auto simp: completions_ok_def)

definition threads_inv :: "Threads \<Rightarrow> bool" where
  "threads_inv ts \<longleftrightarrow> accounted ts \<and> loss_breaks ts \<and> backlog_ok ts \<and> waiters_ok ts"

lemmas threads_defs = threads_inv_def accounted_def loss_breaks_def backlog_ok_def waiters_ok_def in_flight_def

lemma reply_ids_simps [simp]:
  "reply_ids [] = {#}"
  "reply_ids (i # is) = (if ci_breakSessionOnFailure i then {#rs_requestId (ci_entry i)#} else {#}) + reply_ids is"
  "reply_ids (xs @ ys) = reply_ids xs + reply_ids ys"
  by (simp_all add: reply_ids_def)

text \<open>The fields the invariant reads, after the operations.\<close>

lemma with_item_fields [simp]:
  "sv_session (with_item i sv) = sv_session sv" "executor k (with_item i sv) = executor k sv"
  "sv_completionQueue (with_item i sv) = sv_completionQueue sv @ [i]"
  "sv_completionQueueCapacity (with_item i sv) = sv_completionQueueCapacity sv"
  "sv_pendingCompletionCount (with_item i sv) = sv_pendingCompletionCount sv + 1"
  "sv_nextCompletion (with_item i sv) = Suc (sv_nextCompletion sv)"
  "sv_completions (with_item i sv) = (sv_completions sv)(sv_nextCompletion sv := None)"
  by (cases k; simp add: with_item_def)+

lemma without_item_fields [simp]:
  "sv_session (without_item sv) = sv_session sv" "executor k (without_item sv) = executor k sv"
  "sv_completionQueue (without_item sv) = sv_completionQueue sv"
  "sv_completionQueueCapacity (without_item sv) = sv_completionQueueCapacity sv"
  "sv_pendingCompletionCount (without_item sv) = sv_pendingCompletionCount sv"
  "sv_nextCompletion (without_item sv) = Suc (sv_nextCompletion sv)"
  "sv_completions (without_item sv) = (sv_completions sv)(sv_nextCompletion sv := None)"
  by (cases k; simp add: without_item_def)+

lemma executions_fields [simp]:
  "executor k (sv\<lparr>sv_activeExecutions := e\<rparr>) = executor k sv"
  "executor k (FinishTask entry sv) = executor k sv"
  "sv_session (FinishTask entry sv) = sv_session sv"
  "sv_completionQueue (FinishTask entry sv) = sv_completionQueue sv"
  "sv_completionQueueCapacity (FinishTask entry sv) = sv_completionQueueCapacity sv"
  "sv_pendingCompletionCount (FinishTask entry sv) = sv_pendingCompletionCount sv"
  "sv_nextCompletion (FinishTask entry sv) = sv_nextCompletion sv"
  "sv_completions (FinishTask entry sv) = sv_completions sv"
  by (cases k; simp add: FinishTask_def ReleaseSubmittedTaskToken_def MarkExecutionFinished_def)+

lemma put_executor_fields [simp]:
  "sv_session (put_executor k ex sv) = sv_session sv"
  "sv_completionQueue (put_executor k ex sv) = sv_completionQueue sv"
  "sv_completionQueueCapacity (put_executor k ex sv) = sv_completionQueueCapacity sv"
  "sv_pendingCompletionCount (put_executor k ex sv) = sv_pendingCompletionCount sv"
  "sv_nextCompletion (put_executor k ex sv) = sv_nextCompletion sv"
  "sv_completions (put_executor k ex sv) = sv_completions sv"
  by (cases k; simp)+

lemma queued_ids_cong: "(\<And>k. executor k sv = executor k sv') \<Longrightarrow> queued_ids sv = queued_ids sv'"
  by (simp add: queued_ids_def executor_queue_def del: executor.simps)

lemma queued_ids_put:
  assumes "executor k sv = Some ex" "mset (map rq_requestId (ex_queue ex')) + A = mset (map rq_requestId (ex_queue ex)) + B"
  shows "queued_ids (put_executor k ex' sv) + A = queued_ids sv + B"
  using assms by (cases k) (auto simp: queued_ids_def executor_queue_def algebra_simps)

lemma push_pending: "(p :: u32) < cap \<Longrightarrow> unat (p + 1) = Suc (unat p) \<and> p + 1 \<le> cap"
proof -
  assume "p < cap"
  moreover from this have "unat p + 1 < 2 ^ 32"
    using unat_less_pow [of cap] by (simp add: word_less_nat_alt)
  ultimately show ?thesis
    by (simp add: word_less_nat_alt word_le_nat_alt unat_word_ariths)
qed

section \<open>The steps keep the invariant\<close>

lemma in_flight_item:
  "ts_writing ts' = ts_writing ts \<Longrightarrow> ts_server ts' = with_item item (ts_server ts) \<Longrightarrow> in_flight ts' = in_flight ts @ [item]"
  by (simp add: in_flight_def)

text \<open>A new item, and a completion number without one.\<close>

lemma with_item_ok:
  assumes "threads_inv ts" "sv_pendingCompletionCount (ts_server ts) < sv_completionQueueCapacity (ts_server ts)"
    "ci_completion item = sv_nextCompletion (ts_server ts)"
    "ts_writing ts' = ts_writing ts" "ts_server ts' = with_item item (sv\<lparr>sv_activeExecutions := e\<rparr>)" "ts_server ts = sv"
    "wd_sys (ts_world ts') = wd_sys (ts_world ts)" "ts_lost ts' = ts_lost ts"
    "ts_waiting ts' = ts_waiting ts \<or> snd ` set (ts_waiting ts') = insert (sv_nextCompletion sv) (snd ` set (ts_waiting ts))"
  shows "loss_breaks ts' \<and> backlog_ok ts' \<and> waiters_ok ts'"
proof -
  have fl: "in_flight ts' = in_flight ts @ [item]"
    using assms by (simp add: in_flight_def)
  have "backlog_ok ts'"
    using assms fl push_pending [OF assms(2)] by (simp add: threads_inv_def backlog_ok_def)
  moreover have "waiters_ok ts'"
    using assms fl completions_new by (auto simp: threads_inv_def waiters_ok_def)
  moreover have "loss_breaks ts'"
    using assms by (auto simp: threads_inv_def loss_breaks_def)
  ultimately show ?thesis by blast
qed

lemma without_item_ok:
  assumes "threads_inv ts" "ts_writing ts' = ts_writing ts"
    "ts_server ts' = sv \<or> ts_server ts' = without_item sv" "sv = (ts_server ts)\<lparr>sv_activeExecutions := e\<rparr>"
    "ts_waiting ts' = ts_waiting ts"
  shows "backlog_ok ts' \<and> waiters_ok ts' \<and> in_flight ts' = in_flight ts \<and> queued_ids (ts_server ts') = queued_ids (ts_server ts)"
proof -
  have fl: "in_flight ts' = in_flight ts" "queued_ids (ts_server ts') = queued_ids (ts_server ts)"
    using assms(2,3,4) by (auto simp: in_flight_def intro: queued_ids_cong)
  show ?thesis
    using assms fl completions_new(3)
    by (auto simp: threads_inv_def backlog_ok_def waiters_ok_def)
qed

lemma inv_dispatch:
  assumes "threads_inv ts" "fst (PopRequest kind (sv_session (ts_server ts)) (wd_sys (ts_world ts))) = Some entry"
    "DrainIteration kind (ts_server ts) (ts_world ts) = Some (b, sv, w)"
  shows "threads_inv (ts\<lparr>ts_server := sv, ts_world := w,
      ts_dispatched := add_mset (rq_requestId entry) (ts_dispatched ts)\<rparr>)"
proof -
  obtain ex sys where ex: "executor kind (ts_server ts) = Some ex" "HasCapacity ex"
    and pop: "PopRequest kind (sv_session (ts_server ts)) (wd_sys (ts_world ts)) = (Some entry, sys)"
    using assms(2,3) by (auto simp: DrainIteration_def split: option.splits if_splits prod.splits)
  let ?ex = "ex\<lparr>ex_queue := ex_queue ex @ [entry]\<rparr>" and ?sv = "TakeSubmittedTaskToken (ts_server ts)"
  have sv: "sv = put_executor kind ?ex ?sv" and w: "wd_sys w = sys"
    using assms(3) ex by (auto simp: DrainIteration_def pop TrySubmit_def HasCapacity_def Let_def)
  have k: "executor k ?sv = executor k (ts_server ts)" for k
    by (cases k) (simp_all add: TakeSubmittedTaskToken_def)
  have "queued_ids sv = add_mset (rq_requestId entry) (queued_ids (ts_server ts))"
    using queued_ids_put [of kind ?sv ex ?ex "{#}" "{#rq_requestId entry#}"] ex(1) queued_ids_cong [of ?sv, OF k]
    by (simp add: sv k)
  moreover have "State (sv_session (ts_server ts)) sys = State (sv_session (ts_server ts)) (wd_sys (ts_world ts))"
    using pop by (auto simp: PopRequest_def split: if_splits prod.splits)
  ultimately show ?thesis
    using assms(1) by (auto simp: threads_defs sv w TakeSubmittedTaskToken_def)
qed

lemma inv_take:
  assumes "threads_inv ts" "executor kind (ts_server ts) = Some ex" "WorkerTake ex = (Some entry, ex')"
  shows "threads_inv (ts\<lparr>ts_server := put_executor kind ex' (ts_server ts), ts_taken := entry # ts_taken ts\<rparr>)"
proof -
  have "add_mset (rq_requestId entry) (queued_ids (put_executor kind ex' (ts_server ts))) = queued_ids (ts_server ts)"
    using queued_ids_put [OF assms(2), of ex' "{#rq_requestId entry#}" "{#}"] assms(3)
    by (auto simp: WorkerTake_def split: list.splits)
  with assms(1) show ?thesis
    by (auto simp: threads_defs)
qed

lemma inv_process:
  assumes "threads_inv ts" "entry \<in> set (ts_taken ts)"
    "ProcessEntry now entry (ts_server ts) (ts_world ts) = (Some (Inr completion), sv, w)"
  shows "threads_inv (ts\<lparr>ts_server := sv, ts_world := w, ts_taken := remove1 entry (ts_taken ts),
      ts_waiting := (entry, completion) # ts_waiting ts\<rparr>)" (is "threads_inv ?ts")
proof -
  obtain reply e w1 where "BeginWriteResponse entry reply ((ts_server ts)\<lparr>sv_activeExecutions := e\<rparr>) w1 = (Inr completion, sv, w)"
    and w1: "wd_sys w1 = wd_sys (ts_world ts)"
    using assms(3) by (rule ProcessEntry_write)
  then obtain item where item: "completion = sv_nextCompletion (ts_server ts)"
    "sv = with_item item ((ts_server ts)\<lparr>sv_activeExecutions := e\<rparr>)" "ci_completion item = completion"
    "ci_breakSessionOnFailure item" "rs_requestId (ci_entry item) = rq_requestId entry" "wd_sys w = wd_sys (ts_world ts)"
    "sv_pendingCompletionCount (ts_server ts) < sv_completionQueueCapacity (ts_server ts)"
    by (elim BeginWriteResponse_queued) auto
  have "loss_breaks ?ts \<and> backlog_ok ?ts \<and> waiters_ok ?ts"
    by (rule with_item_ok [OF assms(1), where item = item]) (use item in auto)
  moreover have "queued_ids sv = queued_ids (ts_server ts)"
    by (rule queued_ids_cong) (simp add: item)
  moreover have "mset (map rq_requestId (ts_taken ts)) = add_mset (rq_requestId entry) (mset (map rq_requestId (remove1 entry (ts_taken ts))))"
    using assms(2) by (metis image_mset_add_mset insert_DiffM mset_map mset_remove1 set_mset_mset)
  ultimately show ?thesis
    using assms(1) item by (simp add: threads_inv_def accounted_def in_flight_def)
qed

lemma inv_process_refused:
  assumes "threads_inv ts" "entry \<in> set (ts_taken ts)"
    "ProcessEntry now entry (ts_server ts) (ts_world ts) = (r, sv, w)" "r = None \<or> r = Some (Inl status)"
  shows "threads_inv (ts\<lparr>ts_server := FinishTask entry sv, ts_world := w, ts_taken := remove1 entry (ts_taken ts),
      ts_lost := add_mset (rq_requestId entry) (ts_lost ts)\<rparr>)" (is "threads_inv ?ts")
proof -
  obtain e where sv: "sv = (ts_server ts)\<lparr>sv_activeExecutions := e\<rparr> \<or> sv = without_item ((ts_server ts)\<lparr>sv_activeExecutions := e\<rparr>)"
    and broken: "State (sv_session (ts_server ts)) (wd_sys w) \<noteq> SessionAlive"
  proof (cases r)
    case None
    then have "\<not> Valid (sv_session (ts_server ts))" "sv = (ts_server ts)\<lparr>sv_activeExecutions := sv_activeExecutions (ts_server ts)\<rparr>"
      using assms(3) by (auto simp: ProcessEntry_def split: if_splits option.splits prod.splits)
    then show ?thesis using that invalid_State by blast
  next
    case (Some x)
    with assms(3,4) have "ProcessEntry now entry (ts_server ts) (ts_world ts) = (Some (Inl status), sv, w)"
      by simp
    then obtain reply e w1
      where "BeginWriteResponse entry reply ((ts_server ts)\<lparr>sv_activeExecutions := e\<rparr>) w1 = (Inl status, sv, w)"
      by (rule ProcessEntry_write)
    from BeginWriteResponse_refused [OF this] that show ?thesis by auto
  qed
  let ?us = "ts\<lparr>ts_server := sv\<rparr>"
  have "backlog_ok ?us \<and> waiters_ok ?us \<and> in_flight ?us = in_flight ts \<and> queued_ids (ts_server ?us) = queued_ids (ts_server ts)"
    by (rule without_item_ok [OF assms(1)]) (use sv in auto)
  moreover have "mset (map rq_requestId (ts_taken ts)) = add_mset (rq_requestId entry) (mset (map rq_requestId (remove1 entry (ts_taken ts))))"
    using assms(2) by (metis image_mset_add_mset insert_DiffM mset_map mset_remove1 set_mset_mset)
  moreover have "queued_ids (FinishTask entry sv) = queued_ids sv"
    by (rule queued_ids_cong) simp
  ultimately show ?thesis
    using assms(1) broken sv by (auto simp: threads_defs)
qed

lemma inv_finish_task:
  assumes "threads_inv ts"
  shows "threads_inv (ts\<lparr>ts_server := FinishTask entry (ts_server ts), ts_waiting := remove1 x (ts_waiting ts)\<rparr>)"
proof -
  have "queued_ids (FinishTask entry (ts_server ts)) = queued_ids (ts_server ts)"
    by (rule queued_ids_cong) simp
  moreover have "snd ` set (remove1 x (ts_waiting ts)) \<subseteq> snd ` set (ts_waiting ts)"
    by (meson image_mono set_remove1_subset)
  ultimately show ?thesis
    using assms completions_mono by (auto simp: threads_defs)
qed

lemma inv_publish:
  assumes "threads_inv ts" "BeginPublishEvent event (ts_server ts) (ts_world ts) = (r, sv, w)"
  shows "threads_inv (ts\<lparr>ts_server := sv, ts_world := w\<rparr>)" (is "threads_inv ?ts")
proof -
  have same: "(ts_server ts)\<lparr>sv_activeExecutions := sv_activeExecutions (ts_server ts)\<rparr> = ts_server ts"
    by simp
  from BeginPublishEvent_result(2) [OF assms(2)] show ?thesis
  proof (elim disjE exE conjE)
    assume sv: "sv \<in> {ts_server ts, without_item (ts_server ts)}"
    have "backlog_ok ?ts \<and> waiters_ok ?ts \<and> in_flight ?ts = in_flight ts \<and> queued_ids (ts_server ?ts) = queued_ids (ts_server ts)"
      by (rule without_item_ok [OF assms(1) _ _ same [symmetric]]) (use sv in auto)
    then show ?thesis
      using assms(1) BeginPublishEvent_result(1) [OF assms(2)] sv by (auto simp: threads_defs)
  next
    fix item
    assume item: "sv = with_item item (ts_server ts)" "ci_completion item = sv_nextCompletion (ts_server ts)"
      "\<not> ci_breakSessionOnFailure item" "sv_pendingCompletionCount (ts_server ts) < sv_completionQueueCapacity (ts_server ts)"
    have "loss_breaks ?ts \<and> backlog_ok ?ts \<and> waiters_ok ?ts"
      by (rule with_item_ok [OF assms(1) item(4) item(2), where e = "sv_activeExecutions (ts_server ts)"]) (use item BeginPublishEvent_result(1) [OF assms(2)] same in auto)
    moreover have "queued_ids sv = queued_ids (ts_server ts)"
      by (rule queued_ids_cong) (simp add: item)
    ultimately show ?thesis
      using assms(1) item by (simp add: threads_inv_def accounted_def in_flight_def)
  qed
qed

lemma FinishItem_result:
  assumes "FinishItem status item sv w = (sv', w')"
  shows "sv' = OnCompletionItemFinished (CompleteItem (ci_completion item) status sv)"
    "status \<noteq> Ok \<Longrightarrow> ci_breakSessionOnFailure item \<Longrightarrow> State (sv_session sv) (wd_sys w') \<noteq> SessionAlive"
    "State (sv_session sv) (wd_sys w) \<noteq> SessionAlive \<Longrightarrow> State (sv_session sv) (wd_sys w') \<noteq> SessionAlive"
  using assms by (auto simp: FinishItem_def Let_def split: if_splits)

lemma finished_fields [simp]:
  "executor k (OnCompletionItemFinished (CompleteItem c status sv)) = executor k sv"
  "sv_session (OnCompletionItemFinished (CompleteItem c status sv)) = sv_session sv"
  "sv_completionQueue (OnCompletionItemFinished (CompleteItem c status sv)) = sv_completionQueue sv"
  "sv_completionQueueCapacity (OnCompletionItemFinished (CompleteItem c status sv)) = sv_completionQueueCapacity sv"
  "sv_nextCompletion (OnCompletionItemFinished (CompleteItem c status sv)) = sv_nextCompletion sv"
  "sv_completions (OnCompletionItemFinished (CompleteItem c status sv)) = (sv_completions sv)(c := Some status)"
  by (cases k; simp add: OnCompletionItemFinished_def CompleteItem_def)+

lemma pop_pending: "unat (p :: u32) = Suc n \<Longrightarrow> p \<le> cap \<Longrightarrow> p > 0 \<and> unat (p - 1) = n \<and> p - 1 \<le> cap"
proof -
  assume p: "unat p = Suc n" "p \<le> cap"
  then have "p \<noteq> 0" by auto
  with p show ?thesis by (auto simp: word_le_nat_alt word_less_nat_alt unat_minus_one)
qed

lemma inv_write:
  assumes "threads_inv ts" "ts_writing ts = Some item" "FinishItem status item (ts_server ts) v = (sv, w)"
    "keeps_broken (ts_server ts) (wd_sys (ts_world ts)) (wd_sys v)"
  shows "threads_inv ((count_reply status item ts)\<lparr>ts_server := sv, ts_world := w, ts_writing := None\<rparr>)" (is "threads_inv ?ts")
proof -
  note r = FinishItem_result [OF assms(3)]
  have fl: "in_flight ts = item # in_flight ?ts"
    using assms(2) by (simp add: in_flight_def r(1))
  have q: "queued_ids sv = queued_ids (ts_server ts)"
    by (rule queued_ids_cong) (simp add: r(1))
  have "accounted ?ts"
    using assms(1) fl q by (simp add: threads_inv_def accounted_def count_reply_def)
  moreover have "loss_breaks ?ts"
    using assms(1,4) r(2,3) by (auto simp: threads_inv_def loss_breaks_def count_reply_def keeps_broken_def r(1) split: if_splits)
  moreover have "backlog_ok ?ts"
    using assms(1) fl pop_pending [of "sv_pendingCompletionCount (ts_server ts)"]
    by (auto simp: threads_inv_def backlog_ok_def r(1) OnCompletionItemFinished_def CompleteItem_def)
  moreover have "waiters_ok ?ts"
    using assms(1) fl completions_done by (auto simp: threads_inv_def waiters_ok_def r(1) count_reply_def)
  ultimately show ?thesis
    by (simp add: threads_inv_def)
qed

lemma PushResponse_keeps_broken:
  assumes "PushResponse interf entry (sv_session sv) sys = (status, sys')"
  shows "keeps_broken sv sys sys'"
  using assms by (auto simp: keeps_broken_def PushResponse_def split: if_splits)

lemma server_step_inv: "server_step ts ts' \<Longrightarrow> threads_inv ts \<Longrightarrow> threads_inv ts'"
proof (induction rule: server_step.induct)
  case (write_pop ts item sv)
  then show ?case
    by (auto simp: threads_defs WaitAndPopCompletionItem_def queued_ids_def executor_queue_def split: list.splits)
next
  case (write_push ts item interf status sys sv w)
  then show ?case using PushResponse_keeps_broken by (intro inv_write) auto
next
  case (write_give_up ts item status sv w)
  then show ?case by (intro inv_write) (auto simp: keeps_broken_def)
next
  case (begin_stop ts)
  then show ?case by (auto simp: threads_defs queued_ids_def executor_queue_def)
next
  case (environment ts w)
  then show ?case by (auto simp: threads_defs keeps_broken_def)
qed (use inv_dispatch inv_take inv_process inv_process_refused inv_finish_task inv_publish in simp_all)

lemma Start_fields:
  assumes "idle_server sv0" "Start a env sv0 w0 = (Ok, sv, w)"
  shows "sv_completionQueue sv = []" "sv_pendingCompletionCount sv = 0"
    "executor_queue HighRequest sv = []" "executor_queue NormalRequest sv = []"
proof -
  obtain st h se sys where attach: "Attach a env (Some (sv_handles sv0)) ServerRole (sv_session sv0) (wd_sys w0) = (st, h, se, sys)"
    by (metis prod_cases4)
  note [simp] = Start_def attach Let_def executor_queue_def ThreadPoolExecutor_def
  show "sv_completionQueue sv = []" "sv_pendingCompletionCount sv = 0"
    using assms by (auto simp: idle_server_def split: if_splits)
  show "executor_queue HighRequest sv = []" "executor_queue NormalRequest sv = []"
    using assms by (auto simp: idle_server_def split: if_splits option.splits)
qed

lemma Start_inv:
  assumes "idle_server sv0" "Start a env sv0 w0 = (Ok, sv, w)"
  shows "threads_inv \<lparr>ts_server = sv, ts_world = w, ts_taken = [], ts_waiting = [], ts_writing = None,
      ts_dispatched = {#}, ts_replied = {#}, ts_lost = {#}\<rparr>"
  by (simp add: threads_defs completions_ok_def queued_ids_def Start_fields [OF assms])

lemma server_reachable_inv: "server_reachable ts \<Longrightarrow> threads_inv ts"
  by (induction rule: server_reachable.induct) (auto intro: Start_inv server_step_inv)

end
