(* ===== verification/Memrpc_ServerProps.thy ===== *)
theory Memrpc_ServerProps
  imports Memrpc_ServerThreads
begin

text \<open>
  What the server guarantees: \<^verbatim>\<open>Stop\<close> ends every thread and releases every waiter, \<^verbatim>\<open>DrainQueue\<close> moves requests in
  order, no request is lost silently, replies fit their ring entries.  The dispatcher's lemmas use the request
  queue only through the contract \<open>bounded_fifo\<close> of the session.
\<close>

section \<open>Stopping\<close>

text \<open>What stays the same while the threads end: the session, the executors and the kernel's logs.\<close>

definition logs_kept :: "World \<Rightarrow> World \<Rightarrow> bool" where
  "logs_kept w w' \<longleftrightarrow> ss_closed (wd_sys w') = ss_closed (wd_sys w) \<and> ss_maps (wd_sys w') = ss_maps (wd_sys w)"

definition stop_frame :: "Server \<Rightarrow> World \<Rightarrow> Server \<Rightarrow> World \<Rightarrow> bool" where
  "stop_frame sv w sv' w' \<longleftrightarrow> sv_session sv' = sv_session sv \<and> sv_highExecutor sv' = sv_highExecutor sv \<and>
     sv_normalExecutor sv' = sv_normalExecutor sv \<and> sv_running sv' = sv_running sv \<and>
     sv_responseWriterRunning sv' = sv_responseWriterRunning sv \<and> sv_nextCompletion sv \<le> sv_nextCompletion sv' \<and>
     (\<forall>c < sv_nextCompletion sv. sv_completions sv c \<noteq> None \<longrightarrow> sv_completions sv' c \<noteq> None) \<and>
     (State (sv_session sv) (wd_sys w) \<noteq> SessionAlive \<longrightarrow> State (sv_session sv) (wd_sys w') \<noteq> SessionAlive) \<and>
     logs_kept w w'"

lemma stop_frame_refl: "stop_frame sv w sv w"
  by (simp add: stop_frame_def logs_kept_def)

lemma stop_frame_trans: "stop_frame sv w sv1 w1 \<Longrightarrow> stop_frame sv1 w1 sv2 w2 \<Longrightarrow> stop_frame sv w sv2 w2"
  by (simp add: stop_frame_def logs_kept_def)

lemma MarkSessionBroken_logs [simp]: "logs_kept w (MarkSessionBroken sv w)"
  by (simp add: MarkSessionBroken_def SetState_def logs_kept_def Let_def)

lemma FinishItem_frame:
  "FinishItem status item sv w = (sv', w') \<Longrightarrow> stop_frame sv w sv' w' \<and> sv_completionQueue sv' = sv_completionQueue sv \<and>
     sv_completions sv' (ci_completion item) \<noteq> None \<and> sv_pendingSubmittedTasks sv' = sv_pendingSubmittedTasks sv"
  using MarkSessionBroken_logs [of w sv] MarkSessionBroken_logs [of "RemoveResponseFilePayloadIfPresent (ci_entry item) w" sv]
  by (auto simp: FinishItem_def Let_def stop_frame_def logs_kept_def OnCompletionItemFinished_def CompleteItem_def split: if_splits)

lemma push_broken:
  "State (sv_session sv) (wd_sys w) \<noteq> SessionAlive \<Longrightarrow> push_loop response d sv t ts w = (PeerDisconnected, w)"
  by (subst push_loop.simps) (simp add: PushResponse_def)

lemma WriteItem_broken:
  assumes "State (sv_session sv) (wd_sys w) \<noteq> SessionAlive"
  shows "WriteItem now t ts item sv w = FinishItem PeerDisconnected item sv w"
  using push_broken [OF assms] by (simp add: WriteItem_def PushResponseWithRetry_def)

text \<open>The writer empties its queue, and every item in it is completed.\<close>

lemma writer_drain_all:
  assumes "State (sv_session sv) (wd_sys w) \<noteq> SessionAlive" "writer_drain items sv w = (sv', w')"
    "\<forall>i \<in> set items. ci_completion i < sv_nextCompletion sv" "items = [] \<longrightarrow> sv_completionQueue sv = []"
  shows "stop_frame sv w sv' w' \<and> sv_completionQueue sv' = [] \<and> (\<forall>i \<in> set items. sv_completions sv' (ci_completion i) \<noteq> None) \<and>
    sv_pendingSubmittedTasks sv' = sv_pendingSubmittedTasks sv"
  using assms
proof (induction items arbitrary: sv w)
  case Nil
  then show ?case by (simp add: stop_frame_refl)
next
  case (Cons item items)
  let ?sv = "sv\<lparr>sv_completionQueue := items\<rparr>"
  obtain sv1 w1 where fin: "FinishItem PeerDisconnected item ?sv w = (sv1, w1)"
    by (meson surj_pair)
  have drain: "writer_drain items sv1 w1 = (sv', w')"
    using Cons.prems(1,2) WriteItem_broken [of ?sv w 0 idle_turn "[]" item] fin by simp
  have f: "stop_frame ?sv w sv1 w1" "sv_completionQueue sv1 = items" "sv_completions sv1 (ci_completion item) \<noteq> None"
    "sv_pendingSubmittedTasks sv1 = sv_pendingSubmittedTasks sv"
    using FinishItem_frame [OF fin] by auto
  have "State (sv_session sv1) (wd_sys w1) \<noteq> SessionAlive"
    using f(1) Cons.prems(1) by (simp add: stop_frame_def)
  moreover have "\<forall>i \<in> set items. ci_completion i < sv_nextCompletion sv1"
    using f(1) Cons.prems(3) by (fastforce simp: stop_frame_def)
  moreover have "items = [] \<longrightarrow> sv_completionQueue sv1 = []"
    using f(2) by simp
  ultimately have IH: "stop_frame sv1 w1 sv' w' \<and> sv_completionQueue sv' = [] \<and>
      (\<forall>i \<in> set items. sv_completions sv' (ci_completion i) \<noteq> None) \<and>
      sv_pendingSubmittedTasks sv' = sv_pendingSubmittedTasks sv1"
    using Cons.IH [OF _ drain] by blast
  have "stop_frame sv w sv1 w1"
    using f(1) by (simp add: stop_frame_def)
  moreover have "sv_completions sv' (ci_completion item) \<noteq> None"
    using IH f(1,3) Cons.prems(3) by (auto simp: stop_frame_def)
  ultimately show ?case
    using IH f(4) stop_frame_trans by auto
qed

lemma BeginWrite_stopped:
  assumes "\<not> sv_responseWriterRunning sv" "BeginWriteResponse e reply sv w = (r, sv', w')"
  shows "\<exists>st. r = Inl st"
  using assms by (auto simp: BeginWriteResponse_def EnqueueCompletion_def Let_def split: prod.splits if_splits)

lemma BeginWrite_logs:
  assumes "BeginWriteResponse e reply sv w = (r, sv', w')"
  shows "logs_kept w w'"
proof -
  obtain st p k w1 where prep: "PrepareResponsePayloadForTransport (rp_payload reply) sv w = (st, p, k, w1)"
    by (metis prod_cases4)
  have "logs_kept w (MarkSessionBroken sv'' (RemoveResponseFilePayloadIfPresent entry w1))" for sv'' entry
    using PrepareResponse_sys [OF prep] MarkSessionBroken_logs [of "RemoveResponseFilePayloadIfPresent entry w1" sv'']
    by (simp add: logs_kept_def)
  moreover have "logs_kept w w1"
    using PrepareResponse_sys [OF prep] by (simp add: logs_kept_def)
  ultimately show ?thesis
    using assms by (auto simp: BeginWriteResponse_def prep Let_def split: prod.splits if_splits)
qed

lemma ProcessEntry_stopped:
  assumes "\<not> sv_responseWriterRunning sv" "State (sv_session sv) (wd_sys w) \<noteq> SessionAlive"
    "ProcessEntry now entry sv w = (r, sv', w')"
  shows "stop_frame sv w sv' w' \<and> sv_completionQueue sv' = sv_completionQueue sv \<and>
    sv_pendingCompletionCount sv' = sv_pendingCompletionCount sv \<and>
    sv_pendingSubmittedTasks sv' = sv_pendingSubmittedTasks sv"
proof (cases r)
  case None
  then have "sv' = sv" "w' = w"
    using assms(3) by (auto simp: ProcessEntry_def split: if_splits option.splits prod.splits)
  then show ?thesis by (simp add: stop_frame_refl)
next
  case (Some x)
  with assms(3) obtain reply e w1 where bw: "BeginWriteResponse entry reply (sv\<lparr>sv_activeExecutions := e\<rparr>) w1 = (x, sv', w')"
    and w1: "wd_sys w1 = wd_sys w"
    using ProcessEntry_write by metis
  then obtain st where "x = Inl st" using BeginWrite_stopped [OF _ bw] assms(1) by auto
  note ref = BeginWriteResponse_refused [OF bw [unfolded this]]
  show ?thesis
    using ref BeginWrite_logs [OF bw] w1 by (auto simp: stop_frame_def logs_kept_def without_item_def)
qed

lemma FinishTask_frame: "stop_frame sv w (FinishTask entry sv) w"
  "unat (sv_pendingSubmittedTasks sv) = Suc n \<Longrightarrow> unat (sv_pendingSubmittedTasks (FinishTask entry sv)) = n"
  using pop_pending [of "sv_pendingSubmittedTasks sv" n "sv_pendingSubmittedTasks sv"]
  by (auto simp: stop_frame_def logs_kept_def FinishTask_def ReleaseSubmittedTaskToken_def MarkExecutionFinished_def)

lemma finish_all:
  "unat (sv_pendingSubmittedTasks sv) = length es + n \<Longrightarrow>
     stop_frame sv w (fold FinishTask es sv) w \<and> unat (sv_pendingSubmittedTasks (fold FinishTask es sv)) = n \<and>
     sv_completionQueue (fold FinishTask es sv) = sv_completionQueue sv \<and>
     sv_pendingCompletionCount (fold FinishTask es sv) = sv_pendingCompletionCount sv"
proof (induction es arbitrary: sv)
  case Nil
  then show ?case by (simp add: stop_frame_refl)
next
  case (Cons e es)
  have "unat (sv_pendingSubmittedTasks (FinishTask e sv)) = length es + n"
    using FinishTask_frame(2) [of sv "length es + n"] Cons.prems by simp
  from Cons.IH [OF this] show ?case
    using stop_frame_trans [OF FinishTask_frame(1)] by auto
qed

lemma run_tasks_stopped:
  assumes "\<not> sv_responseWriterRunning sv" "State (sv_session sv) (wd_sys w) \<noteq> SessionAlive"
    "run_tasks now tasks sv w = (sv', w')" "unat (sv_pendingSubmittedTasks sv) = length tasks + n"
  shows "stop_frame sv w sv' w' \<and> unat (sv_pendingSubmittedTasks sv') = n \<and>
    sv_completionQueue sv' = sv_completionQueue sv \<and> sv_pendingCompletionCount sv' = sv_pendingCompletionCount sv"
  using assms
proof (induction tasks arbitrary: sv w)
  case Nil
  then show ?case by (simp add: stop_frame_refl)
next
  case (Cons e tasks)
  obtain r sv1 w1 where pe: "ProcessEntry now e sv w = (r, sv1, w1)"
    by (metis prod_cases3)
  note p = ProcessEntry_stopped [OF Cons.prems(1,2) pe]
  have frame: "stop_frame sv w (FinishTask e sv1) w1"
    using p stop_frame_trans [OF _ FinishTask_frame(1)] by blast
  have "unat (sv_pendingSubmittedTasks (FinishTask e sv1)) = length tasks + n"
    using FinishTask_frame(2) [of sv1 "length tasks + n"] p Cons.prems(4) by simp
  moreover have "run_tasks now tasks (FinishTask e sv1) w1 = (sv', w')"
    using Cons.prems(3) pe by simp
  ultimately have "stop_frame (FinishTask e sv1) w1 sv' w' \<and> unat (sv_pendingSubmittedTasks sv') = n \<and>
      sv_completionQueue sv' = sv_completionQueue (FinishTask e sv1) \<and>
      sv_pendingCompletionCount sv' = sv_pendingCompletionCount (FinishTask e sv1)"
    using frame Cons.prems(1,2) by (intro Cons.IH) (auto simp: stop_frame_def)
  with frame p show ?case
    using stop_frame_trans by auto
qed

lemma FailPending_empty:
  "sv_completionQueue sv = [] \<Longrightarrow> FailPendingCompletionItems st sv w = (sv\<lparr>sv_completionQueue := [], sv_pendingCompletionCount := 0\<rparr>, w)"
  by (simp add: FailPendingCompletionItems_def)

lemma signal_if_open_sys [simp]: "wd_sys (signal_if_open fd w) = wd_sys w"
  by (simp add: signal_if_open_def)

lemma StopResponseWriter_all:
  assumes "StopResponseWriter sv w = (sv', w')" "State (sv_session sv) (wd_sys w) \<noteq> SessionAlive"
    "\<forall>i \<in> set (sv_completionQueue sv). ci_completion i < sv_nextCompletion sv" "\<not> sv_responseWriterRunning sv"
  shows "stop_frame sv w sv' w' \<and> sv_completionQueue sv' = [] \<and> sv_pendingCompletionCount sv' = 0 \<and>
    (\<forall>i \<in> set (sv_completionQueue sv). sv_completions sv' (ci_completion i) \<noteq> None) \<and>
    sv_pendingSubmittedTasks sv' = sv_pendingSubmittedTasks sv"
proof -
  let ?w = "signal_if_open (bh_respCreditEventFd (se_handles (sv_session sv))) w"
  have sv: "sv\<lparr>sv_responseWriterRunning := False\<rparr> = sv"
    using assms(4) by (cases sv) simp
  obtain sv1 w1 where dr: "writer_drain (sv_completionQueue sv) sv ?w = (sv1, w1)"
    by (meson surj_pair)
  have d: "stop_frame sv ?w sv1 w1 \<and> sv_completionQueue sv1 = [] \<and>
      (\<forall>i \<in> set (sv_completionQueue sv). sv_completions sv1 (ci_completion i) \<noteq> None) \<and>
      sv_pendingSubmittedTasks sv1 = sv_pendingSubmittedTasks sv"
    using assms(2,3) by (intro writer_drain_all [OF _ dr]) simp_all
  then have "sv' = sv1\<lparr>sv_completionQueue := [], sv_pendingCompletionCount := 0\<rparr>" "w' = w1"
    using assms(1) FailPending_empty [of sv1 PeerDisconnected w1] by (simp_all add: StopResponseWriter_def Let_def sv dr)
  with d show ?thesis
    by (auto simp: stop_frame_def logs_kept_def)
qed

definition outstanding_tasks :: "RequestRingEntry list \<Rightarrow> RequestRingEntry list \<Rightarrow> Server \<Rightarrow> nat" where
  "outstanding_tasks inflight awaiting sv = length inflight + length awaiting +
     length (executor_queue HighRequest sv) + length (executor_queue NormalRequest sv)"

lemma Reset_closes:
  "ss_closed (snd (Reset env se sys)) = ss_closed sys @ open_fds (se_handles se)"
  by (simp add: Reset_def CloseHandles_log ReleaseClientAttachment_def sys_munmap_def Let_def)


section \<open>Draining a request ring\<close>

lemma executor_other: "k' \<noteq> ResponseQueue \<Longrightarrow> k \<noteq> ResponseQueue \<Longrightarrow> k' \<noteq> k \<Longrightarrow> executor k' (put_executor k ex sv) = executor k' sv"
  by (cases k; cases k') auto

text \<open>One turn, on the abstract queue: it takes the first request when the executor has room.\<close>

lemma ring_count_contents: "RingCount (rg_cursor r) = of_nat (length (ring_contents r))"
  by simp

lemma DrainIteration_queue:
  assumes "request_queue_inv kind (sv_session sv) (wd_sys w)" "executor kind sv = Some ex" "ex_running ex"
  defines "q \<equiv> \<lambda>w. ring_contents (request_ring kind (ss_objs (wd_sys w) (se_obj (sv_session sv))))"
    and "cap \<equiv> ring_cap (request_ring kind (ss_objs (wd_sys w) (se_obj (sv_session sv))))"
  shows "if length (ex_queue ex) < ex_capacity ex \<and> q w \<noteq> []
     then \<exists>w'. DrainIteration kind sv w = Some (length (q w) = cap,
         put_executor kind (ex\<lparr>ex_queue := ex_queue ex @ [hd (q w)]\<rparr>) (TakeSubmittedTaskToken sv), w') \<and>
       q w' = tl (q w) \<and> request_queue_inv kind (sv_session sv) (wd_sys w') \<and> wd_events w' = wd_events w \<and>
       ring_cap (request_ring kind (ss_objs (wd_sys w') (se_obj (sv_session sv)))) = cap
     else DrainIteration kind sv w = None"
proof -
  obtain popped sys where pop: "PopRequest kind (sv_session sv) (wd_sys w) = (popped, sys)"
    by (meson surj_pair)
  let ?r = "request_ring kind (ss_objs sys (se_obj (sv_session sv)))"
  have spec: "(popped, ring_contents ?r) = spec_pop (q w)" "request_queue_inv kind (sv_session sv) sys" "ring_cap ?r = cap"
    using request_queue.pop_spec [OF assms(1)] request_queue.pop_inv [OF assms(1)] pop by (simp_all add: q_def cap_def)
  show ?thesis
  proof (cases "q w")
    case Nil
    then have "popped = None" using spec(1) by (simp add: spec_pop_def)
    with Nil show ?thesis by (simp add: DrainIteration_def assms(2) pop)
  next
    case (Cons e es)
    then have p: "popped = Some e" "ring_contents ?r = es" using spec(1) by (simp_all add: spec_pop_def)
    have "cap > 0" using assms(1) by (simp add: request_queue_inv_def ring_inv_def ring_ok_def cap_def)
    then have nz: "rc_capacity (rg_cursor ?r) \<noteq> 0" using spec(3) by auto
    have "length es < cap" "cap < 2 ^ 32"
      using assms(1) Cons length_ring_contents [of "request_ring kind (ss_objs (wd_sys w) (se_obj (sv_session sv)))"]
        unat_less_pow [of "rc_capacity (rg_cursor ?r)"] spec(3)
      by (auto simp: q_def cap_def request_queue_inv_def ring_inv_def ring_ok_def)
    then have "unat (RingCount (rg_cursor ?r) + 1) = Suc (length es)"
      using p(2) length_ring_contents [of ?r] by (auto simp: unat_word_ariths)
    then have full: "(RingCount (rg_cursor ?r) + 1 = rc_capacity (rg_cursor ?r)) = (Suc (length es) = cap)"
      using spec(3) by (metis word_unat_eq_iff)
    show ?thesis
      using Cons spec(2,3) p nz full
      by (auto simp: DrainIteration_def assms(2,3) pop HasCapacity_def TrySubmit_def Let_def q_def)
  qed
qed

definition pending_requests :: "QueueKind \<Rightarrow> Server \<Rightarrow> World \<Rightarrow> RequestRingEntry list" where
  "pending_requests kind sv w = ring_contents (request_ring kind (ss_objs (wd_sys w) (se_obj (sv_session sv))))"

definition drain_count :: "QueueKind \<Rightarrow> Executor \<Rightarrow> Server \<Rightarrow> World \<Rightarrow> nat" where
  "drain_count kind ex sv w = min (ex_capacity ex - length (ex_queue ex)) (length (pending_requests kind sv w))"

abbreviation request_cap :: "QueueKind \<Rightarrow> Server \<Rightarrow> World \<Rightarrow> nat" where
  "request_cap kind sv w \<equiv> ring_cap (request_ring kind (ss_objs (wd_sys w) (se_obj (sv_session sv))))"

lemma drain_queue_loop_result:
  assumes "request_queue_inv kind (sv_session sv) (wd_sys w)" "executor kind sv = Some ex" "ex_running ex"
    "length (pending_requests kind sv w) \<le> request_cap kind sv w"
    "drain_queue_loop kind d r sv w = (d', r', sv', w')"
  shows "(let n = drain_count kind ex sv w in
    (d' \<longleftrightarrow> d \<or> n > 0) \<and> (r' \<longleftrightarrow> r \<or> n > 0 \<and> length (pending_requests kind sv w) = request_cap kind sv w) \<and>
    executor kind sv' = Some (ex\<lparr>ex_queue := ex_queue ex @ take n (pending_requests kind sv w)\<rparr>) \<and>
    pending_requests kind sv' w' = drop n (pending_requests kind sv w)) \<and>
    sv_session sv' = sv_session sv \<and> wd_events w' = wd_events w"
  using assms
proof (induction kind d r sv w arbitrary: ex rule: drain_queue_loop.induct)
  case (1 kind d r sv w)
  let ?q = "pending_requests kind sv w"
  note it = DrainIteration_queue [OF 1(2,3,4), folded pending_requests_def]
  show ?case
  proof (cases "length (ex_queue ex) < ex_capacity ex \<and> ?q \<noteq> []")
    case False
    with it have "DrainIteration kind sv w = None" by auto
    moreover have n: "drain_count kind ex sv w = 0" using False by (auto simp: drain_count_def)
    ultimately show ?thesis
      using 1(3,6) by (simp add: drain_queue_loop.simps [of kind d r sv w] Let_def)
  next
    case True
    let ?ex = "ex\<lparr>ex_queue := ex_queue ex @ [hd ?q]\<rparr>" and ?sv = "TakeSubmittedTaskToken sv"
    let ?sv1 = "put_executor kind ?ex ?sv"
    have se: "sv_session ?sv1 = sv_session sv" by (simp add: TakeSubmittedTaskToken_def)
    obtain w1 where step: "DrainIteration kind sv w = Some (length ?q = request_cap kind sv w, ?sv1, w1)"
      and w1: "pending_requests kind sv w1 = tl ?q" "request_queue_inv kind (sv_session sv) (wd_sys w1)"
        "wd_events w1 = wd_events w" "request_cap kind sv w1 = request_cap kind sv w"
      using it True by (auto simp: pending_requests_def)
    have q1: "pending_requests kind ?sv1 w1 = tl ?q" using w1(1) se by (simp add: pending_requests_def)
    have n: "drain_count kind ex sv w = Suc (drain_count kind ?ex ?sv1 w1)"
      using True q1 by (cases ?q) (auto simp: drain_count_def)
    have lt: "length (tl ?q) < request_cap kind sv w" using True 1(5) by (cases ?q) auto
    have loop: "drain_queue_loop kind True (r \<or> length ?q = request_cap kind sv w) ?sv1 w1 = (d', r', sv', w')"
      using 1(6) step by (simp add: drain_queue_loop.simps [of kind d r sv w])
    have "(let n = drain_count kind ?ex ?sv1 w1 in
      (d' \<longleftrightarrow> True) \<and> (r' \<longleftrightarrow> (r \<or> length ?q = request_cap kind sv w) \<or> n > 0 \<and> length (tl ?q) = request_cap kind sv w) \<and>
      executor kind sv' = Some (?ex\<lparr>ex_queue := ex_queue ?ex @ take n (tl ?q)\<rparr>) \<and>
      pending_requests kind sv' w' = drop n (tl ?q)) \<and> sv_session sv' = sv_session sv \<and> wd_events w' = wd_events w1"
      using 1(1) [OF step refl refl, of ?ex] w1 q1 se lt loop 1(4) by (simp add: Let_def less_imp_le)
    then show ?thesis
      using n lt w1(3) True by (cases ?q) (auto simp: Let_def)
  qed
qed

text \<open>C25: \<^verbatim>\<open>DrainQueue\<close> moves requests from the ring to the executor in order.  It takes as many as there are, or as many as
  the executor has room for, appends them in ring order and leaves the others; it reports whether it took any, and
  signals request credit exactly when it made room in a full ring.\<close>

theorem DrainQueue_moves:
  assumes "request_queue_inv kind (sv_session sv) (wd_sys w)" "executor kind sv = Some ex" "ex_running ex"
    "DrainQueue kind sv w = (drained, sv', w')"
  shows "let q = pending_requests kind sv w; n = drain_count kind ex sv w; credit = bh_reqCreditEventFd (se_handles (sv_session sv))
    in (drained \<longleftrightarrow> n > 0) \<and> executor kind sv' = Some (ex\<lparr>ex_queue := ex_queue ex @ take n q\<rparr>) \<and>
       pending_requests kind sv' w' = drop n q \<and>
       wd_events w' = (if n > 0 \<and> length q = request_cap kind sv w then wd_events (snd (SignalEventFd credit w)) else wd_events w)"
proof -
  obtain d r sv1 w1 where loop: "drain_queue_loop kind False False sv w = (d, r, sv1, w1)"
    by (metis prod_cases4)
  have "Valid (sv_session sv)" "length (pending_requests kind sv w) \<le> request_cap kind sv w"
    using assms(1) by (auto simp: request_queue_inv_def usable_def Valid_def pending_requests_def ring_inv_def ring_ok_def)
  moreover from drain_queue_loop_result [OF assms(1-3) this(2) loop]
  have "(let n = drain_count kind ex sv w in (d \<longleftrightarrow> n > 0) \<and>
      (r \<longleftrightarrow> n > 0 \<and> length (pending_requests kind sv w) = request_cap kind sv w) \<and>
      executor kind sv1 = Some (ex\<lparr>ex_queue := ex_queue ex @ take n (pending_requests kind sv w)\<rparr>) \<and>
      pending_requests kind sv1 w1 = drop n (pending_requests kind sv w))"
    "sv_session sv1 = sv_session sv" "wd_events w1 = wd_events w"
    by simp_all
  moreover have "wd_events (snd (SignalEventFd fd w1)) = wd_events (snd (SignalEventFd fd w))" for fd
    using \<open>wd_events w1 = wd_events w\<close> by (simp add: SignalEventFd_def split: prod.splits)
  ultimately show ?thesis
    using assms(2,4) by (auto simp: DrainQueue_def loop Let_def pending_requests_def)
qed

section \<open>Properties of the threads\<close>

text \<open>C2: No request is lost silently.  In every state the threads can reach, each request taken from a ring is, as
  many times as it was taken, exactly one of: queued in an executor, held by a worker, a reply in the completion
  queue or with the writer, a reply in the response ring, or lost; and if any is lost the session is broken, so
  that the client learns of it.\<close>

theorem server_no_silent_loss:
  assumes "server_reachable ts"
  shows "ts_dispatched ts = mset (map rq_requestId (executor_queue HighRequest (ts_server ts) @
        executor_queue NormalRequest (ts_server ts) @ ts_taken ts)) + reply_ids (in_flight ts) + ts_replied ts + ts_lost ts \<and>
    (ts_lost ts \<noteq> {#} \<longrightarrow> State (sv_session (ts_server ts)) (wd_sys (ts_world ts)) \<noteq> SessionAlive)"
  using server_reachable_inv [OF assms]
  by (simp add: threads_inv_def accounted_def loss_breaks_def queued_ids_def)

text \<open>C20: The completion queue is bounded and nobody waits in vain.  \<^verbatim>\<open>pendingCompletionCount\<close> counts the queued items and the one
  being written, and never exceeds the capacity; and the completion a worker waits for is ready, or its item is
  still queued or being written.\<close>

theorem server_completions_tracked:
  assumes "server_reachable ts"
  shows "unat (sv_pendingCompletionCount (ts_server ts)) = length (in_flight ts) \<and>
    sv_pendingCompletionCount (ts_server ts) \<le> sv_completionQueueCapacity (ts_server ts) \<and>
    (\<forall>entry c. (entry, c) \<in> set (ts_waiting ts) \<longrightarrow>
       AwaitWriteCompletion c (ts_server ts) \<noteq> None \<or> c \<in> ci_completion ` set (in_flight ts))"
proof -
  have "completions_ok (snd ` set (ts_waiting ts)) (ci_completion ` set (in_flight ts))
     (sv_completions (ts_server ts)) (sv_nextCompletion (ts_server ts))" and "backlog_ok ts"
    using server_reachable_inv [OF assms] by (simp_all add: threads_inv_def waiters_ok_def)
  then show ?thesis
    by (force simp: backlog_ok_def completions_ok_def AwaitWriteCompletion_def)
qed

text \<open>The transport payload of a reply fits the entry.\<close>

lemma PrepareResponse_fits:
  assumes "PrepareResponsePayloadForTransport payload sv w = (Ok, p, k, w')"
  shows "length p \<le> unat (se_maxResponseBytes (sv_session sv))" "length p \<le> ResponseRingEntry_INLINE_PAYLOAD_BYTES"
  using assms
  by (auto simp: PrepareResponsePayloadForTransport_def PrepareFilePayloadForTransport_def Let_def
      split: if_splits prod.splits option.splits)

lemma BuildReplyEntry_fits:
  assumes "length (rp_payload reply) \<le> ResponseRingEntry_INLINE_PAYLOAD_BYTES"
  shows "length (rs_payload (BuildReplyEntry entry reply k)) = ResponseRingEntry_INLINE_PAYLOAD_BYTES"
    "unat (rs_resultSize (BuildReplyEntry entry reply k)) = length (rp_payload reply)"
    "take (length (rp_payload reply)) (rs_payload (BuildReplyEntry entry reply k)) = rp_payload reply"
proof -
  have "length (rp_payload reply) < 2 ^ 32" using assms by (simp add: response_inline_bytes)
  then show "length (rs_payload (BuildReplyEntry entry reply k)) = ResponseRingEntry_INLINE_PAYLOAD_BYTES"
    "unat (rs_resultSize (BuildReplyEntry entry reply k)) = length (rp_payload reply)"
    "take (length (rp_payload reply)) (rs_payload (BuildReplyEntry entry reply k)) = rp_payload reply"
    using assms by (simp_all add: BuildReplyEntry_def length_copy_into default_ResponseRingEntry_def unat_of_nat)
qed

text \<open>C23: No handler and no request makes the server write past a ring entry.  Whatever the request holds and however large
  the reply of the handler is, the entry queued for it keeps the array length of the protocol, and its result
  size is within the array and within the response limit of the session.\<close>

theorem ProcessEntry_reply_fits:
  assumes "ProcessEntry now entry sv w = (Some (Inr completion), sv', w')"
  shows "\<exists>item. sv_completionQueue sv' = sv_completionQueue sv @ [item] \<and>
    rs_requestId (ci_entry item) = rq_requestId entry \<and>
    length (rs_payload (ci_entry item)) = ResponseRingEntry_INLINE_PAYLOAD_BYTES \<and>
    unat (rs_resultSize (ci_entry item)) \<le> ResponseRingEntry_INLINE_PAYLOAD_BYTES \<and>
    unat (rs_resultSize (ci_entry item)) \<le> unat (se_maxResponseBytes (sv_session sv))"
proof -
  obtain reply e w1 where bw: "BeginWriteResponse entry reply (sv\<lparr>sv_activeExecutions := e\<rparr>) w1 = (Inr completion, sv', w')"
    using assms by (rule ProcessEntry_write)
  obtain st p k w2 where prep: "PrepareResponsePayloadForTransport (rp_payload reply) (sv\<lparr>sv_activeExecutions := e\<rparr>) w1 = (st, p, k, w2)"
    by (metis prod_cases4)
  let ?fits = "\<lambda>r. length (rp_payload r) \<le> ResponseRingEntry_INLINE_PAYLOAD_BYTES \<and>
    length (rp_payload r) \<le> unat (se_maxResponseBytes (sv_session sv))"
  have "\<exists>r k. ?fits r \<and> sv_completionQueue sv' = sv_completionQueue sv @
      [BuildResponseCompletionItem (BuildReplyEntry entry r k) completion]"
  proof (cases "st = PayloadTooLarge")
    case True
    have "?fits (reply\<lparr>rp_status := PayloadTooLarge, rp_payload := []\<rparr>)" by simp
    moreover have "sv_completionQueue sv' = sv_completionQueue sv @ [BuildResponseCompletionItem
        (BuildReplyEntry entry (reply\<lparr>rp_status := PayloadTooLarge, rp_payload := []\<rparr>) PAYLOAD_KIND_INLINE) completion]"
      using bw True by (auto simp: BeginWriteResponse_def prep EnqueueCompletion_def Let_def split: if_splits)
    ultimately show ?thesis by blast
  next
    case False
    then have ok: "st = Ok" and q: "sv_completionQueue sv' = sv_completionQueue sv @ [BuildResponseCompletionItem
        (BuildReplyEntry entry (reply\<lparr>rp_payload := p\<rparr>) k) completion]"
      using bw by (auto simp: BeginWriteResponse_def prep EnqueueCompletion_def Let_def split: if_splits)
    have "?fits (reply\<lparr>rp_payload := p\<rparr>)"
      using PrepareResponse_fits [OF prep [unfolded ok]] by simp
    with q show ?thesis by blast
  qed
  then show ?thesis
    by (auto simp: BuildResponseCompletionItem_def BuildReplyEntry_fits)
      (auto simp: BuildReplyEntry_def)
qed

text \<open>C40: A request for an opcode without handler leaves its payload file behind.  \<^verbatim>\<open>InvokeHandler\<close> answers \<open>InvalidArgument\<close>
  before it looks at the payload, so for any request, in particular one whose payload was moved to a file, the
  file system is as before: nobody removes the file.\<close>

theorem InvokeHandler_unknown_opcode_keeps_file:
  assumes "map_of (sv_handlers sv) (rq_opcode entry) = None" "Valid (sv_session sv)" "invalid_transport entry sv = None"
    "ProcessEntry now entry sv w = (Some r, sv', w')" "EnqueueCompletion item sv = (True, sv'')"
  shows "wd_fs w' = wd_fs w \<and> (\<exists>item. sv_completionQueue sv' = sv_completionQueue sv @ [item] \<and>
    rs_statusCode (ci_entry item) = StatusCode_u32 InvalidArgument)"
proof -
  have "PrepareResponsePayloadForTransport [] sv2 w = (Ok, [], PAYLOAD_KIND_INLINE, w)" if "Valid (sv_session sv2)" for sv2
    using that by (simp add: PrepareResponsePayloadForTransport_def PrepareFilePayloadForTransport_def Let_def)
  then show ?thesis
    using assms
    by (auto simp: ProcessEntry_def InvokeHandler_def BeginWriteResponse_def default_RpcReply_def MarkExecutionStarted_def
        EnqueueCompletion_def BuildResponseCompletionItem_def BuildReplyEntry_def Let_def split: if_splits)
qed

section \<open>Witnesses\<close>

text \<open>A server with an echo handler, started on the demonstration object; a client then leaves one request in the ring.\<close>

definition demo_options :: ServerOptions where
  "demo_options = \<lparr>so_highWorkerThreads = 1, so_normalWorkerThreads = 2, so_completionQueueCapacity = 0,
     so_highExecutor = None, so_normalExecutor = None\<rparr>"

definition demo_server0 :: Server where
  "demo_server0 = RegisterHandler 1 (Some (\<lambda>call reply. reply\<lparr>rp_payload := sc_payload call\<rparr>))
     (new_RpcServer demo_handles demo_options)"

definition demo_server :: Server where
  "demo_server = demo_server0\<lparr>sv_running := True, sv_handles := MakeDefaultBootstrapHandles, sv_session := demo_session,
     sv_highExecutor := Some (ThreadPoolExecutor 1), sv_normalExecutor := Some (ThreadPoolExecutor 2),
     sv_completionQueueCapacity := 8, sv_responseWriterRunning := True\<rparr>"

definition demo_request :: RequestRingEntry where
  "demo_request = default_RequestRingEntry\<lparr>rq_requestId := 5, rq_opcode := 1\<rparr>"

definition demo_ring_world :: World where
  "demo_ring_world = demo_world\<lparr>wd_sys := snd (PushRequest id HighRequest demo_request demo_session demo_sys)\<rparr>"

lemma demo_server_fields [simp]:
  "sv_session demo_server = demo_session" "sv_running demo_server" "sv_responseWriterRunning demo_server"
  "sv_completionQueue demo_server = []" "sv_pendingCompletionCount demo_server = 0" "sv_completionQueueCapacity demo_server = 8"
  "sv_highExecutor demo_server = Some \<lparr>ex_running = True, ex_queue = [], ex_capacity = 1\<rparr>"
  "sv_normalExecutor demo_server = Some \<lparr>ex_running = True, ex_queue = [], ex_capacity = 2\<rparr>"
  "map_of (sv_handlers demo_server) 2 = None" "sv_pendingSubmittedTasks demo_server = 0"
  by (simp_all add: demo_server_def demo_server0_def RegisterHandler_def new_RpcServer_def ThreadPoolExecutor_def)

lemma State_mmap: "State se (sys_mmap n sys) = State se sys"
  by (simp add: State_def)

lemma demo_start:
  "\<exists>w. Start lp64_abi demo_env demo_server0 demo_world = (Ok, demo_server, w) \<and> State demo_session (wd_sys w) = SessionAlive"
proof -
  have "given_handles (Some demo_handles) = demo_handles"
    "cleared_handles (Some demo_handles) = Some MakeDefaultBootstrapHandles"
    "ss_fdobj demo_sys (bh_shmFd demo_handles) = 3" "ss_objs demo_sys 3 = demo_shm" "shm_header demo_shm = demo_header"
    by (simp_all add: given_handles_def cleared_handles_def demo_sys_def demo_handles_def demo_shm_def)
  then have attach: "\<exists>n. Attach lp64_abi demo_env (Some demo_handles) ServerRole default_Session demo_sys =
      (Ok, Some MakeDefaultBootstrapHandles, demo_session, sys_mmap n demo_sys)"
    using Attach_adopt [OF lp64_ok, of demo_env "Some demo_handles" default_Session demo_sys ServerRole]
    by (auto simp: demo_reset demo_status)
  then obtain n where "Attach lp64_abi demo_env (Some demo_handles) ServerRole default_Session demo_sys =
      (Ok, Some MakeDefaultBootstrapHandles, demo_session, sys_mmap n demo_sys)"
    by blast
  moreover have "State demo_session (sys_mmap n demo_sys) = SessionAlive"
    using demo_usable State_mmap [of demo_session n demo_sys] by (simp add: usable_def)
  moreover have "se_responseRingSize demo_session = 8"
    by (simp add: attached_session_def header_config_def demo_shm_def demo_header_def Let_def)
  ultimately show ?thesis
    by (simp add: Start_def demo_server0_def RegisterHandler_def new_RpcServer_def demo_options_def demo_world_def
        demo_server_def Let_def)
qed

lemma demo_idle: "idle_server demo_server0"
  by (simp add: idle_server_def demo_server0_def RegisterHandler_def new_RpcServer_def demo_options_def)

lemma demo_queue: "request_queue_inv HighRequest demo_session (wd_sys demo_ring_world)"
  "pending_requests HighRequest demo_server demo_ring_world = [demo_request]"
proof -
  have obj: "ss_objs demo_sys (se_obj demo_session) = demo_shm" by (simp add: demo_sys_def)
  have inv: "request_queue_inv HighRequest demo_session demo_sys"
    unfolding request_queue_inv_def obj demo_ring_inv by (simp add: demo_usable fresh_ring8_inv)
  have "ring_contents (fresh_ring 8 default_RequestRingEntry) = []" "ring_cap (fresh_ring 8 default_RequestRingEntry) = 8"
    by (simp_all add: ring_contents_def fresh_ring_def RingCount_def)
  then show "request_queue_inv HighRequest demo_session (wd_sys demo_ring_world)"
    "pending_requests HighRequest demo_server demo_ring_world = [demo_request]"
    using request_queue.push_inv [OF inv, of demo_request] request_queue.push_spec [OF inv, of demo_request]
    by (simp_all add: demo_ring_world_def pending_requests_def obj demo_ring_inv spec_push_def del: request_ring.simps)
qed

abbreviation demo_threads :: "World \<Rightarrow> Threads" where
  "demo_threads w \<equiv> \<lparr>ts_server = demo_server, ts_world = w, ts_taken = [], ts_waiting = [], ts_writing = None,
     ts_dispatched = {#}, ts_replied = {#}, ts_lost = {#}\<rparr>"

lemma demo_threads_reachable: "server_reachable (demo_threads demo_ring_world)"
proof -
  obtain w where start: "Start lp64_abi demo_env demo_server0 demo_world = (Ok, demo_server, w)"
    and alive: "State demo_session (wd_sys w) = SessionAlive"
    using demo_start by blast
  have "State demo_session (wd_sys demo_ring_world) = SessionAlive"
    using demo_queue(1) by (simp add: request_queue_inv_def usable_def)
  then have "server_step (demo_threads w) (demo_threads demo_ring_world)"
    using environment [of "demo_threads w" demo_ring_world] alive by (simp add: keeps_broken_def)
  with started [OF demo_idle start] show ?thesis
    by (rule steps)
qed

text \<open>After the dispatcher has taken the request.\<close>

lemma demo_dispatched:
  "\<exists>ts. server_reachable ts \<and> ts_dispatched ts = {#5#} \<and> executor_queue HighRequest (ts_server ts) = [demo_request] \<and>
     ts_taken ts = [] \<and> ts_waiting ts = []"
proof -
  have obj: "executor HighRequest demo_server = Some \<lparr>ex_running = True, ex_queue = [], ex_capacity = 1\<rparr>" by simp
  obtain b w' where it: "DrainIteration HighRequest demo_server demo_ring_world =
      Some (b, put_executor HighRequest \<lparr>ex_running = True, ex_queue = [demo_request], ex_capacity = 1\<rparr>
        (TakeSubmittedTaskToken demo_server), w')"
    using DrainIteration_queue [OF _ obj, of demo_ring_world, folded pending_requests_def] demo_queue by auto
  have "fst (PopRequest HighRequest demo_session (wd_sys demo_ring_world)) = Some demo_request"
    using request_queue.pop_spec [OF demo_queue(1)] demo_queue(2) by (simp add: pending_requests_def spec_pop_def)
  then have "server_step (demo_threads demo_ring_world) ((demo_threads demo_ring_world)\<lparr>
      ts_server := put_executor HighRequest \<lparr>ex_running = True, ex_queue = [demo_request], ex_capacity = 1\<rparr>
        (TakeSubmittedTaskToken demo_server), ts_world := w', ts_dispatched := {#5#}\<rparr>)"
    using dispatch [of "demo_threads demo_ring_world" HighRequest demo_request] it by (simp add: demo_request_def)
  note run = steps [OF demo_threads_reachable this]
  show ?thesis
    by (rule exI, rule conjI, rule run) (simp add: executor_queue_def)
qed

theorem server_no_silent_loss_witness:
  "\<exists>ts. server_reachable ts \<and> ts_dispatched ts = {#5#} \<and> executor_queue HighRequest (ts_server ts) = [demo_request] \<and>
     ts_lost ts = {#}"
proof -
  obtain ts where ts: "server_reachable ts" "ts_dispatched ts = {#5#}" "executor_queue HighRequest (ts_server ts) = [demo_request]"
    using demo_dispatched by blast
  have "{#5#} = {#5#} + X \<Longrightarrow> X = {#}" for X :: "u64 multiset"
    by simp
  with server_no_silent_loss [OF ts(1)] ts show ?thesis
    by (intro exI [of _ ts]) (simp add: demo_request_def)
qed

theorem server_completions_tracked_witness:
  "\<exists>ts. server_reachable ts \<and> ts_dispatched ts = {#5#} \<and>
     sv_pendingCompletionCount (ts_server ts) \<le> sv_completionQueueCapacity (ts_server ts)"
  using demo_dispatched server_completions_tracked by blast

theorem DrainQueue_moves_witness:
  "fst (DrainQueue HighRequest demo_server demo_ring_world) \<and>
   executor HighRequest (fst (snd (DrainQueue HighRequest demo_server demo_ring_world))) =
     Some \<lparr>ex_running = True, ex_queue = [demo_request], ex_capacity = 1\<rparr>"
proof -
  obtain d sv' w' where run: "DrainQueue HighRequest demo_server demo_ring_world = (d, sv', w')"
    by (metis prod_cases3)
  have "request_queue_inv HighRequest (sv_session demo_server) (wd_sys demo_ring_world)"
    "executor HighRequest demo_server = Some \<lparr>ex_running = True, ex_queue = [], ex_capacity = 1\<rparr>"
    using demo_queue by simp_all
  from DrainQueue_moves [OF this _ run] show ?thesis
    by (simp add: run Let_def drain_count_def demo_queue(2) del: executor.simps)
qed


lemma demo_process:
  assumes "rq_payloadKind e = PAYLOAD_KIND_INLINE \<and> rq_payloadSize e = 0 \<or>
    rq_payloadKind e = PAYLOAD_KIND_FILE_REF \<and> rq_payloadSize e = 24 \<and> map_of (sv_handlers demo_server) (rq_opcode e) = None"
    "rq_opcode e \<in> {1, 2}"
  shows "\<exists>c sv' w'. ProcessEntry 0 e demo_server demo_world = (Some (Inr c), sv', w')"
proof -
  have valid: "Valid demo_session" "se_maxRequestBytes demo_session = 8000"
    by (simp_all add: attached_session_def Valid_def Let_def header_config_def demo_shm_def demo_header_def)
  then have tr: "invalid_transport e demo_server = None"
    using assms by (auto simp: invalid_transport_def Let_def PAYLOAD_KIND_INLINE_def PAYLOAD_KIND_FILE_REF_def request_inline_bytes)
  have "map_of (sv_handlers demo_server) 1 = Some (\<lambda>call reply. reply\<lparr>rp_payload := sc_payload call\<rparr>)"
    by (simp add: demo_server_def demo_server0_def RegisterHandler_def)
  then obtain st w1 where inv: "InvokeHandler e demo_server demo_world = (\<lparr>rp_status = st, rp_payload = []\<rparr>, w1)"
    using assms
    by (auto simp: InvokeHandler_def ResolveRequestPayload_def ResolveFilePayloadFromTransport_def default_RpcReply_def
        BuildServerCall_def PAYLOAD_KIND_INLINE_def PAYLOAD_KIND_FILE_REF_def)
  have sv: "sv_session (MarkExecutionStarted n i demo_server) = demo_session" "sv_responseWriterRunning (MarkExecutionStarted n i demo_server)"
    "sv_pendingCompletionCount (MarkExecutionStarted n i demo_server) = 0"
    "sv_completionQueueCapacity (MarkExecutionStarted n i demo_server) = 8" for n i
    by (simp_all add: MarkExecutionStarted_def)
  show ?thesis
    using valid tr inv
    by (simp add: ProcessEntry_def BeginWriteResponse_def PrepareResponsePayloadForTransport_def
        PrepareFilePayloadForTransport_def EnqueueCompletion_def Let_def sv split: prod.splits)
qed

theorem ProcessEntry_reply_fits_witness:
  "\<exists>item. sv_completionQueue (fst (snd (ProcessEntry 0 demo_request demo_server demo_world))) = [item] \<and>
     rs_requestId (ci_entry item) = 5 \<and> unat (rs_resultSize (ci_entry item)) \<le> 8161"
proof -
  obtain c sv' w' where "ProcessEntry 0 demo_request demo_server demo_world = (Some (Inr c), sv', w')"
    using demo_process [of demo_request] by (auto simp: demo_request_def default_RequestRingEntry_def PAYLOAD_KIND_INLINE_def)
  from ProcessEntry_reply_fits [OF this] this show ?thesis
    by (auto simp: demo_request_def response_inline_bytes)
qed

definition demo_file_request :: RequestRingEntry where
  "demo_file_request = default_RequestRingEntry\<lparr>rq_requestId := 6, rq_opcode := 2, rq_payloadKind := 1, rq_payloadSize := 24\<rparr>"

theorem InvokeHandler_unknown_opcode_keeps_file_witness:
  "wd_fs (snd (snd (ProcessEntry 0 demo_file_request demo_server demo_world))) = demo_fs"
proof -
  have f: "map_of (sv_handlers demo_server) (rq_opcode demo_file_request) = None" "Valid (sv_session demo_server)"
    by (simp_all add: demo_file_request_def Valid_def attached_session_def Let_def)
  have "se_maxRequestBytes demo_session = 8000"
    by (simp add: attached_session_def Let_def header_config_def demo_shm_def demo_header_def)
  then have tr: "invalid_transport demo_file_request demo_server = None"
    by (simp add: invalid_transport_def Let_def PAYLOAD_KIND_INLINE_def PAYLOAD_KIND_FILE_REF_def request_inline_bytes
        demo_file_request_def)
  obtain c sv' w' where run: "ProcessEntry 0 demo_file_request demo_server demo_world = (Some (Inr c), sv', w')"
    using demo_process [of demo_file_request] by (auto simp: demo_file_request_def PAYLOAD_KIND_FILE_REF_def)
  have "EnqueueCompletion item demo_server = (True, snd (EnqueueCompletion item demo_server))" for item
    by (simp add: EnqueueCompletion_def)
  from InvokeHandler_unknown_opcode_keeps_file [OF f tr run this] run show ?thesis
    by (simp add: demo_world_def)
qed

end
