(* ===== verification/Memrpc_ClientState.thy ===== *)
theory Memrpc_ClientState
  imports Memrpc_Runtime
begin

text \<open>
  The state of \<^verbatim>\<open>RpcClient\<close> (\<^verbatim>\<open>rpc_client.cpp\<close>) and its three parts: futures and the store of admitted
  requests, the session transport, and the recovery state.

  \<open>Client\<close> is the record of all parts.  The bootstrap channel is an interface that applications implement: \<open>cl_boot\<close> gives
  the outcome of its \<open>n\<close>-th call, together with the outcomes of the system calls of the attach that
  follows.  Callbacks append to logs; the recovery policy is the record of functions the application installed.
  \<open>cl_now\<close> is the monotonic clock.
\<close>

section \<open>Types\<close>

datatype ClientLifecycleState = LcUninitialized | LcActive | LcNoSession | LcCooldown | LcIdleClosed | LcRecovering | LcClosed

datatype ClientInitMode = EagerSession | LazySession

datatype ApiLifecycleState = ApiUninitialized | ApiOpen | ApiClosing | ApiClosed

datatype RecoveryAction = ActIgnore | ActRestart | ActIdleClose | ActManualShutdown

record RecoveryDecision =
  rd_action :: RecoveryAction
  rd_delayMs :: u32

record RpcFailure =
  rf_status :: StatusCode
  rf_opcode :: u16
  rf_priority :: Priority
  rf_execTimeoutMs :: u32
  rf_requestId :: u64
  rf_sessionId :: u64

record RecoveryPolicy =
  po_onFailure :: "(RpcFailure \<Rightarrow> RecoveryDecision) option"
  po_onIdle :: "(u64 \<Rightarrow> RecoveryDecision) option"
  po_onEngineDeath :: "(u64 \<Rightarrow> RecoveryDecision) option"

definition no_policy :: RecoveryPolicy where
  "no_policy = \<lparr>po_onFailure = None, po_onIdle = None, po_onEngineDeath = None\<rparr>"

record RecoveryRuntimeSnapshot =
  sn_lifecycleState :: ClientLifecycleState
  sn_recoveryPending :: bool
  sn_cooldownRemainingMs :: u32
  sn_currentSessionId :: u64

record RecoveryEventReport =
  re_previousState :: ClientLifecycleState
  re_state :: ClientLifecycleState
  re_recoveryPending :: bool
  re_cooldownDelayMs :: u32
  re_cooldownRemainingMs :: u32
  re_sessionId :: u64
  re_monotonicMs :: u64

record ExternalRecoveryRequest =
  xr_sessionId :: u64
  xr_delayMs :: u32

text \<open>A future is a number; \<open>cl_futures\<close> holds its reply once it is ready.\<close>

record PendingSubmit =
  ps_call :: RpcCall
  ps_requestId :: u64
  ps_future :: nat

record PendingInfo =
  pi_opcode :: u16
  pi_priority :: Priority
  pi_execTimeoutMs :: u32
  pi_requestId :: u64
  pi_sessionId :: u64

record PendingRequest =
  pr_future :: nat
  pr_info :: PendingInfo
  pr_waitDeadline :: "nat option"

datatype PendingRequestRecoveryAction = FailWithRecoveryPolicy | ResolvePeerDisconnected | KeepCurrentState

record BootCall =
  bc_open :: StatusCode
  bc_handles :: BootstrapHandles
  bc_attach :: AttachEnv

record Client =
  cl_abi :: abi
  cl_now :: u64
  cl_bootstrap :: bool
  cl_boot :: "nat \<Rightarrow> BootCall"
  cl_bootCalls :: nat
  cl_bootCloses :: nat
  cl_deathCallback :: bool
  cl_session :: Session
  cl_snapshot :: u64
  cl_lock :: LockEnv
  cl_recoveryCallback :: bool
  cl_reports :: "RecoveryEventReport list"
  cl_lifecycle :: ClientLifecycleState
  cl_cooldownUntilMs :: u64
  cl_generation :: u64
  cl_policy :: RecoveryPolicy
  cl_submitQueue :: "PendingSubmit list"
  cl_submitStop :: bool
  cl_watchdogStop :: bool
  cl_store :: "(u64 \<times> PendingRequest) list"
  cl_futures :: "nat \<Rightarrow> RpcReply option"
  cl_nextFuture :: nat
  cl_control :: ApiLifecycleState
  cl_workersRunning :: bool
  cl_nextRequestId :: u64
  cl_lastActivityMs :: u64
  cl_eventCallback :: bool
  cl_events :: "RpcEvent list"
  cl_creditFd :: int
  cl_creditSession :: u64

section \<open>Futures\<close>

text \<open>\<^verbatim>\<open>IsReady\<close>, and \<^verbatim>\<open>Wait\<close> once its wait is over; a future without state is \<open>None\<close>.\<close>

definition IsReady :: "nat option \<Rightarrow> Client \<Rightarrow> bool" where
  "IsReady future cl = (case future of None \<Rightarrow> False | Some f \<Rightarrow> cl_futures cl f \<noteq> None)"

definition Wait :: "nat option \<Rightarrow> Client \<Rightarrow> RpcReply option" where
  "Wait future cl =
     (case future of None \<Rightarrow> Some (default_RpcReply\<lparr>rp_status := PeerDisconnected\<rparr>) | Some f \<Rightarrow> cl_futures cl f)"

definition ResolveState :: "nat \<Rightarrow> RpcReply \<Rightarrow> Client \<Rightarrow> Client" where
  "ResolveState f reply cl =
     (if cl_futures cl f \<noteq> None then cl else cl\<lparr>cl_futures := (cl_futures cl)(f := Some reply)\<rparr>)"

definition status_reply :: "StatusCode \<Rightarrow> RpcReply" where
  "status_reply status = default_RpcReply\<lparr>rp_status := status\<rparr>"

section \<open>ClientRequestStore\<close>

definition StorePut :: "u64 \<Rightarrow> PendingRequest \<Rightarrow> Client \<Rightarrow> Client" where
  "StorePut requestId pending cl = cl\<lparr>cl_store := (requestId, pending) # filter (\<lambda>e. fst e \<noteq> requestId) (cl_store cl)\<rparr>"

definition StoreTake :: "u64 \<Rightarrow> Client \<Rightarrow> PendingRequest option \<times> Client" where
  "StoreTake requestId cl =
     (case map_of (cl_store cl) requestId of
        None \<Rightarrow> (None, cl)
      | Some pending \<Rightarrow> (Some pending, cl\<lparr>cl_store := filter (\<lambda>e. fst e \<noteq> requestId) (cl_store cl)\<rparr>))"

definition StoreTakeAll :: "Client \<Rightarrow> PendingRequest list \<times> Client" where
  "StoreTakeAll cl = (map snd (cl_store cl), cl\<lparr>cl_store := []\<rparr>)"

definition expired :: "nat \<Rightarrow> PendingRequest \<Rightarrow> bool" where
  "expired now pending = (case pr_waitDeadline pending of None \<Rightarrow> False | Some d \<Rightarrow> now \<ge> d)"

definition StoreTakeExpired :: "nat \<Rightarrow> Client \<Rightarrow> PendingRequest list \<times> Client" where
  "StoreTakeExpired now cl =
     (map snd (filter (\<lambda>e. expired now (snd e)) (cl_store cl)),
      cl\<lparr>cl_store := filter (\<lambda>e. \<not> expired now (snd e)) (cl_store cl)\<rparr>)"

section \<open>ClientSessionTransport\<close>

datatype WaitHandleAction = KeepCurrent | ClearCurrent | ReplaceCurrent

record SessionWaitHandleUpdate =
  wh_action :: WaitHandleAction
  wh_sessionId :: u64
  wh_fd :: int

definition InstallDeathCallback :: "bool \<Rightarrow> Client \<Rightarrow> Client" where
  "InstallDeathCallback callback cl = cl\<lparr>cl_deathCallback := cl_bootstrap cl \<and> callback\<rparr>"

definition SetBootstrapChannel :: "(nat \<Rightarrow> BootCall) option \<Rightarrow> Client \<Rightarrow> Client" where
  "SetBootstrapChannel channel cl =
     InstallDeathCallback True
       (case channel of
          None \<Rightarrow> cl\<lparr>cl_bootstrap := False, cl_deathCallback := False\<rparr>
        | Some b \<Rightarrow> cl\<lparr>cl_bootstrap := True, cl_boot := b, cl_bootCalls := 0\<rparr>)"

definition ClearDeathCallback :: "Client \<Rightarrow> Client" where
  "ClearDeathCallback cl = cl\<lparr>cl_deathCallback := False\<rparr>"

definition HasLiveSession :: "Client \<Rightarrow> bool" where
  "HasLiveSession cl = (cl_snapshot cl \<noteq> 0)"

text \<open>\<^verbatim>\<open>DuplicateSessionWaitHandle\<close>; \<open>dup\<close> is the outcome of the duplication.\<close>

definition DuplicateSessionWaitHandle ::
  "(BootstrapHandles \<Rightarrow> int) \<Rightarrow> (int \<Rightarrow> int) \<Rightarrow> u64 \<Rightarrow> Client \<Rightarrow> SessionWaitHandleUpdate" where
  "DuplicateSessionWaitHandle selectFd dup activeSessionId cl =
     (if cl_snapshot cl = activeSessionId \<and> cl_snapshot cl \<noteq> 0 then
        \<lparr>wh_action = KeepCurrent, wh_sessionId = cl_snapshot cl, wh_fd = - 1\<rparr>
      else if \<not> Valid (cl_session cl) then \<lparr>wh_action = ClearCurrent, wh_sessionId = cl_snapshot cl, wh_fd = - 1\<rparr>
      else
        let sourceFd = selectFd (se_handles (cl_session cl))
        in if sourceFd < 0 then \<lparr>wh_action = ClearCurrent, wh_sessionId = cl_snapshot cl, wh_fd = - 1\<rparr>
           else if dup sourceFd < 0 then \<lparr>wh_action = ClearCurrent, wh_sessionId = cl_snapshot cl, wh_fd = dup sourceFd\<rparr>
           else \<lparr>wh_action = ReplaceCurrent, wh_sessionId = cl_snapshot cl, wh_fd = dup sourceFd\<rparr>)"

definition OpenSession :: "Client \<Rightarrow> World \<Rightarrow> StatusCode \<times> Client \<times> World" where
  "OpenSession cl w =
     (if \<not> cl_bootstrap cl then (InvalidArgument, cl, w)
      else
        let call = cl_boot cl (cl_bootCalls cl); cl1 = cl\<lparr>cl_bootCalls := Suc (cl_bootCalls cl)\<rparr>
        in if bc_open call \<noteq> Ok then (bc_open call, cl1, w)
           else case Attach (cl_abi cl) (bc_attach call) (Some (bc_handles call)) ClientRole (cl_session cl1) (wd_sys w) of
             (attachStatus, handles, se, sys) \<Rightarrow>
               let cl2 = cl1\<lparr>cl_session := se\<rparr>; w1 = w\<lparr>wd_sys := sys\<rparr>
               in if attachStatus \<noteq> Ok then (attachStatus, cl2, w1)
                  else (Ok, cl2\<lparr>cl_snapshot := bh_sessionId (bc_handles call)\<rparr>,
                        w1\<lparr>wd_sys := SetState SessionAlive se (wd_sys w1)\<rparr>))"

definition close_session :: "Client \<Rightarrow> World \<Rightarrow> Client \<times> World" where
  "close_session cl w =
     (case Reset (cl_lock cl) (cl_session cl) (wd_sys w) of (se, sys) \<Rightarrow>
      (cl\<lparr>cl_snapshot := 0, cl_session := se,
          cl_bootCloses := cl_bootCloses cl + (if cl_bootstrap cl then 1 else 0)\<rparr>, w\<lparr>wd_sys := sys\<rparr>))"

definition CloseLiveSession :: "Client \<Rightarrow> World \<Rightarrow> u64 \<times> Client \<times> World" where
  "CloseLiveSession cl w = (cl_snapshot cl, close_session cl w)"

definition CloseLiveSessionIfSnapshotMatches :: "u64 \<Rightarrow> Client \<Rightarrow> World \<Rightarrow> Client \<times> World" where
  "CloseLiveSessionIfSnapshotMatches expectedSessionId cl w =
     (if cl_snapshot cl \<noteq> expectedSessionId then (cl, w)
      else if cl_snapshot cl = 0 \<or> \<not> Valid (cl_session cl) then (cl, w)
      else close_session cl w)"

section \<open>ClientRecoveryState\<close>

datatype CooldownWindowChange = CwKeep | CwClear | CwSet

definition CooldownRemaining :: "Client \<Rightarrow> u64" where
  "CooldownRemaining cl = (if cl_cooldownUntilMs cl \<le> cl_now cl then 0 else cl_cooldownUntilMs cl - cl_now cl)"

definition CooldownActive_now :: "Client \<Rightarrow> bool" where
  "CooldownActive_now cl = (cl_now cl < cl_cooldownUntilMs cl)"

definition RecoveryPending :: "Client \<Rightarrow> bool" where
  "RecoveryPending cl = (cl_lifecycle cl = LcRecovering \<or> cl_lifecycle cl = LcCooldown)"

definition PrepareForInitOpen :: "ClientLifecycleState \<Rightarrow> Client \<Rightarrow> Client" where
  "PrepareForInitOpen initialState cl = cl\<lparr>cl_cooldownUntilMs := 0, cl_lifecycle := initialState\<rparr>"

definition ApplyTransitionLocked ::
  "ClientLifecycleState \<Rightarrow> CooldownWindowChange \<Rightarrow> u64 \<Rightarrow> Client \<Rightarrow> ClientLifecycleState \<times> Client" where
  "ApplyTransitionLocked nextState change cooldownUntilMs cl =
     (cl_lifecycle cl,
      (case change of CwKeep \<Rightarrow> cl | CwClear \<Rightarrow> cl\<lparr>cl_cooldownUntilMs := 0\<rparr>
       | CwSet \<Rightarrow> cl\<lparr>cl_cooldownUntilMs := cooldownUntilMs\<rparr>)\<lparr>cl_lifecycle := nextState\<rparr>)"

definition BuildTransitionReportLocked ::
  "ClientLifecycleState \<Rightarrow> ClientLifecycleState \<Rightarrow> u32 \<Rightarrow> u64 \<Rightarrow> Client \<Rightarrow> RecoveryEventReport" where
  "BuildTransitionReportLocked previousState nextState cooldownDelayMs currentSessionId cl =
     \<lparr>re_previousState = previousState, re_state = nextState, re_recoveryPending = RecoveryPending cl,
      re_cooldownDelayMs = cooldownDelayMs, re_cooldownRemainingMs = ucast (CooldownRemaining cl),
      re_sessionId = currentSessionId, re_monotonicMs = cl_now cl\<rparr>"

definition TransitionLifecycle ::
  "ClientLifecycleState \<Rightarrow> u32 \<Rightarrow> u64 \<Rightarrow> CooldownWindowChange \<Rightarrow> u64 \<Rightarrow> Client \<Rightarrow> Client" where
  "TransitionLifecycle state cooldownDelayMs currentSessionId change cooldownUntilMs cl =
     (case ApplyTransitionLocked state change cooldownUntilMs cl of (previousState, cl1) \<Rightarrow>
      let report = BuildTransitionReportLocked previousState state cooldownDelayMs currentSessionId cl1
      in if cl_recoveryCallback cl1 then cl1\<lparr>cl_reports := cl_reports cl1 @ [report]\<rparr> else cl1)"

definition NotifyRecoveryStateChanged :: "Client \<Rightarrow> Client" where
  "NotifyRecoveryStateChanged cl = cl\<lparr>cl_generation := cl_generation cl + 1\<rparr>"

definition BeginSessionOpen :: "ClientLifecycleState \<Rightarrow> u64 \<Rightarrow> Client \<Rightarrow> Client" where
  "BeginSessionOpen lifecycleState currentSessionId cl =
     (if lifecycleState \<noteq> LcRecovering \<and> lifecycleState \<noteq> LcUninitialized
      then TransitionLifecycle LcRecovering 0 currentSessionId CwKeep 0 cl else cl)"

definition FinalizeSessionOpen :: "u64 \<Rightarrow> Client \<Rightarrow> Client" where
  "FinalizeSessionOpen currentSessionId cl =
     NotifyRecoveryStateChanged (TransitionLifecycle LcActive 0 currentSessionId CwClear 0 cl)"

definition EnterNoSession :: "u64 \<Rightarrow> Client \<Rightarrow> Client" where
  "EnterNoSession currentSessionId cl =
     NotifyRecoveryStateChanged (TransitionLifecycle LcNoSession 0 currentSessionId CwClear 0 cl)"

definition EnterIdleClosed :: "u64 \<Rightarrow> Client \<Rightarrow> Client" where
  "EnterIdleClosed currentSessionId cl =
     NotifyRecoveryStateChanged (TransitionLifecycle LcIdleClosed 0 currentSessionId CwClear 0 cl)"

definition EnterTerminalClosed :: "u64 \<Rightarrow> Client \<Rightarrow> Client" where
  "EnterTerminalClosed currentSessionId cl =
     NotifyRecoveryStateChanged (TransitionLifecycle LcClosed 0 currentSessionId CwClear 0 cl)"

definition HandleSessionOpenFailure :: "u64 \<Rightarrow> Client \<Rightarrow> Client" where
  "HandleSessionOpenFailure currentSessionId cl =
     (if cl_lifecycle cl = LcRecovering \<or> cl_lifecycle cl = LcCooldown then EnterNoSession currentSessionId cl else cl)"

definition StartRecovery :: "u32 \<Rightarrow> u64 \<Rightarrow> Client \<Rightarrow> Client" where
  "StartRecovery delayMs currentSessionId cl =
     NotifyRecoveryStateChanged
       (TransitionLifecycle (if delayMs = 0 then LcRecovering else LcCooldown) delayMs currentSessionId CwSet
          (cl_now cl + ucast delayMs) cl)"

definition GetSnapshot :: "u64 \<Rightarrow> Client \<Rightarrow> RecoveryRuntimeSnapshot" where
  "GetSnapshot currentSessionId cl =
     \<lparr>sn_lifecycleState = cl_lifecycle cl, sn_recoveryPending = RecoveryPending cl,
      sn_cooldownRemainingMs = ucast (CooldownRemaining cl), sn_currentSessionId = currentSessionId\<rparr>"

text \<open>
  The waits for the recovery state, as what they decide on the present state: \<open>None\<close> is a wait that goes on.  \<open>woken\<close> says
  that the thread comes back from a wait on the condition variable, which the source treats before its loop
  looks at the workers again.
\<close>

definition RecoveryStateWaitResultLocked :: "Client \<Rightarrow> StatusCode" where
  "RecoveryStateWaitResultLocked cl =
     (case cl_lifecycle cl of
        LcActive \<Rightarrow> Ok | LcCooldown \<Rightarrow> Ok | LcRecovering \<Rightarrow> Ok
      | LcClosed \<Rightarrow> ClientClosed
      | LcNoSession \<Rightarrow> PeerDisconnected | LcIdleClosed \<Rightarrow> PeerDisconnected | LcUninitialized \<Rightarrow> PeerDisconnected)"

definition WorkerStoppedStatus :: "Client \<Rightarrow> StatusCode" where
  "WorkerStoppedStatus cl = (if cl_control cl = ApiOpen then PeerDisconnected else ClientClosed)"

definition WaitForCooldownStepLocked :: "nat option \<Rightarrow> Client \<Rightarrow> StatusCode option" where
  "WaitForCooldownStepLocked deadline cl =
     (if cl_lifecycle cl \<noteq> LcCooldown then Some (RecoveryStateWaitResultLocked cl)
      else if cl_now cl \<ge> cl_cooldownUntilMs cl then Some Ok
      else if DeadlineReached deadline (unat (cl_now cl)) then Some CooldownActive
      else None)"

definition WaitForRetryStepLocked :: "nat option \<Rightarrow> Client \<Rightarrow> StatusCode option" where
  "WaitForRetryStepLocked deadline cl =
     (if cl_lifecycle cl \<noteq> LcRecovering then Some (RecoveryStateWaitResultLocked cl)
      else if DeadlineReached deadline (unat (cl_now cl)) then Some PeerDisconnected
      else None)"

definition WaitForCooldownToSettle :: "bool \<Rightarrow> nat option \<Rightarrow> Client \<Rightarrow> StatusCode option" where
  "WaitForCooldownToSettle woken deadline cl =
     (if woken \<and> cl_lifecycle cl \<noteq> LcCooldown then Some (RecoveryStateWaitResultLocked cl)
      else if \<not> cl_workersRunning cl then Some (WorkerStoppedStatus cl)
      else if cl_control cl \<noteq> ApiOpen then Some ClientClosed
      else WaitForCooldownStepLocked deadline cl)"

definition WaitOneRecoveryRetryTick :: "bool \<Rightarrow> nat option \<Rightarrow> Client \<Rightarrow> StatusCode option" where
  "WaitOneRecoveryRetryTick woken deadline cl =
     (if woken then Some (if cl_lifecycle cl = LcRecovering then Ok else RecoveryStateWaitResultLocked cl)
      else if \<not> cl_workersRunning cl then Some (WorkerStoppedStatus cl)
      else if cl_control cl \<noteq> ApiOpen then Some ClientClosed
      else WaitForRetryStepLocked deadline cl)"

definition ShouldRetryRecoveryStatus :: "StatusCode \<Rightarrow> RecoveryRuntimeSnapshot \<Rightarrow> bool" where
  "ShouldRetryRecoveryStatus status snapshot =
     (if sn_lifecycleState snapshot = LcClosed then False
      else (sn_lifecycleState snapshot = LcCooldown \<or> sn_lifecycleState snapshot = LcRecovering) \<and>
        (status = CooldownActive \<or> status = PeerDisconnected))"

end
