(* ===== verification/Memrpc_Client.thy ===== *)
theory Memrpc_Client
  imports Memrpc_ClientState
begin

text \<open>
  The operations of \<^verbatim>\<open>RpcClient::Impl\<close> (\<^verbatim>\<open>rpc_client.cpp\<close>): lifecycle and recovery, the submit worker, the response
  worker, the watchdog and the public calls, as functions on \<open>Client\<close> and \<open>World\<close>.

  Recovery recurses in the source: scheduling a recovery fails the admitted requests, and each failure may
  schedule a recovery.  By then the store has been emptied, so the inner call finds nothing to fail; it is
  \<open>NestedScheduleRecovery\<close>, and \<open>nested_schedule\<close> below shows that it equals the outer function there.

  A blocking loop is given by its turns: \<open>SubmitStep\<close> is one turn of \<^verbatim>\<open>SubmitOne\<close> and \<open>DrainResponseOne\<close> one turn of
  \<^verbatim>\<open>DrainResponseRing\<close>.
\<close>

section \<open>Control state\<close>

definition IsApiOpen :: "Client \<Rightarrow> bool" where
  "IsApiOpen cl = (cl_control cl = ApiOpen)"

definition CanEnsureLiveSession :: "Client \<Rightarrow> bool" where
  "CanEnsureLiveSession cl = (cl_control cl = ApiUninitialized \<or> cl_control cl = ApiOpen)"

definition FinishInit :: "Client \<Rightarrow> bool \<times> Client" where
  "FinishInit cl =
     (if cl_control cl = ApiUninitialized then (True, cl\<lparr>cl_control := ApiOpen\<rparr>) else (cl_control cl = ApiOpen, cl))"

definition BeginShutdown :: "Client \<Rightarrow> bool \<times> Client" where
  "BeginShutdown cl =
     (if cl_control cl = ApiClosing \<or> cl_control cl = ApiClosed then (False, cl) else (True, cl\<lparr>cl_control := ApiClosing\<rparr>))"

definition FinishShutdown :: "Client \<Rightarrow> Client" where
  "FinishShutdown cl = cl\<lparr>cl_control := ApiClosed\<rparr>"

definition StartRuntime :: "Client \<Rightarrow> bool \<times> Client" where
  "StartRuntime cl =
     (if cl_workersRunning cl then (False, cl)
      else (True, cl\<lparr>cl_workersRunning := True, cl_submitStop := False, cl_watchdogStop := False\<rparr>))"

definition StopRuntime :: "Client \<Rightarrow> bool \<times> Client" where
  "StopRuntime cl = (if \<not> cl_workersRunning cl then (False, cl) else (True, cl\<lparr>cl_workersRunning := False\<rparr>))"

definition RuntimeStopStatus :: "Client \<Rightarrow> StatusCode" where
  "RuntimeStopStatus cl = (if IsApiOpen cl then PeerDisconnected else ClientClosed)"

definition AdmissionStatusForInvoke :: "Client \<Rightarrow> StatusCode" where
  "AdmissionStatusForInvoke cl = (if cl_control cl = ApiOpen then Ok else ClientClosed)"

definition TouchActivity :: "Client \<Rightarrow> Client" where
  "TouchActivity cl = cl\<lparr>cl_lastActivityMs := cl_now cl\<rparr>"

definition ClearCallbacks :: "Client \<Rightarrow> Client" where
  "ClearCallbacks cl = ClearDeathCallback (cl\<lparr>cl_policy := no_policy, cl_recoveryCallback := False\<rparr>)"

definition MakePendingInfo :: "PendingSubmit \<Rightarrow> Client \<Rightarrow> PendingInfo" where
  "MakePendingInfo submit cl =
     \<lparr>pi_opcode = ca_opcode (ps_call submit), pi_priority = ca_priority (ps_call submit),
      pi_execTimeoutMs = ca_execTimeoutMs (ps_call submit), pi_requestId = ps_requestId submit,
      pi_sessionId = cl_snapshot cl\<rparr>"

definition BuildFailureReport :: "PendingInfo \<Rightarrow> StatusCode \<Rightarrow> RpcFailure" where
  "BuildFailureReport info status =
     \<lparr>rf_status = status, rf_opcode = pi_opcode info, rf_priority = pi_priority info,
      rf_execTimeoutMs = pi_execTimeoutMs info, rf_requestId = pi_requestId info, rf_sessionId = pi_sessionId info\<rparr>"

section \<open>Sessions\<close>

definition OpenSessionLocked :: "Client \<Rightarrow> World \<Rightarrow> StatusCode \<times> Client \<times> World" where
  "OpenSessionLocked cl w =
     (case OpenSession cl w of (status, cl1, w1) \<Rightarrow>
      if status \<noteq> Ok then (status, cl1, w1)
      else let cl2 = TouchActivity cl1 in (Ok, FinalizeSessionOpen (cl_snapshot cl2) cl2, w1))"

definition EnsureLiveSessionLocked :: "Client \<Rightarrow> World \<Rightarrow> StatusCode \<times> Client \<times> World" where
  "EnsureLiveSessionLocked cl w =
     (if \<not> CanEnsureLiveSession cl then (ClientClosed, cl, w)
      else if CooldownActive_now cl then (CooldownActive, cl, w)
      else if HasLiveSession cl then (Ok, cl, w)
      else case OpenSessionLocked (BeginSessionOpen (cl_lifecycle cl) (cl_snapshot cl) cl) w of (status, cl1, w1) \<Rightarrow>
        (status, if status \<noteq> Ok then HandleSessionOpenFailure (cl_snapshot cl1) cl1 else cl1, w1))"

definition MaybeReconnectImmediatelyLocked :: "u32 \<Rightarrow> Client \<Rightarrow> World \<Rightarrow> Client \<times> World" where
  "MaybeReconnectImmediatelyLocked delayMs cl w = (if delayMs = 0 then snd (EnsureLiveSessionLocked cl w) else (cl, w))"

definition CloseLiveSessionForTransportFailure :: "Client \<Rightarrow> World \<Rightarrow> Client \<times> World" where
  "CloseLiveSessionForTransportFailure cl w =
     (case CloseLiveSession cl w of (_, cl1, w1) \<Rightarrow> (NotifyRecoveryStateChanged cl1, w1))"

definition CloseSessionAndEnterIdleClosedLocked :: "u64 \<Rightarrow> Client \<Rightarrow> World \<Rightarrow> Client \<times> World" where
  "CloseSessionAndEnterIdleClosedLocked observedSessionId cl w =
     (if \<not> IsApiOpen cl then (cl, w)
      else case CloseLiveSessionIfSnapshotMatches observedSessionId cl w of (cl1, w1) \<Rightarrow>
        (EnterIdleClosed (cl_snapshot cl1) cl1, w1))"

definition EnterNoSessionWithoutLiveSessionLocked :: "Client \<Rightarrow> Client" where
  "EnterNoSessionWithoutLiveSessionLocked cl = (if \<not> IsApiOpen cl then cl else EnterNoSession (cl_snapshot cl) cl)"

definition CloseSessionAndEnterTerminalClosedLocked :: "Client \<Rightarrow> World \<Rightarrow> Client \<times> World" where
  "CloseSessionAndEnterTerminalClosedLocked cl w =
     (case CloseLiveSessionForTransportFailure cl w of (cl1, w1) \<Rightarrow> (EnterTerminalClosed (cl_snapshot cl1) cl1, w1))"

section \<open>Failing requests and scheduling recovery\<close>

text \<open>\<^verbatim>\<open>ScheduleRecoveryLocked\<close> with what it does to the admitted requests.\<close>

definition ScheduleRecoveryWith ::
  "(Client \<Rightarrow> World \<Rightarrow> Client \<times> World) \<Rightarrow> u64 \<Rightarrow> u32 \<Rightarrow> Client \<Rightarrow> World \<Rightarrow> Client \<times> World" where
  "ScheduleRecoveryWith handlePending observedSessionId delayMs cl w =
     (if \<not> IsApiOpen cl then (cl, w)
      else case CloseLiveSessionIfSnapshotMatches observedSessionId (StartRecovery delayMs observedSessionId cl) w of
        (cl1, w1) \<Rightarrow> case handlePending cl1 w1 of (cl2, w2) \<Rightarrow> MaybeReconnectImmediatelyLocked delayMs cl2 w2)"

definition ApplyRecoveryDecisionWith ::
  "(Client \<Rightarrow> World \<Rightarrow> Client \<times> World) \<Rightarrow> RecoveryDecision \<Rightarrow> u64 \<Rightarrow> Client \<Rightarrow> World \<Rightarrow> Client \<times> World" where
  "ApplyRecoveryDecisionWith handlePending decision observedSessionId cl w =
     (if \<not> IsApiOpen cl then (cl, w)
      else case rd_action decision of
        ActIgnore \<Rightarrow> (cl, w)
      | ActIdleClose \<Rightarrow> CloseSessionAndEnterIdleClosedLocked observedSessionId cl w
      | ActManualShutdown \<Rightarrow> (cl, w)
      | ActRestart \<Rightarrow> ScheduleRecoveryWith handlePending observedSessionId (rd_delayMs decision) cl w)"

definition ApplyFailureWith ::
  "(Client \<Rightarrow> World \<Rightarrow> Client \<times> World) \<Rightarrow> PendingInfo \<Rightarrow> StatusCode \<Rightarrow> Client \<Rightarrow> World \<Rightarrow> Client \<times> World" where
  "ApplyFailureWith handlePending info status cl w =
     (if \<not> IsApiOpen cl then (cl, w)
      else if pi_sessionId info \<noteq> cl_snapshot cl then (cl, w)
      else case po_onFailure (cl_policy cl) of
        None \<Rightarrow> (cl, w)
      | Some onFailure \<Rightarrow>
          ApplyRecoveryDecisionWith handlePending (onFailure (BuildFailureReport info status)) (pi_sessionId info) cl w)"

text \<open>The inner call: the store is empty.\<close>

definition NestedScheduleRecovery :: "u64 \<Rightarrow> u32 \<Rightarrow> Client \<Rightarrow> World \<Rightarrow> Client \<times> World" where
  "NestedScheduleRecovery = ScheduleRecoveryWith Pair"

definition FailAndResolveLocked :: "StatusCode \<Rightarrow> PendingRequest \<Rightarrow> Client \<Rightarrow> World \<Rightarrow> Client \<times> World" where
  "FailAndResolveLocked status pending cl w =
     (case ApplyFailureWith Pair (pr_info pending) status cl w of (cl1, w1) \<Rightarrow>
      (ResolveState (pr_future pending) (status_reply status) cl1, w1))"

fun fail_pending :: "StatusCode \<Rightarrow> PendingRequest list \<Rightarrow> Client \<Rightarrow> World \<Rightarrow> Client \<times> World" where
  "fail_pending status [] cl w = (cl, w)"
| "fail_pending status (pending # rest) cl w =
     (case FailAndResolveLocked status pending cl w of (cl1, w1) \<Rightarrow> fail_pending status rest cl1 w1)"

definition FailAllPendingWithRecoveryPolicyLocked :: "StatusCode \<Rightarrow> Client \<Rightarrow> World \<Rightarrow> Client \<times> World" where
  "FailAllPendingWithRecoveryPolicyLocked status cl w =
     (case StoreTakeAll cl of (toFail, cl1) \<Rightarrow> fail_pending status toFail cl1 w)"

definition ResolveAllPending :: "StatusCode \<Rightarrow> Client \<Rightarrow> Client" where
  "ResolveAllPending status cl =
     (case StoreTakeAll cl of (toFail, cl1) \<Rightarrow>
      fold (\<lambda>pending. ResolveState (pr_future pending) (status_reply status)) toFail cl1)"

definition HandlePendingRequestsForRecoveryLocked ::
  "PendingRequestRecoveryAction \<Rightarrow> Client \<Rightarrow> World \<Rightarrow> Client \<times> World" where
  "HandlePendingRequestsForRecoveryLocked action cl w =
     (case action of
        FailWithRecoveryPolicy \<Rightarrow> FailAllPendingWithRecoveryPolicyLocked PeerDisconnected cl w
      | ResolvePeerDisconnected \<Rightarrow> (ResolveAllPending PeerDisconnected cl, w)
      | KeepCurrentState \<Rightarrow> (cl, w))"

definition ScheduleRecoveryLocked ::
  "u64 \<Rightarrow> u32 \<Rightarrow> PendingRequestRecoveryAction \<Rightarrow> Client \<Rightarrow> World \<Rightarrow> Client \<times> World" where
  "ScheduleRecoveryLocked observedSessionId delayMs action =
     ScheduleRecoveryWith (HandlePendingRequestsForRecoveryLocked action) observedSessionId delayMs"

definition ApplyRecoveryDecisionLocked ::
  "RecoveryDecision \<Rightarrow> u64 \<Rightarrow> PendingRequestRecoveryAction \<Rightarrow> Client \<Rightarrow> World \<Rightarrow> Client \<times> World" where
  "ApplyRecoveryDecisionLocked decision observedSessionId action =
     ApplyRecoveryDecisionWith (HandlePendingRequestsForRecoveryLocked action) decision observedSessionId"

definition ApplyFailureRecoveryDecision :: "PendingInfo \<Rightarrow> StatusCode \<Rightarrow> Client \<Rightarrow> World \<Rightarrow> Client \<times> World" where
  "ApplyFailureRecoveryDecision =
     ApplyFailureWith (HandlePendingRequestsForRecoveryLocked FailWithRecoveryPolicy)"

definition FailAndResolve :: "PendingInfo \<Rightarrow> StatusCode \<Rightarrow> nat \<Rightarrow> Client \<Rightarrow> World \<Rightarrow> Client \<times> World" where
  "FailAndResolve info status future cl w =
     (case ApplyFailureRecoveryDecision info status cl w of (cl1, w1) \<Rightarrow>
      (ResolveState future (status_reply status) cl1, w1))"

fun fail_each :: "StatusCode \<Rightarrow> PendingRequest list \<Rightarrow> Client \<Rightarrow> World \<Rightarrow> Client \<times> World" where
  "fail_each status [] cl w = (cl, w)"
| "fail_each status (pending # rest) cl w =
     (case FailAndResolve (pr_info pending) status (pr_future pending) cl w of (cl1, w1) \<Rightarrow> fail_each status rest cl1 w1)"

definition FailAllPendingWithRecoveryPolicy :: "StatusCode \<Rightarrow> Client \<Rightarrow> World \<Rightarrow> Client \<times> World" where
  "FailAllPendingWithRecoveryPolicy status cl w =
     (case StoreTakeAll cl of (toFail, cl1) \<Rightarrow> fail_each status toFail cl1 w)"

definition FailQueuedSubmissions :: "StatusCode \<Rightarrow> Client \<Rightarrow> Client" where
  "FailQueuedSubmissions status cl =
     fold (\<lambda>submit. ResolveState (ps_future submit) (status_reply status)) (cl_submitQueue cl) (cl\<lparr>cl_submitQueue := []\<rparr>)"

definition FailOutstandingWork :: "StatusCode \<Rightarrow> Client \<Rightarrow> World \<Rightarrow> Client \<times> World" where
  "FailOutstandingWork status cl w =
     (case FailAllPendingWithRecoveryPolicy status cl w of (cl1, w1) \<Rightarrow> (FailQueuedSubmissions status cl1, w1))"

section \<open>Sources of recovery\<close>

definition HandleIdleRecovery :: "u64 \<Rightarrow> u64 \<Rightarrow> Client \<Rightarrow> World \<Rightarrow> Client \<times> World" where
  "HandleIdleRecovery observedSessionId idleMs cl w =
     (if \<not> IsApiOpen cl \<or> cl_snapshot cl \<noteq> observedSessionId then (cl, w)
      else case po_onIdle (cl_policy cl) of
        None \<Rightarrow> (cl, w)
      | Some onIdle \<Rightarrow> ApplyRecoveryDecisionLocked (onIdle idleMs) observedSessionId FailWithRecoveryPolicy cl w)"

definition HandleExternalRecovery :: "u64 \<Rightarrow> ExternalRecoveryRequest \<Rightarrow> Client \<Rightarrow> World \<Rightarrow> Client \<times> World" where
  "HandleExternalRecovery observedSessionId request cl w =
     (if \<not> IsApiOpen cl \<or> cl_snapshot cl \<noteq> observedSessionId then (cl, w)
      else if xr_sessionId request \<noteq> 0 \<and> xr_sessionId request \<noteq> observedSessionId then (cl, w)
      else ScheduleRecoveryLocked observedSessionId (xr_delayMs request) ResolvePeerDisconnected cl w)"

definition HandleEngineDeathLocked :: "u64 \<Rightarrow> u64 \<Rightarrow> Client \<Rightarrow> World \<Rightarrow> Client \<times> World" where
  "HandleEngineDeathLocked observedSessionId deadSessionId cl w =
     (let resolvedDeadSessionId = (if deadSessionId \<noteq> 0 then deadSessionId else observedSessionId)
      in if observedSessionId = 0 then (cl, w)
         else if resolvedDeadSessionId \<noteq> observedSessionId then (cl, w)
         else case CloseLiveSessionIfSnapshotMatches observedSessionId cl w of (cl1, w1) \<Rightarrow>
           let cl2 = ResolveAllPending CrashedDuringExecution cl1
           in case po_onEngineDeath (cl_policy cl2) of
                None \<Rightarrow> (EnterNoSessionWithoutLiveSessionLocked cl2, w1)
              | Some onEngineDeath \<Rightarrow>
                  let decision = onEngineDeath resolvedDeadSessionId
                  in if rd_action decision = ActIgnore then (EnterNoSessionWithoutLiveSessionLocked cl2, w1)
                     else ApplyRecoveryDecisionLocked decision observedSessionId KeepCurrentState cl2 w1)"

definition HandleEngineDeath :: "u64 \<Rightarrow> u64 \<Rightarrow> Client \<Rightarrow> World \<Rightarrow> Client \<times> World" where
  "HandleEngineDeath observedSessionId deadSessionId cl w =
     (if \<not> IsApiOpen cl \<or> cl_snapshot cl \<noteq> observedSessionId then (cl, w)
      else HandleEngineDeathLocked observedSessionId deadSessionId cl w)"

text \<open>The callback given to the bootstrap channel: it fires while its lease is held.\<close>

definition BootstrapDeathCallback :: "u64 \<Rightarrow> Client \<Rightarrow> World \<Rightarrow> Client \<times> World" where
  "BootstrapDeathCallback sessionId cl w =
     (if cl_deathCallback cl then HandleEngineDeath (cl_snapshot cl) sessionId cl w else (cl, w))"

definition RequestExternalRecovery :: "ExternalRecoveryRequest \<Rightarrow> Client \<Rightarrow> World \<Rightarrow> Client \<times> World" where
  "RequestExternalRecovery request cl w =
     (if \<not> IsApiOpen cl then (cl, w) else HandleExternalRecovery (cl_snapshot cl) request cl w)"

section \<open>Pushing a request\<close>

definition MakePendingWaitDeadline :: "u32 \<Rightarrow> Client \<Rightarrow> nat option" where
  "MakePendingWaitDeadline execTimeoutMs cl =
     (if execTimeoutMs = 0 then None else Some (unat (cl_now cl) + unat execTimeoutMs))"

definition ValidatePushSession :: "Client \<Rightarrow> StatusCode" where
  "ValidatePushSession cl = (if \<not> Valid (cl_session cl) then PeerDisconnected else Ok)"

definition PrepareRequestPayloadForTransport ::
  "PendingSubmit \<Rightarrow> Client \<Rightarrow> World \<Rightarrow> StatusCode \<times> bytes \<times> u8 \<times> World" where
  "PrepareRequestPayloadForTransport submit cl w =
     (let maxTransportBytes = min (unat (se_maxRequestBytes (cl_session cl))) RequestRingEntry_INLINE_PAYLOAD_BYTES
      in case PrepareFilePayloadForTransport DEFAULT_FILE_PAYLOAD_DIR (ca_payload (ps_call submit)) maxTransportBytes (wd_fs w) of
           (ok, transportPayload, kind, fs) \<Rightarrow>
             (if ok then Ok else PayloadTooLarge, transportPayload, kind, w\<lparr>wd_fs := fs\<rparr>))"

definition BuildRequestEntry :: "PendingSubmit \<Rightarrow> bytes \<Rightarrow> u8 \<Rightarrow> RequestRingEntry" where
  "BuildRequestEntry submit transportPayload payloadKind =
     default_RequestRingEntry\<lparr>rq_requestId := ps_requestId submit, rq_execTimeoutMs := ca_execTimeoutMs (ps_call submit),
       rq_opcode := ca_opcode (ps_call submit), rq_priority := Priority_u8 (ca_priority (ps_call submit)),
       rq_payloadSize := of_nat (length transportPayload), rq_payloadKind := payloadKind,
       rq_payload := copy_into (rq_payload default_RequestRingEntry) transportPayload\<rparr>"

definition BuildPendingRequest :: "PendingSubmit \<Rightarrow> Client \<Rightarrow> PendingRequest" where
  "BuildPendingRequest submit cl =
     \<lparr>pr_future = ps_future submit, pr_info = MakePendingInfo submit cl,
      pr_waitDeadline = MakePendingWaitDeadline (ca_execTimeoutMs (ps_call submit)) cl\<rparr>"

definition request_queue_kind :: "RpcCall \<Rightarrow> QueueKind" where
  "request_queue_kind call = (if ca_priority call = PriorityHigh then HighRequest else NormalRequest)"

text \<open>\<open>interf\<close> is what the server does between the push and the second look at the session state.\<close>

definition PushRequestToSession ::
  "(SysState \<Rightarrow> SysState) \<Rightarrow> PendingSubmit \<Rightarrow> RequestRingEntry \<Rightarrow> bytes \<Rightarrow> u8 \<Rightarrow> Client \<Rightarrow> World \<Rightarrow> StatusCode \<times> Client \<times> World" where
  "PushRequestToSession interf submit entry transportPayload payloadKind cl w =
     (let kind = request_queue_kind (ps_call submit); se = cl_session cl
      in case PushRequest interf kind entry se (wd_sys w) of (status, sys) \<Rightarrow>
         let w1 = w\<lparr>wd_sys := sys\<rparr>
         in if status \<noteq> Ok then
              (status, snd (StoreTake (ps_requestId submit) cl),
               if payloadKind = PAYLOAD_KIND_FILE_REF
               then w1\<lparr>wd_fs := snd (RemoveFilePayloadFromTransport DEFAULT_FILE_PAYLOAD_DIR (Some transportPayload)
                      (length transportPayload) payloadKind (wd_fs w1))\<rparr>
               else w1)
            else
              let cursor = rg_cursor (request_ring kind (ss_objs sys (se_obj se)));
                  fd = (if kind = HighRequest then bh_highReqEventFd (se_handles se) else bh_normalReqEventFd (se_handles se));
                  w2 = (if RingCountIsOneAfterPush cursor then snd (SignalEventFd fd w1) else w1)
              in (Ok, TouchActivity cl, w2))"

definition TryPushRequest ::
  "(SysState \<Rightarrow> SysState) \<Rightarrow> PendingSubmit \<Rightarrow> Client \<Rightarrow> World \<Rightarrow> StatusCode \<times> Client \<times> World" where
  "TryPushRequest interf submit cl w =
     (if ValidatePushSession cl \<noteq> Ok then (ValidatePushSession cl, cl, w)
      else case PrepareRequestPayloadForTransport submit cl w of (prepareStatus, transportPayload, kind, w1) \<Rightarrow>
      if prepareStatus \<noteq> Ok then (prepareStatus, cl, w1)
      else PushRequestToSession interf submit (BuildRequestEntry submit transportPayload kind) transportPayload kind
             (StorePut (ps_requestId submit) (BuildPendingRequest submit cl) cl) w1)"

section \<open>The submit worker\<close>

text \<open>Where \<^verbatim>\<open>SubmitOne\<close> is with a submission: before a look at the session, in one of the two recovery waits (and whether
  it has been woken), before a push, or in the wait for request credit.\<close>

datatype SubmitPhase = PhEnsure | PhCooldownWait bool | PhRetryWait bool | PhPush | PhCreditSync | PhCreditPoll

record SubmitEnv =
  sb_interf :: "SysState \<Rightarrow> SysState"
  sb_dup :: "int \<Rightarrow> int"
  sb_poll :: PollCall

definition SyncActiveRequestCreditWait :: "(int \<Rightarrow> int) \<Rightarrow> Client \<Rightarrow> World \<Rightarrow> Client \<times> World" where
  "SyncActiveRequestCreditWait dup cl w =
     (let update = DuplicateSessionWaitHandle bh_reqCreditEventFd dup (cl_creditSession cl) cl
      in if wh_action update = KeepCurrent then (cl, w)
         else
           let w1 = w\<lparr>wd_sys := snd (CloseFd (cl_creditFd cl) (wd_sys w))\<rparr>
           in if wh_action update = ReplaceCurrent
              then (cl\<lparr>cl_creditFd := wh_fd update, cl_creditSession := wh_sessionId update\<rparr>, w1)
              else (cl\<lparr>cl_creditFd := - 1, cl_creditSession := 0\<rparr>, w1))"

definition ResolveSubmitFailure :: "PendingSubmit \<Rightarrow> PendingInfo \<Rightarrow> StatusCode \<Rightarrow> Client \<Rightarrow> World \<Rightarrow> Client \<times> World" where
  "ResolveSubmitFailure submit info status cl w = FailAndResolve info status (ps_future submit) cl w"

text \<open>One turn of \<^verbatim>\<open>WaitForRequestCredit\<close> after the wait handle is in place: \<open>None\<close> when it polls again.\<close>

definition WaitForRequestCredit :: "PollCall \<Rightarrow> Client \<Rightarrow> World \<Rightarrow> PollEventFdResult option \<times> World" where
  "WaitForRequestCredit pollCall cl w =
     (if \<not> cl_workersRunning cl then (Some PollFailed, w)
      else case PollEventFd pollCall (wd_events w (cl_creditFd cl)) of (r, ev) \<Rightarrow>
        let w1 = w\<lparr>wd_events := (wd_events w)(cl_creditFd cl := ev)\<rparr>; changed = (cl_snapshot cl \<noteq> cl_creditSession cl)
        in if r = PollRetry \<or> r = PollTimeout then (if changed then Some PollRetry else None, w1)
           else if r = PollFailed then (Some (if changed then PollRetry else PollFailed), w1)
           else (Some r, w1))"

text \<open>The next phase, or \<open>None\<close> when the submission is off the worker's hands.\<close>

definition SubmitStep ::
  "SubmitEnv \<Rightarrow> PendingSubmit \<Rightarrow> PendingInfo \<Rightarrow> SubmitPhase \<Rightarrow> Client \<Rightarrow> World \<Rightarrow> SubmitPhase option \<times> Client \<times> World" where
  "SubmitStep env submit info phase cl w =
     (let failed = (\<lambda>status. (None, ResolveSubmitFailure submit info status cl w));
          waited = (\<lambda>again r. case r of None \<Rightarrow> (Some again, cl, w) | Some status \<Rightarrow>
             if status = Ok then (Some PhEnsure, cl, w) else failed status)
      in case phase of
        PhEnsure \<Rightarrow>
          if \<not> cl_workersRunning cl then failed (RuntimeStopStatus cl)
          else (case EnsureLiveSessionLocked cl w of (status, cl1, w1) \<Rightarrow>
            if status = Ok then (Some PhPush, cl1, w1)
            else if status = CooldownActive then (Some (PhCooldownWait False), cl1, w1)
            else if status = PeerDisconnected then (Some (PhRetryWait False), cl1, w1)
            else (None, ResolveSubmitFailure submit info status cl1 w1))
      | PhCooldownWait woken \<Rightarrow> waited (PhCooldownWait True) (WaitForCooldownToSettle woken None cl)
      | PhRetryWait woken \<Rightarrow> waited (PhRetryWait True) (WaitOneRecoveryRetryTick woken None cl)
      | PhPush \<Rightarrow>
          (case TryPushRequest (sb_interf env) submit cl w of (status, cl1, w1) \<Rightarrow>
            if status = Ok then (None, cl1, w1)
            else if status = PeerDisconnected then
              (case CloseLiveSessionForTransportFailure cl1 w1 of (cl2, w2) \<Rightarrow> (Some PhEnsure, cl2, w2))
            else if status = QueueFull then (Some PhCreditSync, cl1, w1)
            else (None, ResolveSubmitFailure submit info status cl1 w1))
      | PhCreditSync \<Rightarrow>
          (case SyncActiveRequestCreditWait (sb_dup env) cl w of (cl1, w1) \<Rightarrow>
            if cl_creditFd cl1 < 0 then
              (if cl_snapshot cl1 = 0 then (Some PhEnsure, cl1, w1)
               else case CloseLiveSessionForTransportFailure cl1 w1 of (cl2, w2) \<Rightarrow> (Some PhEnsure, cl2, w2))
            else (Some PhCreditPoll, cl1, w1))
      | PhCreditPoll \<Rightarrow>
          (case WaitForRequestCredit (sb_poll env) cl w of (r, w1) \<Rightarrow>
            (case r of
               None \<Rightarrow> (Some PhCreditPoll, cl, w1)
             | Some waitResult \<Rightarrow>
                 if waitResult = PollReady \<or> waitResult = PollRetry then (Some PhEnsure, cl, w1)
                 else case CloseLiveSessionForTransportFailure cl w1 of (cl2, w2) \<Rightarrow> (Some PhEnsure, cl2, w2))))"

text \<open>The queue of \<^verbatim>\<open>SubmitWorker::Run\<close>.\<close>

definition TakeSubmit :: "Client \<Rightarrow> PendingSubmit option \<times> Client" where
  "TakeSubmit cl =
     (case cl_submitQueue cl of [] \<Rightarrow> (None, cl) | s # ss \<Rightarrow> (Some s, cl\<lparr>cl_submitQueue := ss\<rparr>))"

section \<open>The response worker\<close>

definition ResolveEntryPayload :: "ResponseRingEntry \<Rightarrow> World \<Rightarrow> StatusCode \<times> bytes \<times> World" where
  "ResolveEntryPayload entry w =
     (if unat (rs_resultSize entry) > ResponseRingEntry_INLINE_PAYLOAD_BYTES then (ProtocolMismatch, [], w)
      else if rs_payloadKind entry = PAYLOAD_KIND_INLINE then (Ok, take (unat (rs_resultSize entry)) (rs_payload entry), w)
      else if rs_payloadKind entry = PAYLOAD_KIND_FILE_REF then
        (case ResolveFilePayloadFromTransport DEFAULT_FILE_PAYLOAD_DIR (Some (rs_payload entry)) (unat (rs_resultSize entry))
                (rs_payloadKind entry) (wd_fs w) of
           (None, fs) \<Rightarrow> (PeerDisconnected, [], w\<lparr>wd_fs := fs\<rparr>)
         | (Some payload, fs) \<Rightarrow> (Ok, payload, w\<lparr>wd_fs := fs\<rparr>))
      else (ProtocolMismatch, [], w))"

definition DiscardEntryPayloadIfPresent :: "ResponseRingEntry \<Rightarrow> World \<Rightarrow> World" where
  "DiscardEntryPayloadIfPresent entry w =
     (if rs_payloadKind entry \<noteq> PAYLOAD_KIND_FILE_REF then w
      else w\<lparr>wd_fs := snd (RemoveFilePayloadFromTransport DEFAULT_FILE_PAYLOAD_DIR (Some (rs_payload entry))
             (unat (rs_resultSize entry)) (rs_payloadKind entry) (wd_fs w))\<rparr>)"

definition ResolveCompletedRequest :: "ResponseRingEntry \<Rightarrow> Client \<Rightarrow> World \<Rightarrow> Client \<times> World" where
  "ResolveCompletedRequest entry cl w =
     (case StoreTake (rs_requestId entry) cl of
        (None, cl1) \<Rightarrow> (cl1, DiscardEntryPayloadIfPresent entry w)
      | (Some pending, cl1) \<Rightarrow>
          (case ResolveEntryPayload entry w of (payloadStatus, payload, w1) \<Rightarrow>
           let reply = (if payloadStatus \<noteq> Ok then status_reply payloadStatus
                        else \<lparr>rp_status = StatusCode_of_u32 (rs_statusCode entry), rp_payload = payload\<rparr>)
           in case (if rp_status reply \<noteq> Ok then ApplyFailureRecoveryDecision (pr_info pending) (rp_status reply) cl1 w1
                    else (cl1, w1)) of (cl2, w2) \<Rightarrow>
              (TouchActivity (ResolveState (pr_future pending) reply cl2), w2)))"

definition DeliverEvent :: "ResponseRingEntry \<Rightarrow> Client \<Rightarrow> World \<Rightarrow> Client \<times> World" where
  "DeliverEvent entry cl w =
     (if \<not> cl_eventCallback cl then (cl, DiscardEntryPayloadIfPresent entry w)
      else case ResolveEntryPayload entry w of (payloadStatus, payload, w1) \<Rightarrow>
        if payloadStatus \<noteq> Ok then HandleEngineDeath (cl_snapshot cl) (cl_snapshot cl) cl w1
        else
          let event = \<lparr>ev_eventDomain = rs_eventDomain entry, ev_eventType = rs_eventType entry,
                       ev_flags = rs_flags entry, ev_payload = payload\<rparr>
          in (TouchActivity (cl\<lparr>cl_events := cl_events cl @ [event]\<rparr>), w1))"

text \<open>One turn of \<^verbatim>\<open>DrainResponseRing\<close>: \<open>None\<close> when the ring is empty, and otherwise whether the loop goes on.\<close>

definition DrainResponseOne :: "Client \<Rightarrow> World \<Rightarrow> (bool \<times> Client \<times> World) option" where
  "DrainResponseOne cl w =
     (let se = cl_session cl; cursor = rg_cursor (response_ring (ss_objs (wd_sys w) (se_obj se)));
          ringBecameNotFull = (rc_capacity cursor \<noteq> 0 \<and> RingCount cursor = rc_capacity cursor)
      in if \<not> Valid se then None
         else case PopResponse se (wd_sys w) of (popped, sys) \<Rightarrow>
           (case popped of
              None \<Rightarrow> None
            | Some entry \<Rightarrow>
                let w1 = w\<lparr>wd_sys := sys\<rparr>;
                    w2 = (if ringBecameNotFull then snd (SignalEventFd (bh_respCreditEventFd (se_handles se)) w1) else w1)
                in if unat (rs_resultSize entry) > ResponseRingEntry_INLINE_PAYLOAD_BYTES then
                     Some (False, HandleEngineDeath (cl_snapshot cl) (cl_snapshot cl) cl w2)
                   else if rs_messageKind entry = EventMessage then Some (True, DeliverEvent entry cl w2)
                   else Some (True, ResolveCompletedRequest entry cl w2)))"

text \<open>\<^verbatim>\<open>WaitForResponseSignal\<close> on the descriptor \<open>fd\<close> duplicated for \<open>activePollSessionId\<close>.\<close>

definition WaitForResponseSignal :: "int \<Rightarrow> u64 \<Rightarrow> PollCall \<Rightarrow> Client \<Rightarrow> World \<Rightarrow> Client \<times> World" where
  "WaitForResponseSignal fd activePollSessionId pollCall cl w =
     (case PollEventFd pollCall (wd_events w fd) of (r, ev) \<Rightarrow>
      let w1 = w\<lparr>wd_events := (wd_events w)(fd := ev)\<rparr>
      in if r \<noteq> PollFailed then (cl, w1)
         else HandleEngineDeath activePollSessionId activePollSessionId cl
                (w1\<lparr>wd_sys := snd (CloseFd fd (wd_sys w1))\<rparr>))"

section \<open>The watchdog\<close>

definition MaybeRunPendingTimeouts :: "Client \<Rightarrow> World \<Rightarrow> Client \<times> World" where
  "MaybeRunPendingTimeouts cl w =
     (case StoreTakeExpired (unat (cl_now cl)) cl of (expiredRequests, cl1) \<Rightarrow> fail_each ExecTimeout expiredRequests cl1 w)"

definition MaybeRunIdlePolicy :: "Client \<Rightarrow> World \<Rightarrow> Client \<times> World" where
  "MaybeRunIdlePolicy cl w =
     (if \<not> IsApiOpen cl \<or> po_onIdle (cl_policy cl) = None \<or> cl_store cl \<noteq> [] \<or> cl_submitQueue cl \<noteq> [] \<or> cl_snapshot cl = 0
      then (cl, w)
      else HandleIdleRecovery (cl_snapshot cl) (cl_now cl - cl_lastActivityMs cl) cl w)"

fun ShouldRequestRecoveryForHealthStatus :: "ChannelHealthStatus \<Rightarrow> bool" where
  "ShouldRequestRecoveryForHealthStatus HealthTimeout = True"
| "ShouldRequestRecoveryForHealthStatus HealthMalformed = True"
| "ShouldRequestRecoveryForHealthStatus HealthUnhealthy = True"
| "ShouldRequestRecoveryForHealthStatus HealthSessionMismatch = True"
| "ShouldRequestRecoveryForHealthStatus HealthHealthy = False"
| "ShouldRequestRecoveryForHealthStatus HealthUnsupported = False"

definition RequestHealthCheckRecovery :: "ChannelHealthStatus \<Rightarrow> u64 \<Rightarrow> Client \<Rightarrow> World \<Rightarrow> Client \<times> World" where
  "RequestHealthCheckRecovery status observedSessionId cl w =
     (if \<not> ShouldRequestRecoveryForHealthStatus status then (cl, w)
      else HandleExternalRecovery observedSessionId \<lparr>xr_sessionId = observedSessionId, xr_delayMs = 0\<rparr> cl w)"

text \<open>\<open>checkHealth\<close> is the channel's answer for the session it is asked about.\<close>

definition MaybeRunHealthCheck :: "(u64 \<Rightarrow> ChannelHealthResult) \<Rightarrow> Client \<Rightarrow> World \<Rightarrow> Client \<times> World" where
  "MaybeRunHealthCheck checkHealth cl w =
     (if \<not> IsApiOpen cl \<or> \<not> cl_bootstrap cl \<or> cl_snapshot cl = 0 then (cl, w)
      else RequestHealthCheckRecovery (ch_status (checkHealth (cl_snapshot cl))) (cl_snapshot cl) cl w)"

section \<open>Public operations\<close>

definition new_RpcClient :: "abi \<Rightarrow> LockEnv \<Rightarrow> (nat \<Rightarrow> BootCall) option \<Rightarrow> Client" where
  "new_RpcClient a lock channel =
     SetBootstrapChannel channel
       \<lparr>cl_abi = a, cl_now = 0, cl_bootstrap = False,
        cl_boot = (\<lambda>_. \<lparr>bc_open = PeerDisconnected, bc_handles = MakeDefaultBootstrapHandles,
          bc_attach = \<lparr>ae_resetLock = lock, ae_fstat1 = False, ae_mmap1 = False, ae_fstat2 = False, ae_mmap2 = False,
            ae_lock = lock, ae_kill = (\<lambda>_. KillEsrch), ae_pid = 0\<rparr>\<rparr>),
        cl_bootCalls = 0, cl_bootCloses = 0, cl_deathCallback = False, cl_session = default_Session, cl_snapshot = 0,
        cl_lock = lock, cl_recoveryCallback = False, cl_reports = [], cl_lifecycle = LcUninitialized,
        cl_cooldownUntilMs = 0, cl_generation = 0, cl_policy = no_policy, cl_submitQueue = [], cl_submitStop = False,
        cl_watchdogStop = False, cl_store = [], cl_futures = (\<lambda>_. None), cl_nextFuture = 0,
        cl_control = ApiUninitialized, cl_workersRunning = False, cl_nextRequestId = 1, cl_lastActivityMs = 0,
        cl_eventCallback = False, cl_events = [], cl_creditFd = - 1, cl_creditSession = 0\<rparr>"

definition SetEventCallback :: "bool \<Rightarrow> Client \<Rightarrow> Client" where
  "SetEventCallback callback cl = cl\<lparr>cl_eventCallback := callback\<rparr>"

definition SetRecoveryEventCallback :: "bool \<Rightarrow> Client \<Rightarrow> Client" where
  "SetRecoveryEventCallback callback cl = cl\<lparr>cl_recoveryCallback := callback\<rparr>"

definition SetRecoveryPolicy :: "RecoveryPolicy \<Rightarrow> Client \<Rightarrow> Client" where
  "SetRecoveryPolicy policy cl = cl\<lparr>cl_policy := policy\<rparr>"

definition new_future :: "Client \<Rightarrow> nat \<times> Client" where
  "new_future cl = (cl_nextFuture cl, cl\<lparr>cl_nextFuture := Suc (cl_nextFuture cl),
     cl_futures := (cl_futures cl)(cl_nextFuture cl := None)\<rparr>)"

definition RejectInvoke :: "RpcCall \<Rightarrow> StatusCode \<Rightarrow> Client \<Rightarrow> World \<Rightarrow> nat \<times> Client \<times> World" where
  "RejectInvoke call status cl w =
     (case new_future cl of (f, cl1) \<Rightarrow>
      let info = \<lparr>pi_opcode = ca_opcode call, pi_priority = ca_priority call, pi_execTimeoutMs = ca_execTimeoutMs call,
                  pi_requestId = cl_nextRequestId cl1, pi_sessionId = cl_snapshot cl1\<rparr>;
          cl2 = cl1\<lparr>cl_nextRequestId := cl_nextRequestId cl1 + 1\<rparr>
      in case (if status \<noteq> ClientClosed then ApplyFailureRecoveryDecision info status cl2 w else (cl2, w)) of (cl3, w1) \<Rightarrow>
         (f, ResolveState f (status_reply status) cl3, w1))"

definition EnqueueSubmitLocked :: "RpcCall \<Rightarrow> nat \<Rightarrow> Client \<Rightarrow> Client" where
  "EnqueueSubmitLocked call future cl =
     cl\<lparr>cl_nextRequestId := cl_nextRequestId cl + 1,
        cl_submitQueue := cl_submitQueue cl @ [\<lparr>ps_call = call, ps_requestId = cl_nextRequestId cl, ps_future = future\<rparr>]\<rparr>"

definition InvokeAsync :: "RpcCall \<Rightarrow> Client \<Rightarrow> World \<Rightarrow> nat \<times> Client \<times> World" where
  "InvokeAsync call cl w =
     (let status = AdmissionStatusForInvoke cl
      in if status \<noteq> Ok then RejectInvoke call status cl w
         else case new_future cl of (f, cl1) \<Rightarrow> (f, EnqueueSubmitLocked call f cl1, w))"

definition GetRecoveryRuntimeSnapshot :: "Client \<Rightarrow> RecoveryRuntimeSnapshot" where
  "GetRecoveryRuntimeSnapshot cl = GetSnapshot (cl_snapshot cl) cl"

text \<open>The part of \<^verbatim>\<open>StopThreads\<close> before the joins, and the submit worker's last work: it takes what is queued, and each
  submission fails because the workers stopped.\<close>

definition StopThreads :: "Client \<Rightarrow> Client" where
  "StopThreads cl =
     (case StopRuntime cl of (stopped, cl1) \<Rightarrow>
      if \<not> stopped then cl1
      else NotifyRecoveryStateChanged (cl1\<lparr>cl_submitStop := True, cl_watchdogStop := True\<rparr>))"

fun drain_submits :: "PendingSubmit list \<Rightarrow> Client \<Rightarrow> World \<Rightarrow> Client \<times> World" where
  "drain_submits [] cl w = (cl, w)"
| "drain_submits (submit # rest) cl w =
     (case ResolveSubmitFailure submit (MakePendingInfo submit cl) (RuntimeStopStatus cl) (cl\<lparr>cl_submitQueue := rest\<rparr>) w of
        (cl1, w1) \<Rightarrow> drain_submits rest cl1 w1)"

text \<open>\<open>inHand\<close> is the submission the worker holds when it is told to stop, with its pending info.\<close>

definition join_submit_worker :: "(PendingSubmit \<times> PendingInfo) option \<Rightarrow> Client \<Rightarrow> World \<Rightarrow> Client \<times> World" where
  "join_submit_worker inHand cl w =
     (case (case inHand of None \<Rightarrow> (cl, w)
              | Some (submit, info) \<Rightarrow> ResolveSubmitFailure submit info (RuntimeStopStatus cl) cl w) of (cl1, w1) \<Rightarrow>
      drain_submits (cl_submitQueue cl1) cl1 w1)"

definition Shutdown :: "(PendingSubmit \<times> PendingInfo) option \<Rightarrow> Client \<Rightarrow> World \<Rightarrow> Client \<times> World" where
  "Shutdown inHand cl w =
     (case BeginShutdown cl of (begun, cl1) \<Rightarrow>
      if \<not> begun then (cl1, w)
      else case CloseSessionAndEnterTerminalClosedLocked cl1 w of (cl2, w1) \<Rightarrow>
        let cl3 = ClearCallbacks cl2; wasRunning = cl_workersRunning cl3; cl4 = StopThreads cl3
        in case (if wasRunning then join_submit_worker inHand cl4 w1 else (cl4, w1)) of (cl5, w2) \<Rightarrow>
           case FailOutstandingWork ClientClosed cl5 w2 of (cl6, w3) \<Rightarrow> (FinishShutdown cl6, w3))"

text \<open>\<^verbatim>\<open>Init\<close> in its three stages: the check, the start of the workers, the eager session and the end.\<close>

definition InitCheck :: "ClientInitMode \<Rightarrow> Client \<Rightarrow> World \<Rightarrow> StatusCode option \<times> Client \<times> World" where
  "InitCheck mode cl w =
     (if cl_control cl = ApiClosed then (Some ClientClosed, cl, w)
      else if cl_workersRunning cl then
        (if mode = EagerSession then (case EnsureLiveSessionLocked cl w of (status, cl1, w1) \<Rightarrow> (Some status, cl1, w1))
         else (Some Ok, cl, w))
      else (None, cl, w))"

definition InitStart :: "ClientInitMode \<Rightarrow> Client \<Rightarrow> Client" where
  "InitStart mode cl =
     snd (StartRuntime (PrepareForInitOpen (if mode = LazySession then LcIdleClosed else LcUninitialized) (TouchActivity cl)))"

definition InitFinish :: "ClientInitMode \<Rightarrow> Client \<Rightarrow> World \<Rightarrow> StatusCode \<times> Client \<times> World" where
  "InitFinish mode cl w =
     (case (if mode = EagerSession then EnsureLiveSessionLocked cl w else (Ok, cl, w)) of (status, cl1, w1) \<Rightarrow>
      if status \<noteq> Ok then (status, Shutdown None cl1 w1)
      else case FinishInit cl1 of (finished, cl2) \<Rightarrow> (if finished then Ok else ClientClosed, cl2, w1))"

definition Init :: "ClientInitMode \<Rightarrow> Client \<Rightarrow> World \<Rightarrow> StatusCode \<times> Client \<times> World" where
  "Init mode cl w =
     (case InitCheck mode cl w of (result, cl1, w1) \<Rightarrow>
      (case result of Some status \<Rightarrow> (status, cl1, w1) | None \<Rightarrow> InitFinish mode (InitStart mode cl1) w1))"

definition kRetryUntilRecoverySettlesGrace :: nat where
  "kRetryUntilRecoverySettlesGrace = 100"

definition computeWaitBudget :: "RecoveryRuntimeSnapshot \<Rightarrow> nat" where
  "computeWaitBudget snapshot = unat (sn_cooldownRemainingMs snapshot) + kRetryUntilRecoverySettlesGrace"

text \<open>
  \<^verbatim>\<open>RetryUntilRecoverySettles\<close>, on its turns: the client at the look at the snapshot, the clock when it is compared with
  the deadline, the result of the wait, and what the next call of \<open>invoke\<close> returns.
\<close>

record RetryTurn =
  rt_client :: Client
  rt_now :: nat
  rt_wait :: StatusCode
  rt_invoke :: StatusCode

fun retry_loop :: "nat \<Rightarrow> StatusCode \<Rightarrow> RetryTurn list \<Rightarrow> StatusCode" where
  "retry_loop deadline status [] = status"
| "retry_loop deadline status (t # ts) =
     (let snapshot = GetRecoveryRuntimeSnapshot (rt_client t);
          deadline' = max deadline (unat (cl_now (rt_client t)) + computeWaitBudget snapshot)
      in if \<not> ShouldRetryRecoveryStatus status snapshot then status
         else if rt_now t \<ge> deadline' then status
         else if rt_wait t \<noteq> Ok then status
         else retry_loop deadline' (rt_invoke t) ts)"

definition RetryUntilRecoverySettles :: "Client \<Rightarrow> StatusCode option \<Rightarrow> RetryTurn list \<Rightarrow> StatusCode" where
  "RetryUntilRecoverySettles cl invoke turns =
     (case invoke of
        None \<Rightarrow> InvalidArgument
      | Some status \<Rightarrow>
          if status = Ok then Ok
          else retry_loop (unat (cl_now cl) + computeWaitBudget (GetRecoveryRuntimeSnapshot cl)) status turns)"

end
