(* ===== verification/Memrpc_ClientThreads.thy ===== *)
theory Memrpc_ClientThreads
  imports Memrpc_Client
begin

text \<open>
  The threads of a client (\<^verbatim>\<open>rpc_client.cpp\<close>) as a step relation: callers, the submit worker with the submission in its
  hand, the response worker, the watchdog, the death callback of the bootstrap channel, the clock, and the
  server, which may change the world in any way.  Between steps the application may install any recovery policy.
\<close>

record ClientThreads =
  ct_client :: Client
  ct_world :: World
  ct_inHand :: "(PendingSubmit \<times> PendingInfo \<times> SubmitPhase) option"
  ct_invokes :: nat

definition hand_entry :: "ClientThreads \<Rightarrow> (PendingSubmit \<times> PendingInfo) option" where
  "hand_entry ct = map_option (\<lambda>(s, i, ph). (s, i)) (ct_inHand ct)"

text \<open>Request numbers are given out from 1 upwards; the relation covers the first \<open>2\<^sup>6\<^sup>4 - 2\<close> calls.\<close>

inductive client_thread_step :: "ClientThreads \<Rightarrow> ClientThreads \<Rightarrow> bool" where
  invoke: "InvokeAsync call (ct_client ct) (ct_world ct) = (f, cl, w) \<Longrightarrow> Suc (Suc (ct_invokes ct)) < 2 ^ 64 \<Longrightarrow>
    client_thread_step ct (ct\<lparr>ct_client := cl, ct_world := w, ct_invokes := Suc (ct_invokes ct)\<rparr>)"
| submit_take: "cl_workersRunning (ct_client ct) \<Longrightarrow> ct_inHand ct = None \<Longrightarrow> TakeSubmit (ct_client ct) = (Some submit, cl) \<Longrightarrow>
    client_thread_step ct (ct\<lparr>ct_client := cl, ct_inHand := Some (submit, MakePendingInfo submit (ct_client ct), PhEnsure)\<rparr>)"
| submit_step: "ct_inHand ct = Some (submit, info, phase) \<Longrightarrow>
    SubmitStep env submit info phase (ct_client ct) (ct_world ct) = (next_phase, cl, w) \<Longrightarrow>
    client_thread_step ct (ct\<lparr>ct_client := cl, ct_world := w,
      ct_inHand := map_option (\<lambda>ph. (submit, info, ph)) next_phase\<rparr>)"
| response: "cl_workersRunning (ct_client ct) \<Longrightarrow> DrainResponseOne (ct_client ct) (ct_world ct) = Some (again, cl, w) \<Longrightarrow>
    client_thread_step ct (ct\<lparr>ct_client := cl, ct_world := w\<rparr>)"
| response_signal: "cl_workersRunning (ct_client ct) \<Longrightarrow>
    WaitForResponseSignal fd session pollCall (ct_client ct) (ct_world ct) = (cl, w) \<Longrightarrow>
    client_thread_step ct (ct\<lparr>ct_client := cl, ct_world := w\<rparr>)"
| timeouts: "cl_workersRunning (ct_client ct) \<Longrightarrow> MaybeRunPendingTimeouts (ct_client ct) (ct_world ct) = (cl, w) \<Longrightarrow>
    client_thread_step ct (ct\<lparr>ct_client := cl, ct_world := w\<rparr>)"
| health: "cl_workersRunning (ct_client ct) \<Longrightarrow> MaybeRunHealthCheck checkHealth (ct_client ct) (ct_world ct) = (cl, w) \<Longrightarrow>
    client_thread_step ct (ct\<lparr>ct_client := cl, ct_world := w\<rparr>)"
| idle: "cl_workersRunning (ct_client ct) \<Longrightarrow> MaybeRunIdlePolicy (ct_client ct) (ct_world ct) = (cl, w) \<Longrightarrow>
    client_thread_step ct (ct\<lparr>ct_client := cl, ct_world := w\<rparr>)"
| death: "BootstrapDeathCallback session (ct_client ct) (ct_world ct) = (cl, w) \<Longrightarrow>
    client_thread_step ct (ct\<lparr>ct_client := cl, ct_world := w\<rparr>)"
| external: "RequestExternalRecovery request (ct_client ct) (ct_world ct) = (cl, w) \<Longrightarrow>
    client_thread_step ct (ct\<lparr>ct_client := cl, ct_world := w\<rparr>)"
| init: "Init mode (ct_client ct) (ct_world ct) = (status, cl, w) \<Longrightarrow>
    client_thread_step ct (ct\<lparr>ct_client := cl, ct_world := w\<rparr>)"
| shutdown: "Shutdown (hand_entry ct) (ct_client ct) (ct_world ct) = (cl, w) \<Longrightarrow>
    client_thread_step ct (ct\<lparr>ct_client := cl, ct_world := w,
      ct_inHand := (if cl_control cl = ApiClosed \<and> cl_control (ct_client ct) \<noteq> ApiClosed then None else ct_inHand ct)\<rparr>)"
| set_policy: "client_thread_step ct (ct\<lparr>ct_client := SetRecoveryPolicy policy (ct_client ct)\<rparr>)"
| set_callbacks: "client_thread_step ct (ct\<lparr>ct_client := SetEventCallback b (SetRecoveryEventCallback c (ct_client ct))\<rparr>)"
| set_bootstrap: "client_thread_step ct (ct\<lparr>ct_client := SetBootstrapChannel channel (ct_client ct)\<rparr>)"
| server_and_clock: "client_thread_step ct (ct\<lparr>ct_world := w, ct_client := (ct_client ct)\<lparr>cl_now := now\<rparr>\<rparr>)"

inductive client_threads_reachable :: "ClientThreads \<Rightarrow> bool" where
  constructed: "client_threads_reachable \<lparr>ct_client = new_RpcClient a lock channel, ct_world = w, ct_inHand = None, ct_invokes = 0\<rparr>"
| stepped: "client_threads_reachable ct \<Longrightarrow> client_thread_step ct ct' \<Longrightarrow> client_threads_reachable ct'"

end
