(* ===== verification/Memrpc_ClientProps.thy ===== *)
theory Memrpc_ClientProps
  imports Memrpc_ClientThreads
begin

text \<open>
  Properties of the client (\<^verbatim>\<open>rpc_client.cpp\<close>): every future that was given out is ready or held by somebody, whatever the
  interleaving of callers, workers, watchdog, death callback and server; \<^verbatim>\<open>Shutdown\<close> makes all of them ready; a ready
  future keeps its reply.  \<open>client_progress\<close> is the relation every operation respects, \<open>client_threads_inv\<close> the
  invariant of the threads.
\<close>

section \<open>Recovery recursion\<close>

lemma StartRecovery_store [simp]: "cl_store (StartRecovery d s cl) = cl_store cl"
  by (simp add: StartRecovery_def NotifyRecoveryStateChanged_def TransitionLifecycle_def ApplyTransitionLocked_def Let_def)

lemma Close_store [simp]:
  "cl_store (fst (close_session cl w)) = cl_store cl"
  "cl_store (fst (CloseLiveSessionIfSnapshotMatches s cl w)) = cl_store cl"
  by (auto simp: CloseLiveSessionIfSnapshotMatches_def close_session_def split: prod.splits)

text \<open>On an empty store the inner call is the outer one.\<close>

lemma nested_schedule:
  assumes "cl_store cl = []"
  shows "ScheduleRecoveryLocked s d FailWithRecoveryPolicy cl w = NestedScheduleRecovery s d cl w"
proof -
  obtain cl1 w1 where c: "CloseLiveSessionIfSnapshotMatches s (StartRecovery d s cl) w = (cl1, w1)"
    by (meson surj_pair)
  have "cl_store cl1 = []"
    using Close_store(2) [of s "StartRecovery d s cl" w] assms by (simp add: c)
  then have "cl1\<lparr>cl_store := []\<rparr> = cl1"
    by (cases cl1) simp
  then have "FailAllPendingWithRecoveryPolicyLocked PeerDisconnected cl1 w1 = (cl1, w1)"
    using \<open>cl_store cl1 = []\<close> by (simp add: FailAllPendingWithRecoveryPolicyLocked_def StoreTakeAll_def)
  then show ?thesis
    by (simp add: ScheduleRecoveryLocked_def NestedScheduleRecovery_def ScheduleRecoveryWith_def c
        HandlePendingRequestsForRecoveryLocked_def)
qed

section \<open>Progress of requests\<close>

text \<open>What every operation respects: a ready future keeps its reply, an admitted request stays admitted or its
  future is ready, and nothing else of the bookkeeping changes.\<close>

definition client_progress :: "Client \<Rightarrow> Client \<Rightarrow> bool" where
  "client_progress cl cl' \<longleftrightarrow>
     (\<forall>f r. cl_futures cl f = Some r \<longrightarrow> cl_futures cl' f = Some r) \<and>
     (\<forall>e \<in> set (cl_store cl). e \<in> set (cl_store cl') \<or> cl_futures cl' (pr_future (snd e)) \<noteq> None) \<and>
     set (cl_store cl') \<subseteq> set (cl_store cl) \<and> (distinct (map fst (cl_store cl)) \<longrightarrow> distinct (map fst (cl_store cl'))) \<and>
     cl_submitQueue cl' = cl_submitQueue cl \<and> cl_nextFuture cl' = cl_nextFuture cl \<and>
     cl_nextRequestId cl' = cl_nextRequestId cl \<and> cl_control cl' = cl_control cl \<and>
     cl_workersRunning cl' = cl_workersRunning cl"

lemma progress_refl: "client_progress cl cl"
  by (simp add: client_progress_def)

lemma progress_trans: "client_progress cl cl1 \<Longrightarrow> client_progress cl1 cl2 \<Longrightarrow> client_progress cl cl2"
proof -
  assume a: "client_progress cl cl1" and b: "client_progress cl1 cl2"
  have "e \<in> set (cl_store cl2) \<or> cl_futures cl2 (pr_future (snd e)) \<noteq> None" if "e \<in> set (cl_store cl)" for e
    using that a b by (cases "e \<in> set (cl_store cl1)") (auto simp: client_progress_def)
  then show ?thesis
    using a b by (simp add: client_progress_def) blast
qed

text \<open>Operations that touch neither futures nor the store.\<close>

definition same_requests :: "Client \<Rightarrow> Client \<Rightarrow> bool" where
  "same_requests cl cl' \<longleftrightarrow> cl_futures cl' = cl_futures cl \<and> cl_store cl' = cl_store cl \<and>
     cl_submitQueue cl' = cl_submitQueue cl \<and> cl_nextFuture cl' = cl_nextFuture cl \<and>
     cl_nextRequestId cl' = cl_nextRequestId cl \<and> cl_control cl' = cl_control cl \<and>
     cl_workersRunning cl' = cl_workersRunning cl"

lemma same_progress: "same_requests cl cl' \<Longrightarrow> client_progress cl cl'"
  by (simp add: client_progress_def same_requests_def)

lemma same_trans: "same_requests cl cl1 \<Longrightarrow> same_requests cl1 cl2 \<Longrightarrow> same_requests cl cl2"
  by (simp add: same_requests_def)

lemma same_transition: "same_requests cl (TransitionLifecycle st d s c u cl)"
  by (cases c) (simp_all add: same_requests_def TransitionLifecycle_def ApplyTransitionLocked_def Let_def)

lemma same_notify: "same_requests cl cl' \<Longrightarrow> same_requests cl (NotifyRecoveryStateChanged cl')"
  by (simp add: same_requests_def NotifyRecoveryStateChanged_def)

lemma same_recovery_state:
  "same_requests cl (StartRecovery d s cl)" "same_requests cl (EnterNoSession s cl)"
  "same_requests cl (EnterIdleClosed s cl)" "same_requests cl (EnterTerminalClosed s cl)"
  "same_requests cl (FinalizeSessionOpen s cl)" "same_requests cl (BeginSessionOpen ls s cl)"
  "same_requests cl (HandleSessionOpenFailure s cl)"
  by (simp_all add: StartRecovery_def EnterNoSession_def EnterIdleClosed_def EnterTerminalClosed_def FinalizeSessionOpen_def
      BeginSessionOpen_def HandleSessionOpenFailure_def same_notify same_transition)
    (simp_all add: same_requests_def)

lemma same_touch: "same_requests cl (TouchActivity cl)"
  by (simp add: same_requests_def TouchActivity_def)

lemma same_close:
  "same_requests cl (fst (close_session cl w))" "same_requests cl (fst (CloseLiveSessionIfSnapshotMatches s cl w))"
  "same_requests cl (fst (CloseLiveSessionForTransportFailure cl w))"
  by (auto simp: same_requests_def CloseLiveSessionIfSnapshotMatches_def close_session_def CloseLiveSession_def
      CloseLiveSessionForTransportFailure_def NotifyRecoveryStateChanged_def split: prod.splits)

lemma same_open: "same_requests cl (fst (snd (OpenSession cl w)))"
  by (auto simp: same_requests_def OpenSession_def Let_def split: prod.splits)

lemma same_open_locked: "same_requests cl (fst (snd (OpenSessionLocked cl w)))"
proof -
  obtain st cl1 w1 where "OpenSession cl w = (st, cl1, w1)" by (metis prod_cases3)
  with same_open [of cl w] show ?thesis
    using same_trans [OF _ same_trans [OF same_touch same_recovery_state(5)]]
    by (simp add: OpenSessionLocked_def Let_def)
qed

lemma same_ensure: "same_requests cl (fst (snd (EnsureLiveSessionLocked cl w)))"
proof -
  let ?cl = "BeginSessionOpen (cl_lifecycle cl) (cl_snapshot cl) cl"
  obtain st cl1 w1 where o: "OpenSessionLocked ?cl w = (st, cl1, w1)" by (metis prod_cases3)
  have "same_requests cl cl1"
    using same_trans [OF same_recovery_state(6) same_open_locked [of ?cl w]] by (simp add: o)
  then show ?thesis
    using same_trans [OF _ same_recovery_state(7)]
    by (auto simp: EnsureLiveSessionLocked_def o) (simp_all add: same_requests_def)
qed

lemma same_reconnect: "same_requests cl (fst (MaybeReconnectImmediatelyLocked d cl w))"
  using same_ensure [of cl w] by (simp add: MaybeReconnectImmediatelyLocked_def) (simp add: same_requests_def)

lemma same_idle: "same_requests cl (fst (CloseSessionAndEnterIdleClosedLocked s cl w))"
proof -
  obtain cl1 w1 where c: "CloseLiveSessionIfSnapshotMatches s cl w = (cl1, w1)" by (meson surj_pair)
  then have "same_requests cl cl1" using same_close(2) [of cl s w] by simp
  then show ?thesis
    using same_trans [OF _ same_recovery_state(3)] by (auto simp: CloseSessionAndEnterIdleClosedLocked_def c)
      (simp add: same_requests_def)
qed

text \<open>Resolving takes requests out of the store and makes their futures ready.\<close>

lemma ResolveState_futures:
  "cl_futures (ResolveState f r cl) g = (if g = f \<and> cl_futures cl f = None then Some r else cl_futures cl g)"
  by (simp add: ResolveState_def)

lemma ResolveState_fields [simp]:
  "cl_store (ResolveState f r cl) = cl_store cl" "cl_submitQueue (ResolveState f r cl) = cl_submitQueue cl"
  "cl_nextFuture (ResolveState f r cl) = cl_nextFuture cl" "cl_nextRequestId (ResolveState f r cl) = cl_nextRequestId cl"
  "cl_control (ResolveState f r cl) = cl_control cl" "cl_workersRunning (ResolveState f r cl) = cl_workersRunning cl"
  "cl_snapshot (ResolveState f r cl) = cl_snapshot cl" "cl_lifecycle (ResolveState f r cl) = cl_lifecycle cl"
  "cl_session (ResolveState f r cl) = cl_session cl" "cl_policy (ResolveState f r cl) = cl_policy cl"
  by (simp_all add: ResolveState_def)

lemma progress_resolve: "client_progress cl (ResolveState f r cl)"
  by (auto simp: client_progress_def ResolveState_futures)

lemma resolved: "cl_futures (ResolveState f r cl) f \<noteq> None"
  by (simp add: ResolveState_futures)

lemma progress_Some: "client_progress cl cl' \<Longrightarrow> cl_futures cl f \<noteq> None \<Longrightarrow> cl_futures cl' f \<noteq> None"
  by (auto simp: client_progress_def)

text \<open>An operation that works on requests already taken from the store.\<close>

lemma progress_taken:
  assumes "client_progress cl1 cl2" "set (cl_store cl1) \<subseteq> set (cl_store cl)"
    "\<forall>e \<in> set (cl_store cl) - set (cl_store cl1). cl_futures cl2 (pr_future (snd e)) \<noteq> None"
    "distinct (map fst (cl_store cl)) \<longrightarrow> distinct (map fst (cl_store cl1))"
    "cl_futures cl1 = cl_futures cl" "cl_submitQueue cl1 = cl_submitQueue cl" "cl_nextFuture cl1 = cl_nextFuture cl"
    "cl_nextRequestId cl1 = cl_nextRequestId cl" "cl_control cl1 = cl_control cl" "cl_workersRunning cl1 = cl_workersRunning cl"
  shows "client_progress cl cl2"
  unfolding client_progress_def
proof (intro conjI ballI allI impI)
  fix e assume "e \<in> set (cl_store cl)"
  then show "e \<in> set (cl_store cl2) \<or> cl_futures cl2 (pr_future (snd e)) \<noteq> None"
    using assms(1,3) by (cases "e \<in> set (cl_store cl1)") (auto simp: client_progress_def)
qed (use assms in \<open>auto simp: client_progress_def\<close>)

lemma fold_resolve:
  "client_progress cl (fold (\<lambda>p. ResolveState (pr_future p) r) ps cl) \<and>
   (\<forall>p \<in> set ps. cl_futures (fold (\<lambda>p. ResolveState (pr_future p) r) ps cl) (pr_future p) \<noteq> None) \<and>
   cl_store (fold (\<lambda>p. ResolveState (pr_future p) r) ps cl) = cl_store cl"
proof (induction ps arbitrary: cl)
  case Nil
  then show ?case by (simp add: progress_refl)
next
  case (Cons p ps)
  let ?cl = "ResolveState (pr_future p) r cl"
  have "cl_futures (fold (\<lambda>p. ResolveState (pr_future p) r) ps ?cl) (pr_future p) \<noteq> None"
    using Cons.IH [of ?cl] progress_Some [OF _ resolved] by blast
  with Cons.IH [of ?cl] progress_trans [OF progress_resolve] show ?case by auto
qed

lemma StoreTakeAll_eq: "StoreTakeAll cl = (ps, cl1) \<longleftrightarrow> ps = map snd (cl_store cl) \<and> cl1 = cl\<lparr>cl_store := []\<rparr>"
  by (auto simp: StoreTakeAll_def)

lemma ResolveAll_result:
  "client_progress cl (ResolveAllPending st cl) \<and> cl_store (ResolveAllPending st cl) = [] \<and>
   (\<forall>e \<in> set (cl_store cl). cl_futures (ResolveAllPending st cl) (pr_future (snd e)) \<noteq> None)"
proof -
  let ?r = "fold (\<lambda>p. ResolveState (pr_future p) (status_reply st)) (map snd (cl_store cl)) (cl\<lparr>cl_store := []\<rparr>)"
  have f: "client_progress (cl\<lparr>cl_store := []\<rparr>) ?r" "\<forall>e \<in> set (cl_store cl). cl_futures ?r (pr_future (snd e)) \<noteq> None"
    "cl_store ?r = []"
    using fold_resolve [of "cl\<lparr>cl_store := []\<rparr>" "status_reply st" "map snd (cl_store cl)"] by auto
  have "client_progress cl ?r"
    using f by (intro progress_taken [OF f(1)]) auto
  with f show ?thesis
    by (simp add: ResolveAllPending_def StoreTakeAll_def)
qed

lemma progress_schedule:
  assumes "\<And>cl w. client_progress cl (fst (handle cl w))"
  shows "client_progress cl (fst (ScheduleRecoveryWith handle s d cl w))"
proof -
  obtain cl1 w1 where c: "CloseLiveSessionIfSnapshotMatches s (StartRecovery d s cl) w = (cl1, w1)" by (meson surj_pair)
  obtain cl2 w2 where h: "handle cl1 w1 = (cl2, w2)" by (meson surj_pair)
  have "client_progress cl cl1"
    using same_progress [OF same_trans [OF same_recovery_state(1) same_close(2) [of "StartRecovery d s cl" s w]]] by (simp add: c)
  moreover have "client_progress cl1 cl2" using assms [of cl1 w1] by (simp add: h)
  ultimately have "client_progress cl (fst (MaybeReconnectImmediatelyLocked d cl2 w2))"
    using progress_trans same_progress [OF same_reconnect] by blast
  then show ?thesis
    by (simp add: ScheduleRecoveryWith_def c h progress_refl)
qed

lemma progress_decision:
  assumes "\<And>cl w. client_progress cl (fst (handle cl w))"
  shows "client_progress cl (fst (ApplyRecoveryDecisionWith handle d s cl w))"
  using progress_schedule [OF assms] same_progress [OF same_idle]
  by (auto simp: ApplyRecoveryDecisionWith_def progress_refl split: RecoveryAction.split)

lemma progress_failure:
  assumes "\<And>cl w. client_progress cl (fst (handle cl w))"
  shows "client_progress cl (fst (ApplyFailureWith handle info st cl w))"
  using progress_decision [OF assms] by (auto simp: ApplyFailureWith_def progress_refl split: option.split)

lemma progress_Pair: "client_progress cl (fst (Pair cl w))"
  by (simp add: progress_refl)

lemma fail_locked:
  "client_progress cl (fst (FailAndResolveLocked st p cl w)) \<and> cl_futures (fst (FailAndResolveLocked st p cl w)) (pr_future p) \<noteq> None"
  using progress_failure [of Pair, OF progress_Pair, of cl "pr_info p" st w] progress_trans progress_resolve resolved
  by (auto simp: FailAndResolveLocked_def split: prod.splits)

lemma fail_pending_result:
  "client_progress cl (fst (fail_pending st ps cl w)) \<and>
   (\<forall>p \<in> set ps. cl_futures (fst (fail_pending st ps cl w)) (pr_future p) \<noteq> None)"
proof (induction ps arbitrary: cl w)
  case Nil
  then show ?case by (simp add: progress_refl)
next
  case (Cons p ps)
  obtain cl1 w1 where f: "FailAndResolveLocked st p cl w = (cl1, w1)" by (meson surj_pair)
  have "client_progress cl cl1" "cl_futures cl1 (pr_future p) \<noteq> None"
    using fail_locked [of cl st p w] by (simp_all add: f)
  with Cons.IH [of cl1 w1] show ?case
    using progress_trans progress_Some by (auto simp: f)
qed

lemma progress_fail_all: "client_progress cl (fst (FailAllPendingWithRecoveryPolicyLocked st cl w))"
proof -
  let ?r = "fst (fail_pending st (map snd (cl_store cl)) (cl\<lparr>cl_store := []\<rparr>) w)"
  have f: "client_progress (cl\<lparr>cl_store := []\<rparr>) ?r" "\<forall>e \<in> set (cl_store cl). cl_futures ?r (pr_future (snd e)) \<noteq> None"
    using fail_pending_result [of "cl\<lparr>cl_store := []\<rparr>" st "map snd (cl_store cl)" w] by auto
  have "client_progress cl ?r"
    using f by (intro progress_taken [OF f(1)]) auto
  then show ?thesis by (simp add: FailAllPendingWithRecoveryPolicyLocked_def StoreTakeAll_def)
qed

lemma progress_handle: "client_progress cl (fst (HandlePendingRequestsForRecoveryLocked a cl w))"
  using progress_fail_all ResolveAll_result
  by (auto simp: HandlePendingRequestsForRecoveryLocked_def progress_refl split: PendingRequestRecoveryAction.split)

lemma progress_apply:
  "client_progress cl (fst (ApplyFailureWith (HandlePendingRequestsForRecoveryLocked a) i st cl w))"
  "client_progress cl (fst (ApplyRecoveryDecisionWith (HandlePendingRequestsForRecoveryLocked a) d s cl w))"
  "client_progress cl (fst (ScheduleRecoveryWith (HandlePendingRequestsForRecoveryLocked a) s delay cl w))"
  by (rule progress_failure progress_decision progress_schedule, rule progress_handle)+

lemma fail_and_resolve:
  "client_progress cl (fst (FailAndResolve i st f cl w)) \<and> cl_futures (fst (FailAndResolve i st f cl w)) f \<noteq> None"
  using progress_apply(1) [of cl FailWithRecoveryPolicy i st w] progress_trans progress_resolve resolved
  by (auto simp: FailAndResolve_def ApplyFailureRecoveryDecision_def split: prod.splits)

lemma fail_each_result:
  "client_progress cl (fst (fail_each st ps cl w)) \<and>
   (\<forall>p \<in> set ps. cl_futures (fst (fail_each st ps cl w)) (pr_future p) \<noteq> None)"
proof (induction ps arbitrary: cl w)
  case Nil
  then show ?case by (simp add: progress_refl)
next
  case (Cons p ps)
  obtain cl1 w1 where f: "FailAndResolve (pr_info p) st (pr_future p) cl w = (cl1, w1)" by (meson surj_pair)
  have "client_progress cl cl1" "cl_futures cl1 (pr_future p) \<noteq> None"
    using fail_and_resolve [of cl "pr_info p" st "pr_future p" w] by (simp_all add: f)
  with Cons.IH [of cl1 w1] show ?case
    using progress_trans progress_Some by (auto simp: f)
qed

lemma progress_fail_outstanding: "client_progress cl (fst (FailAllPendingWithRecoveryPolicy st cl w))"
  "\<forall>e \<in> set (cl_store cl). cl_futures (fst (FailAllPendingWithRecoveryPolicy st cl w)) (pr_future (snd e)) \<noteq> None"
  "cl_store (fst (FailAllPendingWithRecoveryPolicy st cl w)) = []"
proof -
  let ?r = "fst (fail_each st (map snd (cl_store cl)) (cl\<lparr>cl_store := []\<rparr>) w)"
  have f: "client_progress (cl\<lparr>cl_store := []\<rparr>) ?r" "\<forall>e \<in> set (cl_store cl). cl_futures ?r (pr_future (snd e)) \<noteq> None"
    using fail_each_result [of "cl\<lparr>cl_store := []\<rparr>" st "map snd (cl_store cl)" w] by auto
  have r: "fst (FailAllPendingWithRecoveryPolicy st cl w) = ?r"
    by (simp add: FailAllPendingWithRecoveryPolicy_def StoreTakeAll_def)
  show "client_progress cl (fst (FailAllPendingWithRecoveryPolicy st cl w))"
    unfolding r using f by (intro progress_taken [OF f(1)]) auto
  show "\<forall>e \<in> set (cl_store cl). cl_futures (fst (FailAllPendingWithRecoveryPolicy st cl w)) (pr_future (snd e)) \<noteq> None"
    unfolding r by (rule f(2))
  show "cl_store (fst (FailAllPendingWithRecoveryPolicy st cl w)) = []"
    unfolding r using f(1) by (simp add: client_progress_def)
qed

lemma progress_timeouts: "client_progress cl (fst (MaybeRunPendingTimeouts cl w))"
proof -
  let ?now = "unat (cl_now cl)"
  let ?ex = "filter (\<lambda>e. expired ?now (snd e)) (cl_store cl)"
  let ?cl = "cl\<lparr>cl_store := filter (\<lambda>e. \<not> expired ?now (snd e)) (cl_store cl)\<rparr>"
  let ?r = "fst (fail_each ExecTimeout (map snd ?ex) ?cl w)"
  have f: "client_progress ?cl ?r" "\<forall>e \<in> set ?ex. cl_futures ?r (pr_future (snd e)) \<noteq> None"
    using fail_each_result [of ?cl ExecTimeout "map snd ?ex" w] by auto
  have "\<forall>e \<in> set (cl_store cl) - set (cl_store ?cl). cl_futures ?r (pr_future (snd e)) \<noteq> None"
  proof
    fix e assume "e \<in> set (cl_store cl) - set (cl_store ?cl)"
    then have "e \<in> set ?ex" by simp
    with f(2) show "cl_futures ?r (pr_future (snd e)) \<noteq> None" by blast
  qed
  then have "client_progress cl ?r"
    by (intro progress_taken [OF f(1)]) (auto simp: distinct_map_filter)
  then show ?thesis by (simp add: MaybeRunPendingTimeouts_def StoreTakeExpired_def)
qed

lemma progress_external: "client_progress cl (fst (HandleExternalRecovery s r cl w))"
  using progress_apply(3) by (auto simp: HandleExternalRecovery_def ScheduleRecoveryLocked_def progress_refl)

lemma progress_idle_recovery: "client_progress cl (fst (HandleIdleRecovery s i cl w))"
  using progress_apply(2) by (auto simp: HandleIdleRecovery_def ApplyRecoveryDecisionLocked_def progress_refl split: option.split)

lemma same_no_session: "same_requests cl (EnterNoSessionWithoutLiveSessionLocked cl)"
  using same_recovery_state(2) [of cl "cl_snapshot cl"]
  by (simp add: EnterNoSessionWithoutLiveSessionLocked_def) (simp add: same_requests_def)

lemma progress_death_locked: "client_progress cl (fst (HandleEngineDeathLocked s d cl w))"
proof -
  obtain cl1 w1 where c: "CloseLiveSessionIfSnapshotMatches s cl w = (cl1, w1)" by (meson surj_pair)
  have "client_progress cl cl1" using same_progress [OF same_close(2) [of cl s w]] by (simp add: c)
  then have p: "client_progress cl (ResolveAllPending CrashedDuringExecution cl1)"
    using progress_trans ResolveAll_result by blast
  note q = progress_trans [OF p same_progress [OF same_no_session]]
  show ?thesis
    using q progress_trans [OF p progress_apply(2)]
    by (auto simp: HandleEngineDeathLocked_def c Let_def ApplyRecoveryDecisionLocked_def progress_refl split: option.split)
qed

lemma progress_death: "client_progress cl (fst (HandleEngineDeath s d cl w))"
  using progress_death_locked by (auto simp: HandleEngineDeath_def progress_refl)

lemma StoreTake_cases:
  "StoreTake i cl = (p, cl1) \<Longrightarrow> (case p of None \<Rightarrow> cl1 = cl | Some pend \<Rightarrow>
     map_of (cl_store cl) i = Some pend \<and> cl1 = cl\<lparr>cl_store := filter (\<lambda>e. fst e \<noteq> i) (cl_store cl)\<rparr>)"
  by (auto simp: StoreTake_def split: option.splits)

lemma distinct_key:
  "distinct (map fst xs) \<Longrightarrow> map_of xs i = Some p \<Longrightarrow> e \<in> set xs \<Longrightarrow> fst e = i \<Longrightarrow> snd e = p"
  by (metis map_of_is_SomeI option.inject prod.collapse)

lemma progress_completed:
  assumes "distinct (map fst (cl_store cl))"
  shows "client_progress cl (fst (ResolveCompletedRequest entry cl w))"
proof (cases "map_of (cl_store cl) (rs_requestId entry)")
  case None
  then show ?thesis by (simp add: ResolveCompletedRequest_def StoreTake_def progress_refl)
next
  case (Some p)
  let ?cl1 = "cl\<lparr>cl_store := filter (\<lambda>e. fst e \<noteq> rs_requestId entry) (cl_store cl)\<rparr>"
  obtain ps pl w1 where r: "ResolveEntryPayload entry w = (ps, pl, w1)" by (metis prod_cases3)
  define reply where "reply = (if ps \<noteq> Ok then status_reply ps
    else \<lparr>rp_status = StatusCode_of_u32 (rs_statusCode entry), rp_payload = pl\<rparr>)"
  obtain cl2 w2 where a: "(if rp_status reply \<noteq> Ok then ApplyFailureRecoveryDecision (pr_info p) (rp_status reply) ?cl1 w1
      else (?cl1, w1)) = (cl2, w2)"
    by (meson surj_pair)
  have "client_progress ?cl1 cl2"
    using progress_apply(1) [of ?cl1 FailWithRecoveryPolicy "pr_info p" "rp_status reply" w1] a progress_refl
    by (auto simp: ApplyFailureRecoveryDecision_def split: if_splits)
  then have q: "client_progress ?cl1 (TouchActivity (ResolveState (pr_future p) reply cl2))"
    using progress_trans [OF progress_trans [OF _ progress_resolve] same_progress [OF same_touch]] by blast
  have "cl_futures (TouchActivity (ResolveState (pr_future p) reply cl2)) (pr_future p) \<noteq> None"
    using resolved [of "pr_future p" reply cl2] by (simp add: TouchActivity_def)
  then have "client_progress cl (TouchActivity (ResolveState (pr_future p) reply cl2))"
    using distinct_key [OF assms Some]
    by (intro progress_taken [OF q]) (auto simp: distinct_map_filter)
  then show ?thesis
    using a by (simp add: ResolveCompletedRequest_def StoreTake_def Some r reply_def [symmetric])
qed

lemma progress_event: "client_progress cl (fst (DeliverEvent entry cl w))"
proof -
  obtain ps pl w1 where r: "ResolveEntryPayload entry w = (ps, pl, w1)" by (metis prod_cases3)
  have "client_progress cl (TouchActivity (cl\<lparr>cl_events := es\<rparr>))" for es
    by (simp add: client_progress_def TouchActivity_def)
  then show ?thesis
    using progress_death by (auto simp: DeliverEvent_def r progress_refl Let_def)
qed

lemma progress_response:
  assumes "distinct (map fst (cl_store cl))" "DrainResponseOne cl w = Some (b, cl', w')"
  shows "client_progress cl cl'"
proof -
  have "client_progress cl (fst r)" if "r = HandleEngineDeath s d cl v \<or> r = DeliverEvent e cl v \<or> r = ResolveCompletedRequest e cl v" for r s d e v
    using that progress_death progress_event progress_completed [OF assms(1)] by auto
  then show ?thesis
    using assms(2)
    by (auto simp: DrainResponseOne_def Let_def split: if_splits prod.splits option.splits) (metis fst_conv)+
qed

lemma progress_watchdog:
  "client_progress cl (fst (MaybeRunIdlePolicy cl w))" "client_progress cl (fst (MaybeRunHealthCheck ch cl w))"
  "client_progress cl (fst (BootstrapDeathCallback s cl w))" "client_progress cl (fst (RequestExternalRecovery r cl w))"
  "client_progress cl (fst (WaitForResponseSignal fd s pc cl w))"
  using progress_idle_recovery progress_external progress_death
  by (auto simp: MaybeRunIdlePolicy_def MaybeRunHealthCheck_def RequestHealthCheckRecovery_def BootstrapDeathCallback_def
      RequestExternalRecovery_def WaitForResponseSignal_def progress_refl Let_def split: prod.split)

section \<open>The submit worker\<close>

text \<open>A push admits the request or leaves the bookkeeping as it was.\<close>

definition admits :: "PendingSubmit \<Rightarrow> Client \<Rightarrow> Client \<Rightarrow> bool" where
  "admits submit cl cl' \<longleftrightarrow> (\<exists>p. pr_future p = ps_future submit \<and> cl_store cl' = (ps_requestId submit, p) # cl_store cl) \<and>
     same_requests (cl\<lparr>cl_store := cl_store cl'\<rparr>) cl'"

lemma TryPush_result:
  assumes "ps_requestId submit \<notin> fst ` set (cl_store cl)" "TryPushRequest interf submit cl w = (st, cl', w')"
  shows "if st = Ok then admits submit cl cl' else same_requests cl cl'"
proof -
  let ?p = "BuildPendingRequest submit cl"
  let ?cl = "StorePut (ps_requestId submit) ?p cl"
  have keys: "filter (\<lambda>e. fst e \<noteq> ps_requestId submit) (cl_store cl) = cl_store cl"
    using assms(1) by (force simp: filter_id_conv)
  then have put: "?cl = cl\<lparr>cl_store := (ps_requestId submit, ?p) # cl_store cl\<rparr>"
    by (simp add: StorePut_def)
  then have take: "snd (StoreTake (ps_requestId submit) ?cl) = cl"
    using keys by (cases cl) (simp add: StoreTake_def)
  obtain ps tp k w1 where prep: "PrepareRequestPayloadForTransport submit cl w = (ps, tp, k, w1)"
    by (metis prod_cases4)
  have "pr_future ?p = ps_future submit" by (simp add: BuildPendingRequest_def)
  then have "admits submit cl (TouchActivity ?cl)"
    by (auto simp: admits_def put TouchActivity_def same_requests_def)
  moreover have "same_requests cl cl" by (simp add: same_requests_def)
  ultimately show ?thesis
    using assms(2) take
    by (auto simp: TryPushRequest_def prep PushRequestToSession_def Let_def split: if_splits prod.splits)
qed

lemma same_credit: "same_requests cl (fst (SyncActiveRequestCreditWait dup cl w))"
  by (auto simp: SyncActiveRequestCreditWait_def same_requests_def Let_def)

definition off_hand :: "PendingSubmit \<Rightarrow> Client \<Rightarrow> Client \<Rightarrow> bool" where
  "off_hand submit cl cl' \<longleftrightarrow> admits submit cl cl' \<or> client_progress cl cl' \<and> cl_futures cl' (ps_future submit) \<noteq> None"

lemma off_hand_failed:
  "client_progress cl cl1 \<Longrightarrow> ResolveSubmitFailure submit info st cl1 w = (cl', w') \<Longrightarrow> off_hand submit cl cl'"
  using fail_and_resolve [of cl1 info st "ps_future submit" w] progress_trans
  by (auto simp: off_hand_def ResolveSubmitFailure_def)

lemma progress_transport:
  "CloseLiveSessionForTransportFailure cl1 w = (cl', w') \<Longrightarrow> client_progress cl cl1 \<Longrightarrow> client_progress cl cl'"
  using progress_trans [OF _ same_progress [OF same_close(3) [of cl1 w]]] by simp

lemma submit_wait:
  assumes "(case r of None \<Rightarrow> (Some again, cl, w) | Some status \<Rightarrow>
      if status = Ok then (Some PhEnsure, cl, w) else (None, ResolveSubmitFailure submit info status cl w)) = (next_phase, cl', w')"
  shows "if next_phase = None then off_hand submit cl cl' else client_progress cl cl'"
  using assms off_hand_failed [OF progress_refl, of submit info _ cl w cl' w'] progress_refl
  by (auto split: option.splits if_splits)

lemma SubmitStep_result:
  assumes "ps_requestId submit \<notin> fst ` set (cl_store cl)"
    "SubmitStep env submit info phase cl w = (next_phase, cl', w')"
  shows "if next_phase = None then off_hand submit cl cl' else client_progress cl cl'"
proof (cases phase)
  case PhEnsure
  obtain st cl1 w1 where e: "EnsureLiveSessionLocked cl w = (st, cl1, w1)" by (metis prod_cases3)
  have "client_progress cl cl1" using same_progress [OF same_ensure [of cl w]] by (simp add: e)
  then show ?thesis
    using assms(2) off_hand_failed [OF progress_refl] off_hand_failed [of cl cl1]
    by (auto simp: SubmitStep_def PhEnsure e Let_def split: if_splits)
next
  case (PhCooldownWait b)
  then show ?thesis
    using assms(2) by (intro submit_wait) (simp add: SubmitStep_def Let_def)
next
  case (PhRetryWait b)
  then show ?thesis
    using assms(2) by (intro submit_wait) (simp add: SubmitStep_def Let_def)
next
  case PhPush
  obtain st cl1 w1 where t: "TryPushRequest (sb_interf env) submit cl w = (st, cl1, w1)" by (metis prod_cases3)
  note r = TryPush_result [OF assms(1) t]
  show ?thesis
  proof (cases "st = Ok")
    case True
    then show ?thesis using r assms(2) by (auto simp: SubmitStep_def PhPush t off_hand_def Let_def)
  next
    case False
    with r have "client_progress cl cl1" by (simp add: same_progress)
    with False show ?thesis
      using assms(2) off_hand_failed [of cl cl1] progress_transport [of cl1 w1 cl' w' cl]
      by (auto simp: SubmitStep_def PhPush t Let_def split: if_splits prod.splits)
  qed
next
  case PhCreditSync
  obtain cl1 w1 where s: "SyncActiveRequestCreditWait (sb_dup env) cl w = (cl1, w1)" by (meson surj_pair)
  have "client_progress cl cl1" using same_progress [OF same_credit [of cl "sb_dup env" w]] by (simp add: s)
  then show ?thesis
    using assms(2) progress_transport [of cl1 w1 cl' w' cl]
    by (auto simp: SubmitStep_def PhCreditSync s Let_def split: if_splits prod.splits)
next
  case PhCreditPoll
  obtain r w1 where p: "WaitForRequestCredit (sb_poll env) cl w = (r, w1)" by (meson surj_pair)
  show ?thesis
    using assms(2) progress_transport [of cl w1 cl' w' cl] progress_refl
    by (auto simp: SubmitStep_def PhCreditPoll p Let_def split: if_splits prod.splits option.splits)
qed

section \<open>Invariant of the client\<close>

definition held :: "ClientThreads \<Rightarrow> PendingSubmit list" where
  "held ct = (case ct_inHand ct of None \<Rightarrow> [] | Some (s, i, ph) \<Rightarrow> [s]) @ cl_submitQueue (ct_client ct)"

definition tracked :: "ClientThreads \<Rightarrow> nat set" where
  "tracked ct = ps_future ` set (held ct) \<union> pr_future ` snd ` set (cl_store (ct_client ct))"

text \<open>Every future given out is ready or someone has it; request numbers are unique.\<close>

definition futures_ok :: "ClientThreads \<Rightarrow> bool" where
  "futures_ok ct \<longleftrightarrow> (\<forall>f < cl_nextFuture (ct_client ct). cl_futures (ct_client ct) f \<noteq> None \<or> f \<in> tracked ct)"

definition ids_ok :: "ClientThreads \<Rightarrow> bool" where
  "ids_ok ct \<longleftrightarrow> ct_invokes ct < 2 ^ 64 - 1 \<and> unat (cl_nextRequestId (ct_client ct)) = Suc (ct_invokes ct) \<and>
     distinct (map ps_requestId (held ct)) \<and> distinct (map fst (cl_store (ct_client ct))) \<and>
     ps_requestId ` set (held ct) \<inter> fst ` set (cl_store (ct_client ct)) = {} \<and>
     (\<forall>i \<in> ps_requestId ` set (held ct) \<union> fst ` set (cl_store (ct_client ct)). i < cl_nextRequestId (ct_client ct))"

definition control_ok :: "ClientThreads \<Rightarrow> bool" where
  "control_ok ct \<longleftrightarrow> (ct_inHand ct \<noteq> None \<longrightarrow> cl_workersRunning (ct_client ct)) \<and>
     cl_control (ct_client ct) \<noteq> ApiClosing \<and>
     (cl_control (ct_client ct) = ApiClosed \<longrightarrow> \<not> cl_workersRunning (ct_client ct) \<and> held ct = [] \<and>
        cl_store (ct_client ct) = [] \<and> cl_lifecycle (ct_client ct) = LcClosed \<and> cl_snapshot (ct_client ct) = 0)"

definition client_threads_inv :: "ClientThreads \<Rightarrow> bool" where
  "client_threads_inv ct \<longleftrightarrow> futures_ok ct \<and> ids_ok ct \<and> control_ok ct"

lemma tracked_progress:
  assumes "client_progress cl cl'" "futures_ok ct" "ct_client ct = cl" "ct_client ct' = cl'" "held ct' = held ct"
  shows "futures_ok ct'"
  unfolding futures_ok_def
proof (intro allI impI)
  fix f assume "f < cl_nextFuture (ct_client ct')"
  then have "cl_futures cl f \<noteq> None \<or> f \<in> tracked ct"
    using assms(1,2) unfolding futures_ok_def assms(3,4) by (simp add: client_progress_def)
  then show "cl_futures (ct_client ct') f \<noteq> None \<or> f \<in> tracked ct'"
  proof
    assume "cl_futures cl f \<noteq> None"
    then show ?thesis using progress_Some [OF assms(1)] assms(4) by simp
  next
    assume "f \<in> tracked ct"
    then consider (held) "f \<in> ps_future ` set (held ct)" | (stored) e where "e \<in> set (cl_store cl)" "f = pr_future (snd e)"
      using assms(3) by (auto simp: tracked_def)
    then show ?thesis
    proof cases
      case held
      then show ?thesis using assms(5) by (simp add: tracked_def)
    next
      case (stored e)
      then have "e \<in> set (cl_store cl') \<or> cl_futures cl' f \<noteq> None"
        using assms(1) by (auto simp: client_progress_def)
      then show ?thesis using stored(2) assms(4) by (auto simp: tracked_def)
    qed
  qed
qed

lemma ids_progress:
  assumes "client_progress cl cl'" "ids_ok ct" "ct_client ct = cl" "ct_client ct' = cl'" "held ct' = held ct"
    "ct_invokes ct' = ct_invokes ct"
  shows "ids_ok ct'"
proof -
  have sub: "fst ` set (cl_store cl') \<subseteq> fst ` set (cl_store cl)"
    using assms(1) by (auto simp: client_progress_def)
  have "ps_requestId ` set (held ct) \<inter> fst ` set (cl_store cl') = {}"
    using sub assms(2,3) unfolding ids_ok_def by blast
  moreover have "\<forall>i \<in> ps_requestId ` set (held ct) \<union> fst ` set (cl_store cl'). i < cl_nextRequestId cl"
    using sub assms(2,3) unfolding ids_ok_def by blast
  ultimately show ?thesis
    using assms unfolding ids_ok_def client_progress_def by simp
qed

text \<open>A step that only makes progress, on an open client.\<close>

lemma inv_progress:
  assumes "client_threads_inv ct" "client_progress (ct_client ct) cl" "cl_control (ct_client ct) \<noteq> ApiClosed \<or> cl = ct_client ct"
  shows "client_threads_inv (ct\<lparr>ct_client := cl, ct_world := w\<rparr>)"
proof -
  have h: "held (ct\<lparr>ct_client := cl, ct_world := w\<rparr>) = held ct"
    using assms(2) by (simp add: held_def client_progress_def)
  show ?thesis
    using assms tracked_progress [OF assms(2) _ refl _ h] ids_progress [OF assms(2) _ refl _ h] h
    by (auto simp: client_threads_inv_def control_ok_def client_progress_def)
qed

lemma inv_submit_take:
  assumes "client_threads_inv ct" "cl_workersRunning (ct_client ct)" "ct_inHand ct = None" "TakeSubmit (ct_client ct) = (Some submit, cl)"
  shows "client_threads_inv (ct\<lparr>ct_client := cl, ct_inHand := Some (submit, i, PhEnsure)\<rparr>)"
proof -
  obtain ss where q: "cl_submitQueue (ct_client ct) = submit # ss" "cl = (ct_client ct)\<lparr>cl_submitQueue := ss\<rparr>"
    using assms(4) by (auto simp: TakeSubmit_def split: list.splits)
  have "held (ct\<lparr>ct_client := cl, ct_inHand := Some (submit, i, PhEnsure)\<rparr>) = held ct"
    using assms(3) q by (simp add: held_def)
  with assms q show ?thesis
    by (auto simp: client_threads_inv_def futures_ok_def ids_ok_def control_ok_def tracked_def)
qed

lemma held_hand: "ct_inHand ct = Some (s, i, ph) \<Longrightarrow> held ct = s # cl_submitQueue (ct_client ct)"
  by (simp add: held_def)

lemma inv_submit_step:
  assumes "client_threads_inv ct" "ct_inHand ct = Some (submit, info, phase)"
    "SubmitStep env submit info phase (ct_client ct) (ct_world ct) = (next_phase, cl, w)"
  shows "client_threads_inv (ct\<lparr>ct_client := cl, ct_world := w,
      ct_inHand := map_option (\<lambda>ph. (submit, info, ph)) next_phase\<rparr>)" (is "client_threads_inv ?ct")
proof -
  note hold = held_hand [OF assms(2)]
  have fresh: "ps_requestId submit \<notin> fst ` set (cl_store (ct_client ct))"
    using assms(1) hold by (auto simp: client_threads_inv_def ids_ok_def)
  have open_: "cl_control (ct_client ct) \<noteq> ApiClosed"
    using assms(1,2) by (auto simp: client_threads_inv_def control_ok_def)
  note r = SubmitStep_result [OF fresh assms(3)]
  show ?thesis
  proof (cases next_phase)
    case (Some ph)
    with r have p: "client_progress (ct_client ct) cl" by simp
    have h: "held ?ct = held ct" using Some p hold by (simp add: held_def client_progress_def)
    show ?thesis
      using assms(1) open_ tracked_progress [OF p _ refl _ h] ids_progress [OF p _ refl _ h] p assms(2) Some
      by (auto simp: client_threads_inv_def control_ok_def client_progress_def)
  next
    case None
    with r consider "admits submit (ct_client ct) cl"
      | "client_progress (ct_client ct) cl" "cl_futures cl (ps_future submit) \<noteq> None"
      by (auto simp: off_hand_def)
    then show ?thesis
    proof cases
      case 1
      then obtain p where p: "pr_future p = ps_future submit" "cl_store cl = (ps_requestId submit, p) # cl_store (ct_client ct)"
        and same: "same_requests ((ct_client ct)\<lparr>cl_store := cl_store cl\<rparr>) cl"
        by (auto simp: admits_def)
      have h: "held ct = submit # held ?ct" using hold same None by (simp add: held_def same_requests_def)
      then have "tracked ?ct = tracked ct" using p by (auto simp: tracked_def)
      with assms(1) p same h open_ None fresh show ?thesis
        by (auto simp: client_threads_inv_def futures_ok_def ids_ok_def control_ok_def same_requests_def)
    next
      case 2
      let ?c2 = "ct\<lparr>ct_client := cl, ct_world := w\<rparr>"
      have i: "client_threads_inv ?c2" using inv_progress [OF assms(1) 2(1)] open_ by simp
      have h: "held ?c2 = submit # held ?ct" using assms(2) None by (simp add: held_def)
      then have "tracked ?c2 \<subseteq> insert (ps_future submit) (tracked ?ct)" by (auto simp: tracked_def)
      with 2(2) i h open_ None 2(1) show ?thesis
        by (auto simp: client_threads_inv_def futures_ok_def ids_ok_def control_ok_def client_progress_def)
    qed
  qed
qed

section \<open>Shutdown\<close>

text \<open>Once the client is closing, a failure only resolves the future.\<close>

definition closing_frame :: "Client \<Rightarrow> Client \<Rightarrow> bool" where
  "closing_frame cl cl' \<longleftrightarrow> cl_control cl' = cl_control cl \<and> cl_lifecycle cl' = cl_lifecycle cl \<and>
     cl_snapshot cl' = cl_snapshot cl \<and> cl_workersRunning cl' = cl_workersRunning cl \<and>
     cl_nextFuture cl' = cl_nextFuture cl \<and> cl_nextRequestId cl' = cl_nextRequestId cl \<and>
     (\<forall>f r. cl_futures cl f = Some r \<longrightarrow> cl_futures cl' f = Some r)"

lemma closing_refl: "closing_frame cl cl"
  by (simp add: closing_frame_def)

lemma closing_trans: "closing_frame cl cl1 \<Longrightarrow> closing_frame cl1 cl2 \<Longrightarrow> closing_frame cl cl2"
  by (simp add: closing_frame_def)

lemma closing_ready: "closing_frame cl cl' \<Longrightarrow> cl_futures cl f \<noteq> None \<Longrightarrow> cl_futures cl' f \<noteq> None"
  by (auto simp: closing_frame_def)

lemma closing_resolve: "closing_frame cl (ResolveState f r cl)"
  by (simp add: closing_frame_def ResolveState_futures)

lemma closing_fail:
  "cl_control cl \<noteq> ApiOpen \<Longrightarrow> FailAndResolve i st f cl w = (ResolveState f (status_reply st) cl, w)"
  by (simp add: FailAndResolve_def ApplyFailureRecoveryDecision_def ApplyFailureWith_def IsApiOpen_def)

lemma closing_each:
  assumes "cl_control cl \<noteq> ApiOpen"
  shows "closing_frame cl (fst (fail_each st ps cl w)) \<and>
    (\<forall>p \<in> set ps. cl_futures (fst (fail_each st ps cl w)) (pr_future p) \<noteq> None) \<and>
    cl_store (fst (fail_each st ps cl w)) = cl_store cl \<and> cl_submitQueue (fst (fail_each st ps cl w)) = cl_submitQueue cl"
  using assms
proof (induction ps arbitrary: cl w)
  case Nil
  then show ?case by (simp add: closing_refl)
next
  case (Cons p ps)
  let ?cl = "ResolveState (pr_future p) (status_reply st) cl"
  have "cl_control ?cl \<noteq> ApiOpen" using Cons.prems by simp
  note ih = Cons.IH [OF this, of w]
  have "cl_futures (fst (fail_each st ps ?cl w)) (pr_future p) \<noteq> None"
    using closing_ready [of ?cl] ih resolved by blast
  moreover have "closing_frame cl (fst (fail_each st ps ?cl w))" using closing_trans [OF closing_resolve] ih by blast
  ultimately show ?case using ih by (simp add: closing_fail [OF Cons.prems])
qed

lemma closing_drain:
  assumes "cl_control cl \<noteq> ApiOpen" "cl_submitQueue cl = qs"
  shows "closing_frame cl (fst (drain_submits qs cl w)) \<and>
    (\<forall>s \<in> set qs. cl_futures (fst (drain_submits qs cl w)) (ps_future s) \<noteq> None) \<and>
    cl_store (fst (drain_submits qs cl w)) = cl_store cl \<and> cl_submitQueue (fst (drain_submits qs cl w)) = []"
  using assms
proof (induction qs arbitrary: cl w)
  case Nil
  then show ?case by (simp add: closing_refl)
next
  case (Cons s qs)
  let ?cl = "ResolveState (ps_future s) (status_reply (RuntimeStopStatus cl)) (cl\<lparr>cl_submitQueue := qs\<rparr>)"
  have "cl_control ?cl \<noteq> ApiOpen" "cl_submitQueue ?cl = qs" using Cons.prems by simp_all
  note ih = Cons.IH [OF this, of w]
  have frame: "closing_frame cl ?cl"
    using closing_resolve [of "cl\<lparr>cl_submitQueue := qs\<rparr>"] by (simp add: closing_frame_def)
  have "cl_futures (fst (drain_submits qs ?cl w)) (ps_future s) \<noteq> None"
    using closing_ready [of ?cl] ih resolved by blast
  moreover have "closing_frame cl (fst (drain_submits qs ?cl w))" using closing_trans [OF frame] ih by blast
  ultimately show ?case using ih Cons.prems(1) by (simp add: ResolveSubmitFailure_def closing_fail)
qed

lemma closing_queued:
  "closing_frame cl (FailQueuedSubmissions st cl) \<and> cl_store (FailQueuedSubmissions st cl) = cl_store cl \<and>
   cl_submitQueue (FailQueuedSubmissions st cl) = [] \<and>
   (\<forall>s \<in> set (cl_submitQueue cl). cl_futures (FailQueuedSubmissions st cl) (ps_future s) \<noteq> None)"
proof -
  have "closing_frame c (fold (\<lambda>s. ResolveState (ps_future s) r) ss c) \<and>
      cl_store (fold (\<lambda>s. ResolveState (ps_future s) r) ss c) = cl_store c \<and>
      cl_submitQueue (fold (\<lambda>s. ResolveState (ps_future s) r) ss c) = cl_submitQueue c \<and>
      (\<forall>s \<in> set ss. cl_futures (fold (\<lambda>s. ResolveState (ps_future s) r) ss c) (ps_future s) \<noteq> None)" for c r ss
  proof (induction ss arbitrary: c)
    case Nil
    then show ?case by (simp add: closing_refl)
  next
    case (Cons s ss)
    let ?c = "ResolveState (ps_future s) r c"
    have "cl_futures (fold (\<lambda>s. ResolveState (ps_future s) r) ss ?c) (ps_future s) \<noteq> None"
      using Cons.IH [of ?c] closing_ready [of ?c] resolved by blast
    with Cons.IH [of ?c] show ?case using closing_trans [OF closing_resolve] by auto
  qed
  from this [of "cl\<lparr>cl_submitQueue := []\<rparr>" "status_reply st" "cl_submitQueue cl"]
  show ?thesis by (simp add: FailQueuedSubmissions_def) (simp add: closing_frame_def)
qed

lemma closing_outstanding:
  assumes "cl_control cl \<noteq> ApiOpen" "FailOutstandingWork st cl w = (cl', w')"
  shows "closing_frame cl cl' \<and> cl_store cl' = [] \<and> cl_submitQueue cl' = [] \<and>
    (\<forall>e \<in> set (cl_store cl). cl_futures cl' (pr_future (snd e)) \<noteq> None) \<and>
    (\<forall>s \<in> set (cl_submitQueue cl). cl_futures cl' (ps_future s) \<noteq> None)"
proof -
  let ?c1 = "fst (fail_each st (map snd (cl_store cl)) (cl\<lparr>cl_store := []\<rparr>) w)"
  have a: "closing_frame cl ?c1" "\<forall>e \<in> set (cl_store cl). cl_futures ?c1 (pr_future (snd e)) \<noteq> None"
    "cl_store ?c1 = []" "cl_submitQueue ?c1 = cl_submitQueue cl"
    using closing_each [of "cl\<lparr>cl_store := []\<rparr>" st "map snd (cl_store cl)" w] assms(1)
    by (auto simp: closing_frame_def)
  have r: "cl' = FailQueuedSubmissions st ?c1"
    using assms(2) by (auto simp: FailOutstandingWork_def FailAllPendingWithRecoveryPolicy_def StoreTakeAll_def split: prod.splits)
  have q: "closing_frame ?c1 cl'" using closing_queued r by blast
  show ?thesis
    using closing_queued [of ?c1 st] closing_trans [OF a(1) q] closing_ready [OF q] a r by auto
qed

lemma closing_join:
  assumes "cl_control cl \<noteq> ApiOpen" "join_submit_worker h cl w = (cl', w')"
  shows "closing_frame cl cl' \<and> cl_store cl' = cl_store cl \<and> cl_submitQueue cl' = [] \<and>
    (\<forall>s \<in> set (cl_submitQueue cl). cl_futures cl' (ps_future s) \<noteq> None) \<and>
    (\<forall>s i. h = Some (s, i) \<longrightarrow> cl_futures cl' (ps_future s) \<noteq> None)"
proof (cases h)
  case None
  then show ?thesis
    using assms closing_drain [OF assms(1) refl, of w] by (auto simp: join_submit_worker_def)
next
  case (Some a)
  obtain s i where a: "a = (s, i)" by (cases a)
  let ?cl = "ResolveState (ps_future s) (status_reply (RuntimeStopStatus cl)) cl"
  have "cl_control ?cl \<noteq> ApiOpen" using assms(1) by simp
  note d = closing_drain [OF this refl, of w]
  have r: "cl' = fst (drain_submits (cl_submitQueue ?cl) ?cl w)"
    using assms by (simp add: join_submit_worker_def Some a ResolveSubmitFailure_def closing_fail)
  then show ?thesis
    using d closing_trans [OF closing_resolve] closing_ready [of ?cl cl'] resolved Some a by auto
qed

text \<open>What \<^verbatim>\<open>Shutdown\<close> leaves: nothing to wait for, and a closed client.\<close>

definition shut :: "(PendingSubmit \<times> PendingInfo) option \<Rightarrow> Client \<Rightarrow> Client \<Rightarrow> bool" where
  "shut h cl cl' \<longleftrightarrow> cl_control cl' = ApiClosed \<and> cl_lifecycle cl' = LcClosed \<and> cl_snapshot cl' = 0 \<and>
     \<not> cl_workersRunning cl' \<and> cl_store cl' = [] \<and> cl_submitQueue cl' = [] \<and>
     cl_nextFuture cl' = cl_nextFuture cl \<and> cl_nextRequestId cl' = cl_nextRequestId cl \<and>
     (\<forall>f r. cl_futures cl f = Some r \<longrightarrow> cl_futures cl' f = Some r) \<and>
     (\<forall>e \<in> set (cl_store cl). cl_futures cl' (pr_future (snd e)) \<noteq> None) \<and>
     (\<forall>s \<in> set (cl_submitQueue cl). cl_futures cl' (ps_future s) \<noteq> None) \<and>
     (\<forall>s i. h = Some (s, i) \<longrightarrow> cl_futures cl' (ps_future s) \<noteq> None)"

definition stopping :: "Client \<Rightarrow> Client \<Rightarrow> bool" where
  "stopping cl cl' \<longleftrightarrow> cl_control cl' = ApiClosing \<and> cl_lifecycle cl' = LcClosed \<and> cl_snapshot cl' = 0 \<and>
     \<not> cl_workersRunning cl' \<and> cl_store cl' = cl_store cl \<and> cl_submitQueue cl' = cl_submitQueue cl \<and>
     cl_futures cl' = cl_futures cl \<and> cl_nextFuture cl' = cl_nextFuture cl \<and> cl_nextRequestId cl' = cl_nextRequestId cl"

lemma stopping_first:
  assumes "CloseSessionAndEnterTerminalClosedLocked (cl\<lparr>cl_control := ApiClosing\<rparr>) w = (cl2, w1)"
  shows "stopping cl (StopThreads (ClearCallbacks cl2)) \<and> cl_workersRunning (ClearCallbacks cl2) = cl_workersRunning cl"
proof -
  obtain cl1 where c: "CloseLiveSessionForTransportFailure (cl\<lparr>cl_control := ApiClosing\<rparr>) w = (cl1, w1)"
    "cl2 = EnterTerminalClosed (cl_snapshot cl1) cl1"
    using assms by (auto simp: CloseSessionAndEnterTerminalClosedLocked_def split: prod.splits)
  have "same_requests (cl\<lparr>cl_control := ApiClosing\<rparr>) cl2"
    using same_trans [OF same_close(3) same_recovery_state(4)] c by (metis fst_conv)
  moreover have "cl_snapshot cl1 = 0"
    using c(1) by (auto simp: CloseLiveSessionForTransportFailure_def CloseLiveSession_def close_session_def
        NotifyRecoveryStateChanged_def split: prod.splits)
  then have "cl_snapshot cl2 = 0" "cl_lifecycle cl2 = LcClosed"
    using c(2) by (simp_all add: EnterTerminalClosed_def NotifyRecoveryStateChanged_def TransitionLifecycle_def
        ApplyTransitionLocked_def Let_def)
  ultimately show ?thesis
    by (auto simp: stopping_def same_requests_def StopThreads_def StopRuntime_def ClearCallbacks_def ClearDeathCallback_def
        NotifyRecoveryStateChanged_def)
qed

lemma Shutdown_result:
  assumes "cl_control cl = ApiUninitialized \<or> cl_control cl = ApiOpen" "Shutdown h cl w = (cl', w')"
    "\<not> cl_workersRunning cl \<longrightarrow> h = None"
  shows "shut h cl cl'"
proof -
  obtain cl2 w1 where c: "CloseSessionAndEnterTerminalClosedLocked (cl\<lparr>cl_control := ApiClosing\<rparr>) w = (cl2, w1)"
    by (meson surj_pair)
  define cl4 where "cl4 = StopThreads (ClearCallbacks cl2)"
  note st = stopping_first [OF c, folded cl4_def]
  obtain cl5 w2 where j: "(if cl_workersRunning cl then join_submit_worker h cl4 w1 else (cl4, w1)) = (cl5, w2)"
    by (meson surj_pair)
  obtain cl6 w3 where o: "FailOutstandingWork ClientClosed cl5 w2 = (cl6, w3)" by (meson surj_pair)
  have r: "cl' = FinishShutdown cl6"
    using assms(1,2) c st j o by (auto simp: Shutdown_def BeginShutdown_def cl4_def Let_def)
  have closing: "cl_control cl4 \<noteq> ApiOpen" using st by (simp add: stopping_def)
  have five: "closing_frame cl4 cl5 \<and> cl_store cl5 = cl_store cl \<and>
      (\<forall>s \<in> set (cl_submitQueue cl). cl_futures cl5 (ps_future s) \<noteq> None \<or> s \<in> set (cl_submitQueue cl5)) \<and>
      (\<forall>s i. h = Some (s, i) \<longrightarrow> cl_futures cl5 (ps_future s) \<noteq> None)"
    using j closing_join [OF closing] assms(3) st closing_refl by (auto simp: stopping_def split: if_splits)
  then have "cl_control cl5 \<noteq> ApiOpen" using closing by (simp add: closing_frame_def)
  note six = closing_outstanding [OF this o]
  then have fr: "closing_frame cl4 cl6" using five closing_trans by blast
  have "cl_futures cl6 (ps_future s) \<noteq> None" if "s \<in> set (cl_submitQueue cl)" for s
    using five six that closing_ready by blast
  moreover have "cl_futures cl6 (ps_future s) \<noteq> None" if "h = Some (s, i)" for s i
    using five six that closing_ready by blast
  ultimately show ?thesis
    using fr six five st unfolding r by (simp add: shut_def FinishShutdown_def stopping_def closing_frame_def)
qed

section \<open>Every step keeps the invariant\<close>

lemma next_id:
  assumes "unat (i :: u64) = Suc n" "Suc (Suc n) < 2 ^ 64"
  shows "unat (i + 1) = Suc (Suc n)" "i < i + 1"
proof -
  show u: "unat (i + 1) = Suc (Suc n)" using assms by (simp add: unat_word_ariths)
  then show "i < i + 1" using assms by (simp add: word_less_nat_alt)
qed

text \<open>A new number is fresh.\<close>

lemma disjoint_single: "N \<subseteq> {i} \<Longrightarrow> i \<notin> A \<union> B \<Longrightarrow> A \<inter> B = {} \<Longrightarrow> A \<inter> N = {} \<and> (A \<union> N) \<inter> B = {}"
  by blast

lemma ids_next:
  assumes "ids_ok ct" "Suc (Suc (ct_invokes ct)) < 2 ^ 64" "cl_store (ct_client ct') = cl_store (ct_client ct)"
    "cl_nextRequestId (ct_client ct') = cl_nextRequestId (ct_client ct) + 1" "ct_invokes ct' = Suc (ct_invokes ct)"
    "held ct' = held ct @ new" "map ps_requestId new = [] \<or> map ps_requestId new = [cl_nextRequestId (ct_client ct)]"
  shows "ids_ok ct'"
proof -
  let ?used = "ps_requestId ` set (held ct) \<union> fst ` set (cl_store (ct_client ct))"
  let ?i = "cl_nextRequestId (ct_client ct)"
  have ids: "unat ?i = Suc (ct_invokes ct)" and below: "\<forall>i \<in> ?used. i < ?i"
    using assms(1) by (simp_all add: ids_ok_def)
  note nxt = next_id [OF ids assms(2)]
  have fresh: "?i \<notin> ?used" using below by blast
  have "set (map ps_requestId new) \<subseteq> {?i}" using assms(7) by (elim disjE) simp_all
  then have sub: "ps_requestId ` set new \<subseteq> {?i}" by simp
  have disj: "ps_requestId ` set (held ct) \<inter> fst ` set (cl_store (ct_client ct)) = {}" using assms(1) by (simp add: ids_ok_def)
  note new = disjoint_single [OF sub fresh disj]
  have "distinct (map ps_requestId (held ct) @ map ps_requestId new)"
  proof -
    have "distinct (map ps_requestId new)" using assms(7) by (elim disjE) simp_all
    then show ?thesis using assms(1) new by (simp add: ids_ok_def)
  qed
  moreover have "ps_requestId ` set (held ct @ new) \<inter> fst ` set (cl_store (ct_client ct)) = {}"
    using new by (simp only: set_append image_Un)
  moreover have "i < ?i + 1" if "i \<in> ps_requestId ` set (held ct @ new) \<union> fst ` set (cl_store (ct_client ct))" for i
  proof -
    have "i \<in> ?used \<or> i = ?i" using that sub unfolding set_append image_Un by blast
    then show ?thesis using below nxt(2) order.strict_trans by blast
  qed
  moreover have "distinct (map fst (cl_store (ct_client ct)))" using assms(1) by (simp add: ids_ok_def)
  ultimately show ?thesis
    using assms(2) nxt(1) unfolding ids_ok_def assms(3-6) map_append by simp
qed

lemma inv_invoke:
  assumes "client_threads_inv ct" "InvokeAsync call (ct_client ct) (ct_world ct) = (f, cl, w)" "Suc (Suc (ct_invokes ct)) < 2 ^ 64"
  shows "client_threads_inv (ct\<lparr>ct_client := cl, ct_world := w, ct_invokes := Suc (ct_invokes ct)\<rparr>)" (is "client_threads_inv ?ct")
proof -
  let ?c = "ct_client ct"
  let ?new = "?c\<lparr>cl_nextFuture := Suc (cl_nextFuture ?c), cl_futures := (cl_futures ?c)(cl_nextFuture ?c := None),
    cl_nextRequestId := cl_nextRequestId ?c + 1\<rparr>"
  have old: "futures_ok ct" "ids_ok ct" "control_ok ct" using assms(1) by (simp_all add: client_threads_inv_def)
  show ?thesis
  proof (cases "cl_control ?c = ApiOpen")
    case True
    let ?s = "\<lparr>ps_call = call, ps_requestId = cl_nextRequestId ?c, ps_future = cl_nextFuture ?c\<rparr>"
    have cl: "cl = ?new\<lparr>cl_submitQueue := cl_submitQueue ?c @ [?s]\<rparr>"
      using assms(2) True by (auto simp: InvokeAsync_def AdmissionStatusForInvoke_def new_future_def EnqueueSubmitLocked_def)
    have h: "held ?ct = held ct @ [?s]" by (simp add: held_def cl)
    have "futures_ok ?ct"
      using old(1) h by (auto simp: futures_ok_def tracked_def cl less_Suc_eq)
    moreover have "ids_ok ?ct" by (rule ids_next [OF old(2) assms(3) _ _ _ h]) (simp_all add: cl)
    moreover have "control_ok ?ct" using old(3) True by (simp add: control_ok_def cl)
    ultimately show ?thesis by (simp add: client_threads_inv_def)
  next
    case False
    have cl: "cl = ResolveState (cl_nextFuture ?c) (status_reply ClientClosed) ?new"
      using assms(2) False by (auto simp: InvokeAsync_def AdmissionStatusForInvoke_def new_future_def RejectInvoke_def)
    have h: "held ?ct = held ct @ []" by (simp add: held_def cl)
    have "futures_ok ?ct"
      using old(1) h by (auto simp: futures_ok_def tracked_def cl less_Suc_eq ResolveState_futures)
    moreover have "ids_ok ?ct" by (rule ids_next [OF old(2) assms(3) _ _ _ h]) (simp_all add: cl)
    moreover have "control_ok ?ct" using old(3) h by (simp add: control_ok_def cl)
    ultimately show ?thesis by (simp add: client_threads_inv_def)
  qed
qed

lemma not_open:
  "control_ok ct \<Longrightarrow> cl_control (ct_client ct) \<noteq> ApiClosed \<Longrightarrow>
   cl_control (ct_client ct) = ApiUninitialized \<or> cl_control (ct_client ct) = ApiOpen"
  by (cases "cl_control (ct_client ct)") (auto simp: control_ok_def)

lemma inv_shut:
  assumes "client_threads_inv ct" "shut (hand_entry ct) (ct_client ct) cl"
  shows "client_threads_inv (ct\<lparr>ct_client := cl, ct_world := w, ct_inHand := None\<rparr>)"
proof -
  let ?ct = "ct\<lparr>ct_client := cl, ct_world := w, ct_inHand := None\<rparr>"
  have h: "held ?ct = []" using assms(2) by (simp add: held_def shut_def)
  have ready: "cl_futures cl f \<noteq> None" if "f \<in> tracked ct" for f
    using that assms(2) by (cases "ct_inHand ct") (auto simp: tracked_def held_def hand_entry_def shut_def)
  have "futures_ok ?ct"
    using assms ready by (fastforce simp: client_threads_inv_def futures_ok_def shut_def)
  moreover have "ids_ok ?ct" using assms h by (simp add: client_threads_inv_def ids_ok_def shut_def)
  moreover have "control_ok ?ct" using assms(2) h by (simp add: control_ok_def shut_def)
  ultimately show ?thesis by (simp add: client_threads_inv_def)
qed

lemma Shutdown_closed: "cl_control cl = ApiClosed \<Longrightarrow> Shutdown h cl w = (cl, w)"
  by (simp add: Shutdown_def BeginShutdown_def)

lemma Shutdown_shut:
  assumes "client_threads_inv ct" "cl_control (ct_client ct) \<noteq> ApiClosed" "Shutdown (hand_entry ct) (ct_client ct) w = (cl, w')"
  shows "shut (hand_entry ct) (ct_client ct) cl"
proof (rule Shutdown_result [OF _ assms(3)])
  have c: "control_ok ct" using assms(1) by (simp add: client_threads_inv_def)
  show "cl_control (ct_client ct) = ApiUninitialized \<or> cl_control (ct_client ct) = ApiOpen"
    using not_open [OF c assms(2)] .
  show "\<not> cl_workersRunning (ct_client ct) \<longrightarrow> hand_entry ct = None"
    using c by (cases "ct_inHand ct") (simp_all add: control_ok_def hand_entry_def)
qed

lemma inv_shutdown:
  assumes "client_threads_inv ct" "Shutdown (hand_entry ct) (ct_client ct) (ct_world ct) = (cl, w)"
  shows "client_threads_inv (ct\<lparr>ct_client := cl, ct_world := w,
      ct_inHand := (if cl_control cl = ApiClosed \<and> cl_control (ct_client ct) \<noteq> ApiClosed then None else ct_inHand ct)\<rparr>)"
proof (cases "cl_control (ct_client ct) = ApiClosed")
  case True
  then have "cl = ct_client ct" using assms(2) Shutdown_closed by simp
  then show ?thesis
    using True inv_progress [OF assms(1) progress_refl, of w] by (cases ct) simp
next
  case False
  note s = Shutdown_shut [OF assms(1) False assms(2)]
  then show ?thesis using False inv_shut [OF assms(1) s, of w] by (simp add: shut_def)
qed

lemma same_init_start:
  "same_requests (cl\<lparr>cl_workersRunning := True\<rparr>) (InitStart mode cl)" if "\<not> cl_workersRunning cl"
  using that by (simp add: same_requests_def InitStart_def StartRuntime_def PrepareForInitOpen_def TouchActivity_def)

lemma inv_running:
  "client_threads_inv ct \<Longrightarrow> cl_control (ct_client ct) \<noteq> ApiClosed \<Longrightarrow> cl' = (ct_client ct)\<lparr>cl_workersRunning := True\<rparr> \<Longrightarrow>
   client_threads_inv (ct\<lparr>ct_client := cl'\<rparr>)"
  by (auto simp: client_threads_inv_def futures_ok_def tracked_def held_def ids_ok_def control_ok_def)

lemma inv_open:
  "client_threads_inv (ct\<lparr>ct_client := cl, ct_world := w\<rparr>) \<Longrightarrow> cl_control cl \<noteq> ApiClosed \<Longrightarrow>
   client_threads_inv (ct\<lparr>ct_client := cl\<lparr>cl_control := ApiOpen\<rparr>, ct_world := w\<rparr>)"
  by (simp add: client_threads_inv_def futures_ok_def tracked_def held_def ids_ok_def control_ok_def)

lemma inv_init_finish:
  assumes "client_threads_inv ct" "cl_control (ct_client ct) \<noteq> ApiClosed" "ct_inHand ct = None"
    "InitFinish mode (ct_client ct) w0 = (status, cl, w)"
  shows "client_threads_inv (ct\<lparr>ct_client := cl, ct_world := w\<rparr>)"
proof -
  obtain st cl1 w1 where e: "(if mode = EagerSession then EnsureLiveSessionLocked (ct_client ct) w0 else (Ok, ct_client ct, w0)) = (st, cl1, w1)"
    by (metis prod_cases3)
  have "same_requests (ct_client ct) cl1"
    using e same_ensure [of "ct_client ct" w0] by (auto simp: same_requests_def split: if_splits)
  note p = same_progress [OF this]
  have i: "client_threads_inv (ct\<lparr>ct_client := cl1, ct_world := w1\<rparr>)" using inv_progress [OF assms(1) p] assms(2) by simp
  show ?thesis
  proof (cases "st = Ok")
    case False
    let ?ct = "ct\<lparr>ct_client := cl1, ct_world := w1\<rparr>"
    have "Shutdown (hand_entry ?ct) (ct_client ?ct) w1 = (cl, w)"
      using assms(3,4) e False by (auto simp: InitFinish_def hand_entry_def)
    moreover have "cl_control (ct_client ?ct) \<noteq> ApiClosed" using p assms(2) by (simp add: client_progress_def)
    ultimately have "client_threads_inv (?ct\<lparr>ct_client := cl, ct_world := w, ct_inHand := None\<rparr>)"
      using inv_shut [OF i Shutdown_shut [OF i]] by blast
    with assms(3) show ?thesis by (cases ct) simp
  next
    case True
    have "cl_control cl1 \<noteq> ApiClosed" using p assms(2) by (simp add: client_progress_def)
    moreover have "w = w1" "cl = cl1 \<or> cl = cl1\<lparr>cl_control := ApiOpen\<rparr>"
      using True assms(4) e by (auto simp: InitFinish_def FinishInit_def split: if_splits)
    ultimately show ?thesis using i inv_open [OF i] by auto
  qed
qed

lemma inv_init:
  assumes "client_threads_inv ct" "Init mode (ct_client ct) (ct_world ct) = (status, cl, w)"
  shows "client_threads_inv (ct\<lparr>ct_client := cl, ct_world := w\<rparr>)"
proof (cases "cl_control (ct_client ct) = ApiClosed \<or> cl_workersRunning (ct_client ct)")
  case True
  have same: "same_requests (ct_client ct) (fst (snd (EnsureLiveSessionLocked (ct_client ct) (ct_world ct))))" by (rule same_ensure)
  with True assms(2) have p: "client_progress (ct_client ct) cl \<and> (cl_control (ct_client ct) \<noteq> ApiClosed \<or> cl = ct_client ct)"
    by (auto simp: Init_def InitCheck_def progress_refl same_progress split: if_splits prod.splits)
  show ?thesis using inv_progress [OF assms(1)] p by blast
next
  case False
  then have hand: "ct_inHand ct = None" using assms(1) unfolding client_threads_inv_def control_ok_def by blast
  let ?ct1 = "ct\<lparr>ct_client := (ct_client ct)\<lparr>cl_workersRunning := True\<rparr>\<rparr>"
  let ?ct2 = "?ct1\<lparr>ct_client := InitStart mode (ct_client ct), ct_world := ct_world ct\<rparr>"
  have i1: "client_threads_inv ?ct1" using inv_running [OF assms(1)] False by simp
  have s: "same_requests (ct_client ?ct1) (InitStart mode (ct_client ct))" using same_init_start False by simp
  have i2: "client_threads_inv ?ct2"
    using inv_progress [OF i1 same_progress [OF s], of "ct_world ct"] False by simp
  have "cl_control (ct_client ?ct2) \<noteq> ApiClosed" using s False by (simp add: same_requests_def)
  moreover have "InitFinish mode (ct_client ?ct2) (ct_world ct) = (status, cl, w)"
    using assms(2) False by (simp add: Init_def InitCheck_def)
  ultimately have "client_threads_inv (?ct2\<lparr>ct_client := cl, ct_world := w\<rparr>)"
    using inv_init_finish [OF i2] hand by simp
  then show ?thesis by simp
qed

end
