(* ===== verification/Memrpc_ClientClaims.thy ===== *)
theory Memrpc_ClientClaims
  imports Memrpc_ClientProps
begin

text \<open>
  The properties of the client with their witnesses: the invariant of \<open>Memrpc_ClientProps\<close> along the steps of the threads,
  futures, shutdown, engine death, the retry loop, and what the code leaves open.
\<close>

lemma closed_quiet:
  assumes "cl_control cl = ApiClosed"
  shows "BootstrapDeathCallback s cl w = (cl, w)" "RequestExternalRecovery r cl w = (cl, w)"
  using assms by (simp_all add: BootstrapDeathCallback_def HandleEngineDeath_def RequestExternalRecovery_def IsApiOpen_def)

text \<open>Fields the application or the clock sets between steps.\<close>

definition other_fields :: "Client \<Rightarrow> Client \<Rightarrow> bool" where
  "other_fields cl cl' \<longleftrightarrow> same_requests cl cl' \<and> cl_lifecycle cl' = cl_lifecycle cl \<and> cl_snapshot cl' = cl_snapshot cl"

lemma inv_other:
  "client_threads_inv ct \<Longrightarrow> other_fields (ct_client ct) cl \<Longrightarrow> client_threads_inv (ct\<lparr>ct_client := cl, ct_world := w\<rparr>)"
  by (simp add: client_threads_inv_def futures_ok_def tracked_def held_def ids_ok_def control_ok_def other_fields_def
      same_requests_def)

lemma other_setters:
  "other_fields cl (SetRecoveryPolicy policy cl)" "other_fields cl (SetEventCallback b (SetRecoveryEventCallback c cl))"
  "other_fields cl (SetBootstrapChannel channel cl)" "other_fields cl (cl\<lparr>cl_now := now\<rparr>)"
  by (auto simp: other_fields_def same_requests_def SetRecoveryPolicy_def SetEventCallback_def SetRecoveryEventCallback_def
      SetBootstrapChannel_def InstallDeathCallback_def split: option.split)

lemma inv_worker:
  assumes "client_threads_inv ct" "client_progress (ct_client ct) cl" "cl_workersRunning (ct_client ct)"
  shows "client_threads_inv (ct\<lparr>ct_client := cl, ct_world := w\<rparr>)"
  using assms(1,3) by (intro inv_progress [OF assms(1,2)]) (auto simp: client_threads_inv_def control_ok_def)

lemma inv_caller:
  assumes "client_threads_inv ct" "client_progress (ct_client ct) cl" "cl_control (ct_client ct) = ApiClosed \<Longrightarrow> cl = ct_client ct"
  shows "client_threads_inv (ct\<lparr>ct_client := cl, ct_world := w\<rparr>)"
  using assms by (intro inv_progress) auto

lemma world_only: "ct\<lparr>ct_client := cl\<rparr> = ct\<lparr>ct_client := cl, ct_world := ct_world ct\<rparr>"
  by simp

lemma inv_thread_step:
  assumes "client_thread_step ct ct'" "client_threads_inv ct"
  shows "client_threads_inv ct'"
  using assms
proof (cases rule: client_thread_step.cases)
  case (invoke call f cl w)
  then show ?thesis using inv_invoke [OF assms(2)] by blast
next
  case (submit_take submit cl)
  then show ?thesis using inv_submit_take [OF assms(2)] by blast
next
  case (submit_step submit info phase env next_phase cl w)
  then show ?thesis using inv_submit_step [OF assms(2)] by blast
next
  case (response again cl w)
  have "distinct (map fst (cl_store (ct_client ct)))" using assms(2) by (simp add: client_threads_inv_def ids_ok_def)
  then show ?thesis using response inv_worker [OF assms(2) progress_response] by blast
next
  case (response_signal fd session pollCall cl w)
  then show ?thesis using inv_worker [OF assms(2)] progress_watchdog(5) by (metis fst_conv)
next
  case (timeouts cl w)
  then show ?thesis using inv_worker [OF assms(2)] progress_timeouts by (metis fst_conv)
next
  case (health checkHealth cl w)
  then show ?thesis using inv_worker [OF assms(2)] progress_watchdog(2) by (metis fst_conv)
next
  case (idle cl w)
  then show ?thesis using inv_worker [OF assms(2)] progress_watchdog(1) by (metis fst_conv)
next
  case (death session cl w)
  then show ?thesis using inv_caller [OF assms(2)] progress_watchdog(3) closed_quiet(1) by (metis fst_conv)
next
  case (external request cl w)
  then show ?thesis using inv_caller [OF assms(2)] progress_watchdog(4) closed_quiet(2) by (metis fst_conv)
next
  case (init mode status cl w)
  then show ?thesis using inv_init [OF assms(2)] by blast
next
  case (shutdown cl w)
  then show ?thesis using inv_shutdown [OF assms(2)] by blast
next
  case (set_policy policy)
  then show ?thesis using inv_other [OF assms(2) other_setters(1)] world_only by metis
next
  case (set_callbacks b c)
  then show ?thesis using inv_other [OF assms(2) other_setters(2)] world_only by metis
next
  case (set_bootstrap channel)
  then show ?thesis using inv_other [OF assms(2) other_setters(3)] world_only by metis
next
  case (server_and_clock now w)
  then show ?thesis using inv_other [OF assms(2) other_setters(4), of w now] by (cases ct) simp
qed

lemma client_threads_reachable_inv: "client_threads_reachable ct \<Longrightarrow> client_threads_inv ct"
proof (induction rule: client_threads_reachable.induct)
  case (constructed a lock channel w)
  then show ?case
    by (simp add: client_threads_inv_def futures_ok_def ids_ok_def control_ok_def held_def new_RpcClient_def
        SetBootstrapChannel_def InstallDeathCallback_def split: option.split)
next
  case (stepped ct ct')
  then show ?case using inv_thread_step by blast
qed

section \<open>Properties\<close>

text \<open>C1: Whatever the interleaving of callers, submit worker, response worker, watchdog, death callback, recovery and server, and
  whatever recovery policy is installed, no future is forgotten: each future \<^verbatim>\<open>InvokeAsync\<close> has returned is ready, or its
  submission is in the queue or in the hand of the submit worker, or its request is in the store of admitted requests
  under a number that no other request has.\<close>

theorem client_no_forgotten_future:
  assumes "client_threads_reachable ct" "f < cl_nextFuture (ct_client ct)"
  shows "IsReady (Some f) (ct_client ct) \<or>
    (\<exists>submit \<in> set (cl_submitQueue (ct_client ct)). ps_future submit = f) \<or>
    (\<exists>submit info phase. ct_inHand ct = Some (submit, info, phase) \<and> ps_future submit = f) \<or>
    (\<exists>i pending. map_of (cl_store (ct_client ct)) i = Some pending \<and> pr_future pending = f)"
proof -
  note inv = client_threads_reachable_inv [OF assms(1)]
  have d: "distinct (map fst (cl_store (ct_client ct)))" using inv by (simp add: client_threads_inv_def ids_ok_def)
  have "cl_futures (ct_client ct) f \<noteq> None \<or> f \<in> tracked ct"
    using inv assms(2) by (simp add: client_threads_inv_def futures_ok_def)
  then consider "cl_futures (ct_client ct) f \<noteq> None" | submit where "submit \<in> set (held ct)" "ps_future submit = f"
    | e where "e \<in> set (cl_store (ct_client ct))" "pr_future (snd e) = f"
    by (auto simp: tracked_def)
  then show ?thesis
  proof cases
    case 1
    then show ?thesis by (simp add: IsReady_def)
  next
    case 2
    then show ?thesis by (cases "ct_inHand ct") (auto simp: held_def)
  next
    case (3 e)
    then show ?thesis using map_of_is_SomeI [OF d, of "fst e" "snd e"] by auto
  qed
qed

definition demo_client0 :: Client where
  "demo_client0 = new_RpcClient lp64_abi demo_lock None"

definition demo_call :: RpcCall where
  "demo_call = \<lparr>ca_opcode = 7, ca_priority = PriorityNormal, ca_execTimeoutMs = 0, ca_payload = [1, 2, 3]\<rparr>"

definition demo_cthreads0 :: ClientThreads where
  "demo_cthreads0 = \<lparr>ct_client = demo_client0, ct_world = demo_world, ct_inHand = None, ct_invokes = 0\<rparr>"

definition demo_cthreads1 :: ClientThreads where
  "demo_cthreads1 = demo_cthreads0\<lparr>ct_client := fst (snd (Init LazySession demo_client0 demo_world))\<rparr>"

definition demo_cthreads :: ClientThreads where
  "demo_cthreads = demo_cthreads1\<lparr>ct_client := fst (snd (InvokeAsync demo_call (ct_client demo_cthreads1) demo_world)), ct_invokes := 1\<rparr>"

lemmas demo_cthreads_defs = demo_cthreads_def demo_cthreads1_def demo_cthreads0_def demo_client0_def demo_call_def
  new_RpcClient_def SetBootstrapChannel_def InstallDeathCallback_def Init_def InitCheck_def InitStart_def InitFinish_def
  StartRuntime_def PrepareForInitOpen_def TouchActivity_def FinishInit_def InvokeAsync_def AdmissionStatusForInvoke_def
  new_future_def EnqueueSubmitLocked_def

lemma demo_client_reachable: "client_threads_reachable demo_cthreads"
proof -
  have "client_threads_reachable demo_cthreads0"
    unfolding demo_cthreads0_def demo_client0_def by (rule client_threads_reachable.constructed)
  moreover have "client_thread_step demo_cthreads0 demo_cthreads1"
  proof -
    have "Init LazySession (ct_client demo_cthreads0) (ct_world demo_cthreads0) = (Ok, ct_client demo_cthreads1, demo_world)"
      by (simp add: demo_cthreads_defs)
    from client_thread_step.init [OF this] show ?thesis by (simp add: demo_cthreads1_def demo_cthreads0_def)
  qed
  moreover have "client_thread_step demo_cthreads1 demo_cthreads"
  proof -
    have "InvokeAsync demo_call (ct_client demo_cthreads1) (ct_world demo_cthreads1) = (0, ct_client demo_cthreads, demo_world)"
      by (simp add: demo_cthreads_defs)
    from client_thread_step.invoke [OF this] show ?thesis by (simp add: demo_cthreads_def demo_cthreads1_def demo_cthreads0_def)
  qed
  ultimately show ?thesis using client_threads_reachable.stepped by blast
qed

theorem client_no_forgotten_future_witness:
  "\<not> IsReady (Some 0) (ct_client demo_cthreads) \<and> (\<exists>submit \<in> set (cl_submitQueue (ct_client demo_cthreads)). ps_future submit = 0)"
proof -
  have n: "0 < cl_nextFuture (ct_client demo_cthreads)" by (simp add: demo_cthreads_defs)
  have "\<not> IsReady (Some 0) (ct_client demo_cthreads)" "ct_inHand demo_cthreads = None" "cl_store (ct_client demo_cthreads) = []"
    by (simp_all add: demo_cthreads_defs IsReady_def)
  with client_no_forgotten_future [OF demo_client_reachable n] show ?thesis by simp
qed



lemma admits_keep: "admits submit cl cl' \<Longrightarrow> cl_futures cl' = cl_futures cl"
  by (simp add: admits_def same_requests_def)

lemma off_hand_keep: "off_hand submit cl cl' \<Longrightarrow> cl_futures cl f = Some r \<Longrightarrow> cl_futures cl' f = Some r"
  by (auto simp: off_hand_def admits_keep client_progress_def)

lemma invoke_keep:
  "InvokeAsync call cl w = (g, cl', w') \<Longrightarrow> f < cl_nextFuture cl \<Longrightarrow> cl_futures cl f = Some r \<Longrightarrow> cl_futures cl' f = Some r"
  by (cases "cl_control cl = ApiOpen")
    (auto simp: InvokeAsync_def AdmissionStatusForInvoke_def RejectInvoke_def new_future_def EnqueueSubmitLocked_def ResolveState_futures)

lemma shutdown_keep:
  assumes "client_threads_inv ct" "Shutdown (hand_entry ct) (ct_client ct) w = (cl, w')" "cl_futures (ct_client ct) f = Some r"
  shows "cl_futures cl f = Some r"
  using Shutdown_shut [OF assms(1) _ assms(2)] Shutdown_closed [of "ct_client ct" "hand_entry ct" w] assms(2,3)
  by (cases "cl_control (ct_client ct) = ApiClosed") (auto simp: shut_def)

lemma init_keep:
  assumes "client_threads_inv ct" "Init mode (ct_client ct) w = (st, cl, w')" "cl_futures (ct_client ct) f = Some r"
  shows "cl_futures cl f = Some r"
proof -
  have keep: "cl_futures (fst (snd (EnsureLiveSessionLocked c w))) = cl_futures c"
    "cl_control (fst (snd (EnsureLiveSessionLocked c w))) = cl_control c" for c
    using same_ensure [of c w] by (simp_all add: same_requests_def)
  have shut: "cl_futures c' f = Some r"
    if "Shutdown None c v = (c', v')" "cl_futures c f = Some r" "cl_control c = ApiUninitialized \<or> cl_control c = ApiOpen" for c v c' v'
    using Shutdown_result [OF that(3,1)] that(2) by (simp add: shut_def)
  have ctl: "cl_control (ct_client ct) = ApiUninitialized \<or> cl_control (ct_client ct) = ApiOpen" if "cl_control (ct_client ct) \<noteq> ApiClosed"
    using not_open [OF _ that] assms(1) by (simp add: client_threads_inv_def)
  let ?c = "InitStart mode (ct_client ct)"
  have start: "cl_futures ?c = cl_futures (ct_client ct)" "cl_control ?c = cl_control (ct_client ct)"
    by (simp_all add: InitStart_def StartRuntime_def PrepareForInitOpen_def TouchActivity_def)
  show ?thesis
  proof (cases "cl_control (ct_client ct) = ApiClosed \<or> cl_workersRunning (ct_client ct)")
    case True
    then show ?thesis
      using assms(2,3) keep [of "ct_client ct"] by (auto simp: Init_def InitCheck_def split: if_splits prod.splits)
  next
    case False
    then have fin: "InitFinish mode ?c w = (st, cl, w')" using assms(2) by (simp add: Init_def InitCheck_def)
    obtain st1 c1 w1 where e: "(if mode = EagerSession then EnsureLiveSessionLocked ?c w else (Ok, ?c, w)) = (st1, c1, w1)"
      by (metis prod_cases3)
    have c1: "cl_futures c1 f = Some r" "cl_control c1 = cl_control (ct_client ct)"
      using e keep [of ?c] start assms(3) by (auto split: if_splits)
    show ?thesis
    proof (cases "st1 = Ok")
      case True
      then show ?thesis using fin e c1 by (auto simp: InitFinish_def FinishInit_def split: if_splits)
    next
      case False
      then have "Shutdown None c1 w1 = (cl, w')" using fin e by (auto simp: InitFinish_def)
      from shut [OF this c1(1)] show ?thesis using c1(2) ctl \<open>\<not> (_ \<or> _)\<close> by simp
    qed
  qed
qed

text \<open>C27: The first reply is final: once a future is ready, no step of any thread, no late response, timeout, recovery, engine
  death or shutdown gives it another reply.\<close>

theorem client_reply_is_final:
  assumes "client_threads_reachable ct" "client_thread_step ct ct'" "f < cl_nextFuture (ct_client ct)"
    "Wait (Some f) (ct_client ct) = Some reply"
  shows "Wait (Some f) (ct_client ct') = Some reply"
proof -
  note inv = client_threads_reachable_inv [OF assms(1)]
  have r: "cl_futures (ct_client ct) f = Some reply" using assms(4) by (simp add: Wait_def)
  have progress: "cl_futures cl f = Some reply" if "client_progress (ct_client ct) cl" for cl
    using that r by (simp add: client_progress_def)
  have other: "cl_futures cl f = Some reply" if "other_fields (ct_client ct) cl" for cl
    using that r by (simp add: other_fields_def same_requests_def)
  have "cl_futures (ct_client ct') f = Some reply"
    using assms(2)
  proof (cases rule: client_thread_step.cases)
    case (invoke call g cl w)
    then show ?thesis using invoke_keep [OF _ assms(3) r] by simp
  next
    case (submit_take submit cl)
    then show ?thesis using r by (auto simp: TakeSubmit_def split: list.splits)
  next
    case (submit_step submit info phase env next_phase cl w)
    have "ps_requestId submit \<notin> fst ` set (cl_store (ct_client ct))"
      using inv submit_step by (auto simp: client_threads_inv_def ids_ok_def held_hand)
    from SubmitStep_result [OF this submit_step(3)] show ?thesis
      using submit_step(1) off_hand_keep [OF _ r] progress by (auto split: if_splits)
  next
    case (response again cl w)
    have "distinct (map fst (cl_store (ct_client ct)))" using inv by (simp add: client_threads_inv_def ids_ok_def)
    then show ?thesis using response progress_response progress by simp
  next
    case (response_signal fd session pollCall cl w)
    then show ?thesis using progress_watchdog(5) progress by (metis fst_conv ClientThreads.select_convs(1) ClientThreads.surjective ClientThreads.update_convs(1,2))
  next
    case (timeouts cl w)
    then show ?thesis using progress_timeouts [of "ct_client ct" "ct_world ct"] progress by simp
  next
    case (health checkHealth cl w)
    then show ?thesis using progress_watchdog(2) [of "ct_client ct" checkHealth "ct_world ct"] progress by simp
  next
    case (idle cl w)
    then show ?thesis using progress_watchdog(1) [of "ct_client ct" "ct_world ct"] progress by simp
  next
    case (death session cl w)
    then show ?thesis using progress_watchdog(3) [of "ct_client ct" session "ct_world ct"] progress by simp
  next
    case (external request cl w)
    then show ?thesis using progress_watchdog(4) [of "ct_client ct" request "ct_world ct"] progress by simp
  next
    case (init mode status cl w)
    then show ?thesis using init_keep [OF inv _ r] by simp
  next
    case (shutdown cl w)
    then show ?thesis using shutdown_keep [OF inv _ r] by simp
  qed (use other other_setters r in simp_all)
  then show ?thesis by (simp add: Wait_def)
qed

definition demo_rejected :: ClientThreads where
  "demo_rejected = demo_cthreads0\<lparr>ct_client := fst (snd (InvokeAsync demo_call demo_client0 demo_world)), ct_invokes := 1\<rparr>"

theorem client_reply_is_final_witness:
  "Wait (Some 0) (ct_client demo_rejected) = Some (status_reply ClientClosed) \<and>
   Wait (Some 0) (fst (Shutdown None (ct_client demo_rejected) demo_world)) = Some (status_reply ClientClosed)"
proof -
  have "InvokeAsync demo_call (ct_client demo_cthreads0) (ct_world demo_cthreads0) = (0, ct_client demo_rejected, demo_world)"
    by (simp add: demo_rejected_def demo_cthreads_defs RejectInvoke_def)
  from client_thread_step.invoke [OF this] have "client_thread_step demo_cthreads0 demo_rejected"
    by (simp add: demo_rejected_def demo_cthreads0_def)
  then have reach: "client_threads_reachable demo_rejected"
    unfolding demo_cthreads0_def demo_client0_def
    by (rule client_threads_reachable.stepped [OF client_threads_reachable.constructed])
  obtain cl w where s: "Shutdown (hand_entry demo_rejected) (ct_client demo_rejected) (ct_world demo_rejected) = (cl, w)"
    by (meson surj_pair)
  have ready: "Wait (Some 0) (ct_client demo_rejected) = Some (status_reply ClientClosed)" "0 < cl_nextFuture (ct_client demo_rejected)"
    by (simp_all add: demo_rejected_def demo_cthreads_defs RejectInvoke_def Wait_def ResolveState_futures)
  have h: "hand_entry demo_rejected = None" "ct_world demo_rejected = demo_world"
    by (simp_all add: demo_rejected_def demo_cthreads0_def hand_entry_def)
  show ?thesis
    using client_reply_is_final [OF reach client_thread_step.shutdown [OF s] ready(2,1)] ready(1) s by (simp add: h)
qed

lemma fold_resolve_value:
  assumes "p \<in> set ps" "cl_futures cl (pr_future p) = None"
  shows "cl_futures (fold (\<lambda>p. ResolveState (pr_future p) r) ps cl) (pr_future p) = Some r"
  using assms
proof (induction ps arbitrary: cl)
  case Nil
  then show ?case by simp
next
  case (Cons q ps)
  let ?cl = "ResolveState (pr_future q) r cl"
  show ?case
  proof (cases "pr_future q = pr_future p")
    case True
    then have "cl_futures ?cl (pr_future p) = Some r" using Cons.prems(2) by (simp add: ResolveState_futures)
    then show ?thesis using fold_resolve [of ?cl r ps] by (simp add: client_progress_def)
  next
    case False
    then have "cl_futures ?cl (pr_future p) = None" "p \<in> set ps" using Cons.prems by (auto simp: ResolveState_futures)
    then show ?thesis using Cons.IH by simp
  qed
qed

lemma ResolveAll_fields:
  "cl_policy (ResolveAllPending st cl) = cl_policy cl" "cl_snapshot (ResolveAllPending st cl) = cl_snapshot cl"
  "IsApiOpen (ResolveAllPending st cl) = IsApiOpen cl"
proof -
  have keep: "cl_policy (fold (\<lambda>p. ResolveState (pr_future p) r) ps c) = cl_policy c \<and>
      cl_snapshot (fold (\<lambda>p. ResolveState (pr_future p) r) ps c) = cl_snapshot c" for r ps c
    by (induction ps arbitrary: c) simp_all
  show "cl_policy (ResolveAllPending st cl) = cl_policy cl" "cl_snapshot (ResolveAllPending st cl) = cl_snapshot cl"
    by (simp_all add: ResolveAllPending_def StoreTakeAll_def keep)
  show "IsApiOpen (ResolveAllPending st cl) = IsApiOpen cl"
    using ResolveAll_result [of cl st] by (simp add: client_progress_def IsApiOpen_def)
qed

lemma ResolveAll_value:
  assumes "(i, p) \<in> set (cl_store cl)" "cl_futures cl (pr_future p) = None"
  shows "cl_futures (ResolveAllPending st cl) (pr_future p) = Some (status_reply st)"
  using fold_resolve_value [of p "map snd (cl_store cl)" "cl\<lparr>cl_store := []\<rparr>" "status_reply st"] assms
  by (force simp: ResolveAllPending_def StoreTakeAll_def)

lemma EnterNoSession_fields [simp]:
  "cl_lifecycle (EnterNoSession s cl) = LcNoSession" "cl_snapshot (EnterNoSession s cl) = cl_snapshot cl"
  by (simp_all add: EnterNoSession_def NotifyRecoveryStateChanged_def TransitionLifecycle_def ApplyTransitionLocked_def Let_def)

text \<open>C14: The death of the engine.  A report about another session than the live one changes nothing.  A report about the
  live session answers every admitted request with \<^verbatim>\<open>CrashedDuringExecution\<close> and empties the store; without a policy for engine
  death, or with one that ignores it, the session is closed and the client is in state \<^verbatim>\<open>NoSession\<close>.\<close>

theorem HandleEngineDeath_answers:
  assumes "IsApiOpen cl" "Valid (cl_session cl)" "cl_snapshot cl = live" "live \<noteq> 0"
    "HandleEngineDeath live dead cl w = (cl', w')"
  shows "if dead \<noteq> 0 \<and> dead \<noteq> live then cl' = cl \<and> w' = w
    else cl_store cl' = [] \<and>
      (\<forall>(i, pending) \<in> set (cl_store cl). cl_futures cl (pr_future pending) = None \<longrightarrow>
         Wait (Some (pr_future pending)) cl' = Some (status_reply CrashedDuringExecution)) \<and>
      ((case po_onEngineDeath (cl_policy cl) of None \<Rightarrow> True | Some f \<Rightarrow> rd_action (f live) = ActIgnore) \<longrightarrow>
         cl_snapshot cl' = 0 \<and> cl_lifecycle cl' = LcNoSession)"
proof (cases "dead \<noteq> 0 \<and> dead \<noteq> live")
  case True
  then show ?thesis using assms by (simp add: HandleEngineDeath_def HandleEngineDeathLocked_def Let_def)
next
  case False
  obtain cl1 w1 where c: "close_session cl w = (cl1, w1)" by (meson surj_pair)
  define cl2 where "cl2 = ResolveAllPending CrashedDuringExecution cl1"
  have c1: "cl_store cl1 = cl_store cl" "cl_futures cl1 = cl_futures cl" "IsApiOpen cl1" "cl_policy cl1 = cl_policy cl"
    "cl_snapshot cl1 = 0"
    using c assms(1) by (auto simp: close_session_def IsApiOpen_def split: prod.splits)
  have fields: "cl_policy cl2 = cl_policy cl" "cl_snapshot cl2 = 0" "IsApiOpen cl2" "cl_store cl2 = []"
    using c1 ResolveAll_result [of cl1 CrashedDuringExecution] by (simp_all add: cl2_def ResolveAll_fields)
  have run: "(cl', w') = (case po_onEngineDeath (cl_policy cl) of
      None \<Rightarrow> (EnterNoSessionWithoutLiveSessionLocked cl2, w1)
    | Some f \<Rightarrow> if rd_action (f live) = ActIgnore then (EnterNoSessionWithoutLiveSessionLocked cl2, w1)
        else ApplyRecoveryDecisionLocked (f live) live KeepCurrentState cl2 w1)"
    using assms False c fields(1)
    by (cases "po_onEngineDeath (cl_policy cl)")
      (auto simp: HandleEngineDeath_def HandleEngineDeathLocked_def CloseLiveSessionIfSnapshotMatches_def cl2_def Let_def)
  have prog: "client_progress cl2 (EnterNoSessionWithoutLiveSessionLocked cl2)" by (rule same_progress [OF same_no_session])
  have p: "client_progress cl2 cl'"
    using run prog progress_apply(2) [of cl2 KeepCurrentState _ live w1]
    by (auto simp: ApplyRecoveryDecisionLocked_def split: option.splits if_splits) (metis fst_conv)
  have "cl_store cl' = []" using p fields(4) by (simp add: client_progress_def)
  moreover have "Wait (Some (pr_future pend)) cl' = Some (status_reply CrashedDuringExecution)"
    if "(i, pend) \<in> set (cl_store cl)" "cl_futures cl (pr_future pend) = None" for i pend
    using ResolveAll_value [of i pend cl1 CrashedDuringExecution] that c1 p by (simp add: Wait_def client_progress_def cl2_def)
  moreover have "cl_snapshot cl' = 0 \<and> cl_lifecycle cl' = LcNoSession"
    if "case po_onEngineDeath (cl_policy cl) of None \<Rightarrow> True | Some f \<Rightarrow> rd_action (f live) = ActIgnore"
    using run that fields by (auto simp: EnterNoSessionWithoutLiveSessionLocked_def split: option.splits)
  ultimately show ?thesis using False by auto
qed

definition demo_pending :: PendingRequest where
  "demo_pending = \<lparr>pr_future = 0, pr_info = \<lparr>pi_opcode = 7, pi_priority = PriorityNormal, pi_execTimeoutMs = 0,
     pi_requestId = 1, pi_sessionId = 1\<rparr>, pr_waitDeadline = None\<rparr>"

definition demo_live_client :: Client where
  "demo_live_client = demo_client0\<lparr>cl_control := ApiOpen, cl_workersRunning := True, cl_lifecycle := LcActive,
     cl_session := default_Session\<lparr>se_header := True\<rparr>, cl_snapshot := 1, cl_store := [(1, demo_pending)], cl_nextFuture := 1,
     cl_nextRequestId := 2\<rparr>"

lemma demo_live_fields:
  "IsApiOpen demo_live_client" "Valid (cl_session demo_live_client)" "cl_snapshot demo_live_client = 1"
  "cl_store demo_live_client = [(1, demo_pending)]" "cl_futures demo_live_client = (\<lambda>_. None)"
  "cl_policy demo_live_client = no_policy" "cl_workersRunning demo_live_client"
  by (simp_all add: demo_live_client_def demo_client0_def new_RpcClient_def SetBootstrapChannel_def InstallDeathCallback_def
      IsApiOpen_def Valid_def)

theorem HandleEngineDeath_answers_witness:
  "\<exists>cl w. HandleEngineDeath 1 0 demo_live_client demo_world = (cl, w) \<and> cl_store cl = [] \<and>
     Wait (Some 0) cl = Some (status_reply CrashedDuringExecution) \<and> cl_lifecycle cl = LcNoSession"
proof -
  obtain cl w where r: "HandleEngineDeath 1 0 demo_live_client demo_world = (cl, w)" by (meson surj_pair)
  have "pr_future demo_pending = 0" by (simp add: demo_pending_def)
  then show ?thesis
    using HandleEngineDeath_answers [OF demo_live_fields(1-3) _ r] r by (auto simp: demo_live_fields no_policy_def)
qed

text \<open>C37: A transport failure drops the session and not the requests: closing the session after a failed push or a failed wait leaves
  every admitted request in the store with its future not ready, and one that was made without an execution timeout
  is in no later timeout pass either, at whatever time the watchdog looks.  Its caller waits until an engine death of
  a later session, a recovery or \<^verbatim>\<open>Shutdown\<close> answers it.\<close>

theorem transport_failure_keeps_requests:
  assumes "CloseLiveSessionForTransportFailure cl w = (cl1, w1)" "(i, pending) \<in> set (cl_store cl)" "pr_waitDeadline pending = None"
  shows "\<not> HasLiveSession cl1 \<and> cl_futures cl1 = cl_futures cl \<and> (i, pending) \<in> set (cl_store (snd (StoreTakeExpired now cl1))) \<and>
    pending \<notin> set (fst (StoreTakeExpired now cl1))"
proof -
  have s: "cl_store cl1 = cl_store cl" "cl_futures cl1 = cl_futures cl"
    using same_close(3) [of cl w] by (simp_all add: assms(1) same_requests_def)
  have n: "\<not> expired now pending" using assms(3) by (simp add: expired_def)
  have "cl_snapshot cl1 = 0"
    using assms(1) by (auto simp: CloseLiveSessionForTransportFailure_def CloseLiveSession_def close_session_def
        NotifyRecoveryStateChanged_def split: prod.splits)
  then show ?thesis
    using s n assms(2) by (auto simp: StoreTakeExpired_def HasLiveSession_def)
qed

theorem transport_failure_keeps_requests_witness:
  "\<exists>cl w. CloseLiveSessionForTransportFailure demo_live_client demo_world = (cl, w) \<and> \<not> HasLiveSession cl \<and>
     (1, demo_pending) \<in> set (cl_store (snd (StoreTakeExpired 1000000 cl)))"
proof -
  obtain cl w where r: "CloseLiveSessionForTransportFailure demo_live_client demo_world = (cl, w)" by (meson surj_pair)
  show ?thesis
    using transport_failure_keeps_requests [OF r, of 1 demo_pending 1000000] r by (simp add: demo_live_fields demo_pending_def)
qed

text \<open>The retry loop without a deadline.\<close>

fun retry_unlimited :: "StatusCode \<Rightarrow> RetryTurn list \<Rightarrow> StatusCode" where
  "retry_unlimited status [] = status"
| "retry_unlimited status (t # ts) =
     (if \<not> ShouldRetryRecoveryStatus status (GetRecoveryRuntimeSnapshot (rt_client t)) \<or> rt_wait t \<noteq> Ok then status
      else retry_unlimited (rt_invoke t) ts)"

lemma retry_loop_unlimited:
  "\<forall>t \<in> set turns. rt_now t < unat (cl_now (rt_client t)) + 100 \<Longrightarrow> retry_loop deadline status turns = retry_unlimited status turns"
proof (induction turns arbitrary: deadline status)
  case Nil
  then show ?case by simp
next
  case (Cons t ts)
  define d where "d = max deadline (unat (cl_now (rt_client t)) + computeWaitBudget (GetRecoveryRuntimeSnapshot (rt_client t)))"
  have "\<not> d \<le> rt_now t"
    using Cons.prems by (simp add: d_def computeWaitBudget_def kRetryUntilRecoverySettlesGrace_def)
  then show ?case using Cons.IH [of d] Cons.prems by (simp add: Let_def d_def [symmetric])
qed



text \<open>C39: \<^verbatim>\<open>Init\<close> checks that the client is not closed before it starts the workers, and not again.  When \<^verbatim>\<open>Shutdown\<close> runs
  between the check and the start, \<^verbatim>\<open>Init\<close> answers \<^verbatim>\<open>ClientClosed\<close> but leaves the workers running on a closed client, in
  lifecycle state \<^verbatim>\<open>IdleClosed\<close>, and no later \<^verbatim>\<open>Shutdown\<close> does anything, so that the threads are never joined.\<close>

theorem Init_racing_Shutdown_leaks_workers:
  assumes "cl_control cl = ApiUninitialized" "\<not> cl_workersRunning cl"
    "InitCheck LazySession cl w = (None, cl, w)" "Shutdown None cl w = (cl1, w1)"
    "InitFinish LazySession (InitStart LazySession cl1) w1 = (status, cl2, w2)"
  shows "status = ClientClosed \<and> cl_control cl2 = ApiClosed \<and> cl_workersRunning cl2 \<and> cl_lifecycle cl2 = LcIdleClosed \<and>
    Shutdown h cl2 w2 = (cl2, w2)"
proof -
  have s: "shut None cl cl1" by (rule Shutdown_result [OF _ assms(4)]) (use assms(1) in simp_all)
  then have "\<not> cl_workersRunning cl1" "cl_control cl1 = ApiClosed" by (simp_all add: shut_def)
  then have "cl2 = InitStart LazySession cl1 \<and> status = ClientClosed \<and> cl_control cl2 = ApiClosed \<and> cl_workersRunning cl2 \<and>
      cl_lifecycle cl2 = LcIdleClosed"
    using assms(5)
    by (auto simp: InitFinish_def FinishInit_def InitStart_def StartRuntime_def PrepareForInitOpen_def TouchActivity_def)
  then show ?thesis using Shutdown_closed by blast
qed

theorem Init_racing_Shutdown_leaks_workers_witness:
  "\<exists>cl1 w1 cl2 w2. Shutdown None demo_client0 demo_world = (cl1, w1) \<and>
     InitFinish LazySession (InitStart LazySession cl1) w1 = (ClientClosed, cl2, w2) \<and> cl_workersRunning cl2 \<and>
     Shutdown None cl2 w2 = (cl2, w2)"
proof -
  obtain cl1 w1 where s: "Shutdown None demo_client0 demo_world = (cl1, w1)" by (meson surj_pair)
  obtain st cl2 w2 where f: "InitFinish LazySession (InitStart LazySession cl1) w1 = (st, cl2, w2)" by (metis prod_cases3)
  have c: "cl_control demo_client0 = ApiUninitialized" "\<not> cl_workersRunning demo_client0"
    "InitCheck LazySession demo_client0 demo_world = (None, demo_client0, demo_world)"
    by (simp_all add: demo_cthreads_defs)
  show ?thesis
    using Init_racing_Shutdown_leaks_workers [OF c s f, of None] s f by auto
qed

end
