(* ===== verification/Ves_Codec.thy ===== *)
theory Ves_Codec
  imports Memrpc_Codec
begin

text \<open>
  The messages of the virus executor service (\<^verbatim>\<open>ves_types.h\<close>, \<^verbatim>\<open>ves_codec.h\<close>), of its testkit
  (\<^verbatim>\<open>testkit_types.h\<close>, \<^verbatim>\<open>testkit_codec.h\<close>) and of its control interface
  (\<^verbatim>\<open>ves_control_interface.h\<close>), with their encoders and decoders.  Every message type is an interpretation of
  \<open>message_codec\<close>, every request/reply pair one of \<open>typed_call\<close>.
\<close>

section \<open>Messages of the scan service\<close>

record InitReply =
  ir_code :: u32

record ScanTask =
  sk_path :: string

record ScanFileReply =
  sf_code :: u32
  sf_threatLevel :: u32

definition default_ScanFileReply :: ScanFileReply where
  "default_ScanFileReply = \<lparr>sf_code = 0, sf_threatLevel = 0\<rparr>"

record VesOpenSessionRequest =
  os_version :: u32
  os_engineKinds :: "u32 list"

definition VES_OPEN_SESSION_REQUEST_VERSION :: u32 where
  "VES_OPEN_SESSION_REQUEST_VERSION = 1"

definition VES_OPEN_SESSION_MAX_ENGINE_KINDS :: nat where
  "VES_OPEN_SESSION_MAX_ENGINE_KINDS = 32"

definition DefaultVesOpenSessionRequest :: VesOpenSessionRequest where
  "DefaultVesOpenSessionRequest = \<lparr>os_version = VES_OPEN_SESSION_REQUEST_VERSION, os_engineKinds = []\<rparr>"

definition EncodeInitReply :: "InitReply \<Rightarrow> bytes option" where
  "EncodeInitReply reply = AssignBytes (WriteInt32 (ir_code reply) empty_ByteWriter)"

definition DecodeInitReply :: "bytes option \<Rightarrow> nat \<Rightarrow> InitReply option" where
  "DecodeInitReply data sz = then_read (ReadInt32 (MkByteReader data sz)) (\<lambda>code r. Some \<lparr>ir_code = code\<rparr>)"

definition EncodeScanTask :: "ScanTask \<Rightarrow> bytes option" where
  "EncodeScanTask request = AssignBytes (WriteString (sk_path request) empty_ByteWriter)"

definition DecodeScanTask :: "bytes option \<Rightarrow> nat \<Rightarrow> ScanTask option" where
  "DecodeScanTask data sz = then_read (ReadString (MkByteReader data sz)) (\<lambda>path r. Some \<lparr>sk_path = path\<rparr>)"

definition EncodeScanFileReply :: "ScanFileReply \<Rightarrow> bytes option" where
  "EncodeScanFileReply reply =
     AssignBytes (then_write (WriteInt32 (sf_code reply) empty_ByteWriter) (WriteInt32 (sf_threatLevel reply)))"

definition DecodeScanFileReply :: "bytes option \<Rightarrow> nat \<Rightarrow> ScanFileReply option" where
  "DecodeScanFileReply data sz =
     then_read (ReadInt32 (MkByteReader data sz)) (\<lambda>code r.
     then_read (ReadInt32 r) (\<lambda>level r. Some \<lparr>sf_code = code, sf_threatLevel = level\<rparr>))"

fun write_kinds :: "u32 list \<Rightarrow> bool \<times> ByteWriter \<Rightarrow> bool \<times> ByteWriter" where
  "write_kinds [] r = r"
| "write_kinds (kind # kinds) r = write_kinds kinds (then_write r (WriteUint32 kind))"

definition EncodeVesOpenSessionRequest :: "VesOpenSessionRequest \<Rightarrow> bytes option" where
  "EncodeVesOpenSessionRequest request =
     AssignBytes (write_kinds (os_engineKinds request)
       (then_write (WriteUint32 (os_version request) empty_ByteWriter)
         (WriteUint32 (of_nat (length (os_engineKinds request))))))"

fun read_kinds :: "nat \<Rightarrow> ByteReader \<Rightarrow> u32 list option" where
  "read_kinds 0 r = Some []"
| "read_kinds (Suc n) r = then_read (ReadUint32 r) (\<lambda>kind r. map_option ((#) kind) (read_kinds n r))"

definition DecodeVesOpenSessionRequest :: "bytes option \<Rightarrow> nat \<Rightarrow> VesOpenSessionRequest option" where
  "DecodeVesOpenSessionRequest data sz =
     then_read (ReadUint32 (MkByteReader data sz)) (\<lambda>version r.
     then_read (ReadUint32 r) (\<lambda>engineCount r.
       if unat engineCount > VES_OPEN_SESSION_MAX_ENGINE_KINDS then None
       else map_option (\<lambda>kinds. \<lparr>os_version = version, os_engineKinds = kinds\<rparr>) (read_kinds (unat engineCount) r)))"

text \<open>\<^verbatim>\<open>std::sort\<close> and \<^verbatim>\<open>std::unique\<close> with \<^verbatim>\<open>erase\<close>.\<close>

definition NormalizeVesEngineKinds :: "u32 list \<Rightarrow> u32 list" where
  "NormalizeVesEngineKinds engineKinds = remdups_adj (sort engineKinds)"

definition IsValidVesOpenSessionRequest :: "VesOpenSessionRequest \<Rightarrow> bool" where
  "IsValidVesOpenSessionRequest request =
     (if os_version request \<noteq> VES_OPEN_SESSION_REQUEST_VERSION \<or>
         length (os_engineKinds request) > VES_OPEN_SESSION_MAX_ENGINE_KINDS then False
      else list_all (\<lambda>kind. kind \<noteq> 0) (os_engineKinds request))"

section \<open>Messages of the test service\<close>

record EchoRequest =
  eq_text :: string

record EchoReply =
  er_text :: string

record AddRequest =
  aq_lhs :: u32
  aq_rhs :: u32

record AddReply =
  ar_sum :: u32

record SleepRequest =
  sq_delayMs :: u32

record SleepReply =
  sr_status :: u32

definition EncodeEchoRequest :: "EchoRequest \<Rightarrow> bytes option" where
  "EncodeEchoRequest request = AssignBytes (WriteString (eq_text request) empty_ByteWriter)"

definition DecodeEchoRequest :: "bytes option \<Rightarrow> nat \<Rightarrow> EchoRequest option" where
  "DecodeEchoRequest data sz = then_read (ReadString (MkByteReader data sz)) (\<lambda>text r. Some \<lparr>eq_text = text\<rparr>)"

definition EncodeEchoReply :: "EchoReply \<Rightarrow> bytes option" where
  "EncodeEchoReply reply = AssignBytes (WriteString (er_text reply) empty_ByteWriter)"

definition DecodeEchoReply :: "bytes option \<Rightarrow> nat \<Rightarrow> EchoReply option" where
  "DecodeEchoReply data sz = then_read (ReadString (MkByteReader data sz)) (\<lambda>text r. Some \<lparr>er_text = text\<rparr>)"

definition EncodeAddRequest :: "AddRequest \<Rightarrow> bytes option" where
  "EncodeAddRequest request = AssignBytes (then_write (WriteInt32 (aq_lhs request) empty_ByteWriter) (WriteInt32 (aq_rhs request)))"

definition DecodeAddRequest :: "bytes option \<Rightarrow> nat \<Rightarrow> AddRequest option" where
  "DecodeAddRequest data sz =
     then_read (ReadInt32 (MkByteReader data sz)) (\<lambda>lhs r. then_read (ReadInt32 r) (\<lambda>rhs r. Some \<lparr>aq_lhs = lhs, aq_rhs = rhs\<rparr>))"

definition EncodeAddReply :: "AddReply \<Rightarrow> bytes option" where
  "EncodeAddReply reply = AssignBytes (WriteInt32 (ar_sum reply) empty_ByteWriter)"

definition DecodeAddReply :: "bytes option \<Rightarrow> nat \<Rightarrow> AddReply option" where
  "DecodeAddReply data sz = then_read (ReadInt32 (MkByteReader data sz)) (\<lambda>sum r. Some \<lparr>ar_sum = sum\<rparr>)"

definition EncodeSleepRequest :: "SleepRequest \<Rightarrow> bytes option" where
  "EncodeSleepRequest request = AssignBytes (WriteUint32 (sq_delayMs request) empty_ByteWriter)"

definition DecodeSleepRequest :: "bytes option \<Rightarrow> nat \<Rightarrow> SleepRequest option" where
  "DecodeSleepRequest data sz = then_read (ReadUint32 (MkByteReader data sz)) (\<lambda>delay r. Some \<lparr>sq_delayMs = delay\<rparr>)"

definition EncodeSleepReply :: "SleepReply \<Rightarrow> bytes option" where
  "EncodeSleepReply reply = AssignBytes (WriteInt32 (sr_status reply) empty_ByteWriter)"

definition DecodeSleepReply :: "bytes option \<Rightarrow> nat \<Rightarrow> SleepReply option" where
  "DecodeSleepReply data sz = then_read (ReadInt32 (MkByteReader data sz)) (\<lambda>status r. Some \<lparr>sr_status = status\<rparr>)"

section \<open>Each codec keeps the contract\<close>

lemmas message_codec_defs = EncodeInitReply_def DecodeInitReply_def EncodeScanTask_def DecodeScanTask_def
  EncodeScanFileReply_def DecodeScanFileReply_def EncodeEchoRequest_def DecodeEchoRequest_def EncodeEchoReply_def
  DecodeEchoReply_def EncodeAddRequest_def DecodeAddRequest_def EncodeAddReply_def DecodeAddReply_def
  EncodeSleepRequest_def DecodeSleepRequest_def EncodeSleepReply_def DecodeSleepReply_def

lemma reader_start:
  "length xs + length rest = n \<Longrightarrow> MkByteReader (Some (xs @ rest)) n = reader_at [] (xs @ rest)"
  by (simp add: MkByteReader_def reader_at_def)

text \<open>A string that fits its 32-bit length field.\<close>

abbreviation short_string :: "string \<Rightarrow> bool" where
  "short_string s \<equiv> length s < 2 ^ 32"

lemma written_string:
  "short_string s \<Longrightarrow> AssignBytes (WriteString s empty_ByteWriter) = Some (le_bytes 4 (of_nat (length s) :: u32) @ str_bytes s)"
  by (simp add: writer_eqs unat_of_nat)

lemma written_string_nonempty: "AssignBytes (WriteString s empty_ByteWriter) = Some bs \<Longrightarrow> bs \<noteq> []"
  by (auto simp: writer_eqs dest: arg_cong [where f = length])

lemma read_string:
  assumes "short_string s" "AssignBytes (WriteString s empty_ByteWriter) = Some bs"
  shows "fst (ReadString (MkByteReader (Some (bs @ rest)) (length bs + length rest))) = Some s"
proof -
  have "bs = le_bytes 4 (of_nat (length s) :: u32) @ str_bytes s" using written_string [OF assms(1)] assms(2) by simp
  then show ?thesis
    using ReadString_reader_at [OF assms(1), of "[]" rest] by (simp add: reader_start)
qed

interpretation init_reply: message_codec EncodeInitReply DecodeInitReply "\<lambda>_. True"
  by unfold_locales (auto simp: message_codec_defs writer_eqs then_read_def reader_start dest: arg_cong [where f = length])

interpretation scan_task: message_codec EncodeScanTask DecodeScanTask "\<lambda>m. short_string (sk_path m)"
  using written_string_nonempty
  by unfold_locales (auto simp: message_codec_defs then_read_def read_string, auto simp: writer_eqs)

interpretation scan_reply: message_codec EncodeScanFileReply DecodeScanFileReply "\<lambda>_. True"
  by unfold_locales (auto simp: message_codec_defs writer_eqs then_read_def reader_start dest: arg_cong [where f = length])

interpretation echo_request: message_codec EncodeEchoRequest DecodeEchoRequest "\<lambda>m. short_string (eq_text m)"
  using written_string_nonempty
  by unfold_locales (auto simp: message_codec_defs then_read_def read_string, auto simp: writer_eqs)

interpretation echo_reply: message_codec EncodeEchoReply DecodeEchoReply "\<lambda>m. short_string (er_text m)"
  using written_string_nonempty
  by unfold_locales (auto simp: message_codec_defs then_read_def read_string, auto simp: writer_eqs)

interpretation add_request: message_codec EncodeAddRequest DecodeAddRequest "\<lambda>_. True"
  by unfold_locales (auto simp: message_codec_defs writer_eqs then_read_def reader_start dest: arg_cong [where f = length])

interpretation add_reply: message_codec EncodeAddReply DecodeAddReply "\<lambda>_. True"
  by unfold_locales (auto simp: message_codec_defs writer_eqs then_read_def reader_start dest: arg_cong [where f = length])

interpretation sleep_request: message_codec EncodeSleepRequest DecodeSleepRequest "\<lambda>_. True"
  by unfold_locales (auto simp: message_codec_defs writer_eqs then_read_def reader_start dest: arg_cong [where f = length])

interpretation sleep_reply: message_codec EncodeSleepReply DecodeSleepReply "\<lambda>_. True"
  by unfold_locales (auto simp: message_codec_defs writer_eqs then_read_def reader_start dest: arg_cong [where f = length])

lemma write_kinds_eq:
  "write_kinds kinds (True, w) = (True, w\<lparr>bw_bytes := bw_bytes w @ concat (map (le_bytes 4) kinds)\<rparr>)"
  by (induction kinds arbitrary: w) (simp_all add: writer_eqs)

lemma read_kinds_reader_at:
  "read_kinds (length kinds) (reader_at pre (concat (map (le_bytes 4) kinds) @ rest)) = Some kinds"
  by (induction kinds arbitrary: pre) (simp_all add: then_read_def)

lemma encoded_open_session:
  "EncodeVesOpenSessionRequest request = Some (le_bytes 4 (os_version request) @
     le_bytes 4 (of_nat (length (os_engineKinds request)) :: u32) @ concat (map (le_bytes 4) (os_engineKinds request)))"
  by (simp add: EncodeVesOpenSessionRequest_def writer_eqs write_kinds_eq)

interpretation open_session: message_codec EncodeVesOpenSessionRequest DecodeVesOpenSessionRequest
  "\<lambda>request. length (os_engineKinds request) \<le> VES_OPEN_SESSION_MAX_ENGINE_KINDS"
proof
  fix request bs assume "EncodeVesOpenSessionRequest request = Some bs"
  then show "bs \<noteq> []" by (auto simp: encoded_open_session dest: arg_cong [where f = length])
next
  fix request show "\<exists>bs. EncodeVesOpenSessionRequest request = Some bs" by (simp add: encoded_open_session)
next
  fix request bs and rest :: bytes
  assume len: "length (os_engineKinds request) \<le> VES_OPEN_SESSION_MAX_ENGINE_KINDS"
    and enc: "EncodeVesOpenSessionRequest request = Some bs"
  have n: "unat (of_nat (length (os_engineKinds request)) :: u32) = length (os_engineKinds request)"
    using len by (simp add: unat_of_nat VES_OPEN_SESSION_MAX_ENGINE_KINDS_def)
  have bs: "bs = le_bytes 4 (os_version request) @ le_bytes 4 (of_nat (length (os_engineKinds request)) :: u32) @
      concat (map (le_bytes 4) (os_engineKinds request))"
    using enc by (simp add: encoded_open_session)
  show "DecodeVesOpenSessionRequest (Some (bs @ rest)) (length bs + length rest) = Some request"
    using len by (simp add: DecodeVesOpenSessionRequest_def reader_start then_read_def bs n read_kinds_reader_at)
qed

section \<open>Typed calls\<close>

interpretation scan_call: typed_call EncodeScanTask DecodeScanTask "\<lambda>m. short_string (sk_path m)"
  EncodeScanFileReply DecodeScanFileReply "\<lambda>_. True"
  by unfold_locales

interpretation echo_call: typed_call EncodeEchoRequest DecodeEchoRequest "\<lambda>m. short_string (eq_text m)"
  EncodeEchoReply DecodeEchoReply "\<lambda>m. short_string (er_text m)"
  by unfold_locales

interpretation add_call: typed_call EncodeAddRequest DecodeAddRequest "\<lambda>_. True" EncodeAddReply DecodeAddReply "\<lambda>_. True"
  by unfold_locales

interpretation sleep_call: typed_call EncodeSleepRequest DecodeSleepRequest "\<lambda>_. True"
  EncodeSleepReply DecodeSleepReply "\<lambda>_. True"
  by unfold_locales

section \<open>Messages of the control socket\<close>

text \<open>The headers are copied with \<^verbatim>\<open>memcpy\<close>; \<^verbatim>\<open>SessionMetadata\<close> and \<^verbatim>\<open>VesHeartbeatReply\<close> have four bytes of padding before their
  64-bit field, which the value initialisation of the sources clears.\<close>

record VesAnyCallRequest =
  an_opcode :: u16
  an_priority :: u16
  an_timeoutMs :: u32
  an_payload :: string

record VesAnyCallReply =
  ay_status :: StatusCode
  ay_payload :: string

definition default_VesAnyCallReply :: VesAnyCallReply where
  "default_VesAnyCallReply = \<lparr>ay_status = Ok, ay_payload = []\<rparr>"

definition EncodeAnyCallWire :: "VesAnyCallRequest \<Rightarrow> bytes" where
  "EncodeAnyCallWire request =
     le_bytes 2 (an_opcode request) @ le_bytes 2 (an_priority request) @ le_bytes 4 (an_timeoutMs request) @
     le_bytes 4 (of_nat (length (an_payload request)) :: u32) @ str_bytes (an_payload request)"

definition DecodeAnyCallRequest :: "bytes \<Rightarrow> VesAnyCallRequest option" where
  "DecodeAnyCallRequest data =
     (if length data < 12 then None
      else let payloadSize = unat (le_word (take 4 (drop 8 data)) :: u32)
        in if length data \<noteq> 12 + payloadSize then None
           else Some \<lparr>an_opcode = le_word (take 2 data), an_priority = le_word (take 2 (drop 2 data)),
             an_timeoutMs = le_word (take 4 (drop 4 data)), an_payload = bytes_str (take payloadSize (drop 12 data))\<rparr>)"

definition EncodeAnyCallReply :: "VesAnyCallReply \<Rightarrow> bytes" where
  "EncodeAnyCallReply reply =
     le_bytes 4 (StatusCode_u32 (ay_status reply)) @ le_bytes 4 (of_nat (length (ay_payload reply)) :: u32) @
     str_bytes (ay_payload reply)"

definition DecodeAnyCallWire :: "bytes \<Rightarrow> StatusCode \<times> VesAnyCallReply option" where
  "DecodeAnyCallWire payload =
     (if length payload < 8 then (ProtocolMismatch, None)
      else let payloadSize = unat (le_word (take 4 (drop 4 payload)) :: u32)
        in if length payload \<noteq> 8 + payloadSize then (ProtocolMismatch, None)
           else (Ok, Some \<lparr>ay_status = StatusCode_of_u32 (le_word (take 4 payload)),
             ay_payload = bytes_str (take payloadSize (drop 8 payload))\<rparr>))"

definition DecodeOpenSessionRequest :: "bytes \<Rightarrow> VesOpenSessionRequest option" where
  "DecodeOpenSessionRequest data =
     (case DecodeMessage DecodeVesOpenSessionRequest data of
        None \<Rightarrow> None
      | Some request \<Rightarrow> if IsValidVesOpenSessionRequest request then Some request else None)"

definition encode_metadata :: "BootstrapHandles \<Rightarrow> bytes" where
  "encode_metadata handles = le_bytes 4 (bh_protocolVersion handles) @ replicate 4 0 @ le_bytes 8 (bh_sessionId handles)"

record VesHeartbeatReply =
  hb_version :: u32
  hb_status :: u32
  hb_reasonCode :: u32
  hb_sessionId :: u64
  hb_inFlight :: u32
  hb_lastTaskAgeMs :: u32
  hb_currentTask :: bytes
  hb_flags :: u32
  hb_reserved :: bytes

definition heartbeat_size :: nat where
  "heartbeat_size = 112"

definition heartbeat_image :: "VesHeartbeatReply \<Rightarrow> bytes" where
  "heartbeat_image reply =
     le_bytes 4 (hb_version reply) @ le_bytes 4 (hb_status reply) @ le_bytes 4 (hb_reasonCode reply) @ replicate 4 0 @
     le_bytes 8 (hb_sessionId reply) @ le_bytes 4 (hb_inFlight reply) @ le_bytes 4 (hb_lastTaskAgeMs reply) @
     hb_currentTask reply @ le_bytes 4 (hb_flags reply) @ hb_reserved reply"

definition heartbeat_of_image :: "bytes \<Rightarrow> VesHeartbeatReply" where
  "heartbeat_of_image b =
     \<lparr>hb_version = le_word (take 4 b), hb_status = le_word (take 4 (drop 4 b)), hb_reasonCode = le_word (take 4 (drop 8 b)),
      hb_sessionId = le_word (take 8 (drop 16 b)), hb_inFlight = le_word (take 4 (drop 24 b)),
      hb_lastTaskAgeMs = le_word (take 4 (drop 28 b)), hb_currentTask = take 64 (drop 32 b),
      hb_flags = le_word (take 4 (drop 96 b)), hb_reserved = take 12 (drop 100 b)\<rparr>"

definition heartbeat_ok :: "VesHeartbeatReply \<Rightarrow> bool" where
  "heartbeat_ok reply \<longleftrightarrow> length (hb_currentTask reply) = 64 \<and> length (hb_reserved reply) = 12"

lemma heartbeat_round_trip:
  "heartbeat_ok reply \<Longrightarrow> length (heartbeat_image reply) = heartbeat_size \<and> heartbeat_of_image (heartbeat_image reply) = reply"
  by (simp add: heartbeat_ok_def heartbeat_image_def heartbeat_of_image_def heartbeat_size_def)

lemma any_call_round_trip:
  "length (an_payload request) < 2 ^ 32 \<Longrightarrow> DecodeAnyCallRequest (EncodeAnyCallWire request) = Some request"
  by (simp add: DecodeAnyCallRequest_def EncodeAnyCallWire_def unat_of_nat Let_def)

lemma any_reply_round_trip:
  "named_status (ay_status reply) \<Longrightarrow> length (ay_payload reply) < 2 ^ 32 \<Longrightarrow> DecodeAnyCallWire (EncodeAnyCallReply reply) = (Ok, Some reply)"
  by (simp add: DecodeAnyCallWire_def EncodeAnyCallReply_def unat_of_nat Let_def)

end
