(* ===== verification/Ves_Engine.thy ===== *)
theory Ves_Engine
  imports Ves_Codec Memrpc_ServerProps Memrpc_ClientState
begin

text \<open>
  The scan engine: the rules that decide on a sample (\<^verbatim>\<open>ves_sample_rules.cpp\<close>), the engine service
  (\<^verbatim>\<open>ves_engine_service.cpp\<close>), the testkit service (\<^verbatim>\<open>testkit_service.cpp\<close>), the registration of
  their typed handlers (\<^verbatim>\<open>rpc_handler_registrar.h\<close>) and the failure monitor of the testkit.  A handler that
  ends the process has no reply: its value is \<open>None\<close>.
\<close>

section \<open>ves_sample_rules.cpp\<close>

record SampleBehavior =
  sb_threatLevel :: u32
  sb_sleepMs :: u32
  sb_shouldCrash :: bool

definition MAX_SLEEP_MS :: u32 where
  "MAX_SLEEP_MS = 5000"

definition isdigit :: "char \<Rightarrow> bool" where
  "isdigit c \<longleftrightarrow> 48 \<le> (of_char c :: nat) \<and> (of_char c :: nat) \<le> 57"

fun sleep_digits :: "u32 \<Rightarrow> string \<Rightarrow> u32" where
  "sleep_digits ms [] = ms"
| "sleep_digits ms (c # cs) = (if isdigit c then sleep_digits (ms * 10 + (of_char c - 48)) cs else ms)"

definition ParseSleepMs :: "string \<Rightarrow> u32" where
  "ParseSleepMs path =
     (case find_str path ''sleep'' of
        None \<Rightarrow> 0
      | Some pos \<Rightarrow>
          let rest = drop (pos + length ''sleep'') path
          in if rest = [] \<or> \<not> isdigit (hd rest) then 0 else min (sleep_digits 0 rest) MAX_SLEEP_MS)"

definition EvaluateSamplePath :: "string \<Rightarrow> SampleBehavior" where
  "EvaluateSamplePath path =
     (let sleepMs = ParseSleepMs path;
          named = (find_str path ''virus'' \<noteq> None \<or> find_str path ''eicar'' \<noteq> None)
      in \<lparr>sb_threatLevel = (if sleepMs > 0 then 1 else if named then 1 else 0), sb_sleepMs = sleepMs,
          sb_shouldCrash = (find_str path ''crash'' \<noteq> None)\<rparr>)"

section \<open>ves_engine_service.cpp\<close>

text \<open>\<open>ve_publisher\<close> says that the weak pointer to the event publisher is set; the calls through it are in \<open>Ves_Session\<close>.\<close>

record VesEngine =
  ve_initialized :: bool
  ve_configuredEngineKinds :: "u32 list"
  ve_enginesConfigured :: bool
  ve_publisher :: bool

definition new_VesEngine :: VesEngine where
  "new_VesEngine = \<lparr>ve_initialized = False, ve_configuredEngineKinds = [], ve_enginesConfigured = False, ve_publisher = False\<rparr>"

definition VesEngineKind_Scan :: u32 where
  "VesEngineKind_Scan = 1"

definition ResolveEngineKinds :: "VesOpenSessionRequest \<Rightarrow> u32 list" where
  "ResolveEngineKinds request =
     (let engineKinds = NormalizeVesEngineKinds (os_engineKinds request)
      in if engineKinds = [] then [VesEngineKind_Scan] else engineKinds)"

definition InitializeEngine :: "VesEngine \<Rightarrow> VesEngine" where
  "InitializeEngine e = e\<lparr>ve_initialized := True\<rparr>"

definition ConfigureEngines :: "VesOpenSessionRequest \<Rightarrow> VesEngine \<Rightarrow> StatusCode \<times> VesEngine" where
  "ConfigureEngines request e =
     (if \<not> IsValidVesOpenSessionRequest request then (InvalidArgument, e)
      else let resolved = ResolveEngineKinds request
        in if \<not> ve_enginesConfigured e then
             (Ok, e\<lparr>ve_configuredEngineKinds := resolved, ve_enginesConfigured := True\<rparr>)
           else if ve_configuredEngineKinds e \<noteq> resolved then (InvalidArgument, e)
           else (Ok, e))"

definition ResetEngines :: "VesEngine \<Rightarrow> VesEngine" where
  "ResetEngines e = e\<lparr>ve_configuredEngineKinds := [], ve_enginesConfigured := False\<rparr>"

definition SetEventPublisher :: "bool \<Rightarrow> VesEngine \<Rightarrow> VesEngine" where
  "SetEventPublisher publisher e = e\<lparr>ve_publisher := publisher\<rparr>"

definition IsScanEngineEnabled :: "VesEngine \<Rightarrow> bool" where
  "IsScanEngineEnabled e = (\<not> ve_enginesConfigured e \<or> VesEngineKind_Scan \<in> set (ve_configuredEngineKinds e))"

text \<open>\<open>None\<close> stands for the call of \<^verbatim>\<open>std::abort\<close>; the sleep takes time and has no other effect.\<close>

definition ScanFile :: "VesEngine \<Rightarrow> ScanTask \<Rightarrow> ScanFileReply option" where
  "ScanFile e request =
     (if \<not> ve_initialized e \<or> \<not> IsScanEngineEnabled e then Some (default_ScanFileReply\<lparr>sf_code := - 1\<rparr>)
      else let behavior = EvaluateSamplePath (sk_path request)
        in if sb_shouldCrash behavior then None
           else Some \<lparr>sf_code = 0, sf_threatLevel = sb_threatLevel behavior\<rparr>)"

section \<open>Handlers and where they are registered\<close>

text \<open>A handler that does not return (it aborts, exits or loops) yields \<open>None\<close>.  In the server such a call is a task that never
  finishes, and \<open>returning\<close> is the handler on the calls that return.\<close>

type_synonym VesHandler = "RpcServerCall \<Rightarrow> RpcReply \<Rightarrow> RpcReply option"

definition MakeVesTypedHandler ::
  "(bytes option \<Rightarrow> nat \<Rightarrow> 'q option) \<Rightarrow> ('r \<Rightarrow> bytes option) \<Rightarrow> ('q \<Rightarrow> 'r option) \<Rightarrow> VesHandler" where
  "MakeVesTypedHandler decode encode h call reply =
     (case DecodeMessage decode (sc_payload call) of
        None \<Rightarrow> Some (reply\<lparr>rp_status := ProtocolMismatch\<rparr>)
      | Some request \<Rightarrow>
          (case h request of
             None \<Rightarrow> None
           | Some result \<Rightarrow>
               Some (case encode result of
                       Some bs \<Rightarrow> reply\<lparr>rp_payload := bs\<rparr>
                     | None \<Rightarrow> reply\<lparr>rp_status := EngineInternalError, rp_payload := []\<rparr>)))"

definition returning :: "VesHandler \<Rightarrow> RpcHandler" where
  "returning h call reply = (case h call reply of None \<Rightarrow> reply | Some r \<Rightarrow> r)"

definition VesOpcode_ScanFile :: u16 where
  "VesOpcode_ScanFile = 102"

type_synonym Registrations = "(u16 \<times> VesHandler) list"

definition EngineRegisterHandlers :: "VesEngine \<Rightarrow> Registrations" where
  "EngineRegisterHandlers e = [(VesOpcode_ScanFile, MakeVesTypedHandler DecodeScanTask EncodeScanFileReply (ScanFile e))]"

text \<open>\<^verbatim>\<open>RpcServerHandlerSink\<close> and the sink of the direct calls, fed with the registrations in order.\<close>

definition register_to_server :: "Registrations \<Rightarrow> Server \<Rightarrow> Server" where
  "register_to_server rs sv = fold (\<lambda>(opcode, h). RegisterHandler opcode (Some (returning h))) rs sv"

definition register_any_call :: "Registrations \<Rightarrow> (u16 \<rightharpoonup> VesHandler) \<Rightarrow> (u16 \<rightharpoonup> VesHandler)" where
  "register_any_call rs handlers = fold (\<lambda>(opcode, h) m. m(opcode \<mapsto> h)) rs handlers"

section \<open>testkit_service.cpp\<close>

record TestkitService =
  tk_enableFaultInjection :: bool

definition SetFaultInjectionEnabled :: "bool \<Rightarrow> TestkitService \<Rightarrow> TestkitService" where
  "SetFaultInjectionEnabled enabled s = s\<lparr>tk_enableFaultInjection := enabled\<rparr>"

definition Echo :: "EchoRequest \<Rightarrow> EchoReply" where
  "Echo request = \<lparr>er_text = eq_text request\<rparr>"

definition Add :: "AddRequest \<Rightarrow> AddReply" where
  "Add request = \<lparr>ar_sum = aq_lhs request + aq_rhs request\<rparr>"

definition Sleep :: "SleepRequest \<Rightarrow> SleepReply" where
  "Sleep request = \<lparr>sr_status = 0\<rparr>"

definition RegisterCoreHandlers :: Registrations where
  "RegisterCoreHandlers =
     [(200, MakeVesTypedHandler DecodeEchoRequest EncodeEchoReply (Some \<circ> Echo)),
      (201, MakeVesTypedHandler DecodeAddRequest EncodeAddReply (Some \<circ> Add)),
      (202, MakeVesTypedHandler DecodeSleepRequest EncodeSleepReply (Some \<circ> Sleep))]"

definition RegisterFaultInjectionHandlers :: Registrations where
  "RegisterFaultInjectionHandlers = map (\<lambda>opcode. (opcode, \<lambda>call reply. None)) [203, 204, 205, 206]"

definition TestkitRegisterHandlers :: "TestkitService \<Rightarrow> Registrations" where
  "TestkitRegisterHandlers s =
     RegisterCoreHandlers @ (if tk_enableFaultInjection s then RegisterFaultInjectionHandlers else [])"

section \<open>testkit_failure_monitor.h\<close>

record FailureMonitor =
  fm_windowMs :: u32
  fm_execTimeoutThreshold :: u32
  fm_triggerOnDisconnect :: bool
  fm_callback :: bool
  fm_execTimeouts :: "nat list"

definition ResetMonitor :: "FailureMonitor \<Rightarrow> FailureMonitor" where
  "ResetMonitor m = m\<lparr>fm_execTimeouts := []\<rparr>"

definition SetThresholdCallback :: "bool \<Rightarrow> FailureMonitor \<Rightarrow> FailureMonitor" where
  "SetThresholdCallback callback m = m\<lparr>fm_callback := callback\<rparr>"

text \<open>The result says whether the callback is called; \<open>now\<close> is the clock in milliseconds.\<close>

definition OnFailure :: "nat \<Rightarrow> RpcFailure \<Rightarrow> FailureMonitor \<Rightarrow> bool \<times> FailureMonitor" where
  "OnFailure now failure m =
     (if rf_status failure = PeerDisconnected \<or> rf_status failure = ProtocolMismatch then
        (fm_triggerOnDisconnect m \<and> fm_callback m, m)
      else if rf_status failure = ExecTimeout then
        let timeouts = dropWhile (\<lambda>t. now - t > unat (fm_windowMs m)) (fm_execTimeouts m @ [now])
        in if length timeouts \<ge> unat (fm_execTimeoutThreshold m) \<and> fm_callback m
           then (True, m\<lparr>fm_execTimeouts := []\<rparr>)
           else (False, m\<lparr>fm_execTimeouts := timeouts\<rparr>)
      else (False, m))"

section \<open>Properties of the sample rules\<close>

text \<open>The number that the digits after \<^verbatim>\<open>sleep\<close> denote.\<close>

fun decimal :: "nat \<Rightarrow> string \<Rightarrow> nat" where
  "decimal n [] = n"
| "decimal n (c # cs) = (if isdigit c then decimal (n * 10 + (of_char c - 48)) cs else n)"

lemma digit_word:
  assumes "isdigit c"
  shows "(of_char c :: u32) - 48 = of_nat (of_char c - 48)"
proof -
  have "(of_char c :: u32) = of_nat (of_char c)" by (simp only: of_nat_of_char)
  then show ?thesis using assms by (simp add: isdigit_def of_nat_diff)
qed

lemma sleep_digits_decimal: "sleep_digits (of_nat n) cs = of_nat (decimal n cs)"
proof (induction cs arbitrary: n)
  case Nil
  then show ?case by simp
next
  case (Cons c cs)
  show ?case
  proof (cases "isdigit c")
    case True
    have "(of_nat n :: u32) * 10 + (of_char c - 48) = of_nat (n * 10 + (of_char c - 48))"
      using digit_word [OF True] by simp
    then show ?thesis using True Cons.IH [of "n * 10 + (of_char c - 48)"] by simp
  qed simp
qed

lemma min_word: "unat (min a b :: u32) = min (unat a) (unat b)"
  by (simp add: min_def word_le_nat_alt)

text \<open>C34: The sleep time of a sample path is the decimal number after the first \<^verbatim>\<open>sleep\<close>, modulo \<open>2 ^ 32\<close>, and at most 5000
  milliseconds; the path is a threat exactly when it names \<^verbatim>\<open>virus\<close> or \<^verbatim>\<open>eicar\<close> or that time is not zero.\<close>

theorem sample_path_behavior:
  assumes "path = pre @ ''sleep'' @ rest" "find_str path ''sleep'' = Some (length pre)" "rest \<noteq> []" "isdigit (hd rest)"
  shows "unat (sb_sleepMs (EvaluateSamplePath path)) = min (decimal 0 rest mod 2 ^ 32) 5000 \<and>
    (sb_threatLevel (EvaluateSamplePath path) = 1 \<longleftrightarrow>
       decimal 0 rest mod 2 ^ 32 \<noteq> 0 \<or> find_str path ''virus'' \<noteq> None \<or> find_str path ''eicar'' \<noteq> None)"
proof -
  have "drop (length pre + length ''sleep'') path = rest" using assms(1) by simp
  then have p: "ParseSleepMs path = min (sleep_digits 0 rest) MAX_SLEEP_MS"
    using assms(2-4) by (simp add: ParseSleepMs_def Let_def)
  have d: "sleep_digits 0 rest = of_nat (decimal 0 rest)" using sleep_digits_decimal [of 0 rest] by simp
  have u: "unat (ParseSleepMs path) = min (decimal 0 rest mod 2 ^ 32) 5000"
    by (simp add: p d min_word unat_of_nat MAX_SLEEP_MS_def)
  have "ParseSleepMs path > 0 \<longleftrightarrow> unat (ParseSleepMs path) > 0" by (simp add: word_less_nat_alt)
  also have "\<dots> \<longleftrightarrow> decimal 0 rest mod 2 ^ 32 \<noteq> 0" by (simp add: u)
  finally show ?thesis using u by (simp add: EvaluateSamplePath_def Let_def)
qed

theorem sample_path_behavior_witness:
  "sb_threatLevel (EvaluateSamplePath ''/data/sleep4294967296'') \<noteq> 1 \<and> sb_sleepMs (EvaluateSamplePath ''/data/sleep4294967296'') = 0"
proof -
  let ?p = "''/data/sleep4294967296''"
  have d: "decimal 0 ''4294967296'' = 2 ^ 32" by (simp add: isdigit_def)
  have f: "find_str ?p ''sleep'' = Some (length ''/data/'')" "find_str ?p ''virus'' = None" "find_str ?p ''eicar'' = None"
    by (simp_all)
  have "unat (sb_sleepMs (EvaluateSamplePath ?p)) = 0 \<and> sb_threatLevel (EvaluateSamplePath ?p) \<noteq> 1"
    using sample_path_behavior [of ?p "''/data/''" "''4294967296''"] f d by (simp add: isdigit_def)
  then show ?thesis by (simp add: unat_eq_0)
qed

section \<open>Typed handlers\<close>

lemma MakeVesTypedHandler_total:
  assumes "\<And>q. DecodeMessage decode (sc_payload call) = Some q \<Longrightarrow> h q = Some (g q)"
  shows "MakeVesTypedHandler decode encode h call reply = Some (MakeTypedHandler decode encode g call reply)"
  using assms by (simp add: MakeVesTypedHandler_def MakeTypedHandler_def MakeTypedHandlerWithDecoder_def split: option.split)

lemma MakeVesTypedHandler_decoded:
  assumes "DecodeMessage decode (sc_payload call) = Some q" "h q = Some r"
  shows "returning (MakeVesTypedHandler decode encode h) call reply = MakeTypedHandler decode encode (\<lambda>_. r) call reply"
  using assms by (simp add: MakeVesTypedHandler_def MakeTypedHandler_def MakeTypedHandlerWithDecoder_def returning_def split: option.split)

lemma scan_handler:
  assumes "ScanFile e q = Some r" "short_string (sk_path q)" "EncodeScanTask q = Some bs" "sc_payload call = bs"
  shows "WaitAndDecode DecodeScanFileReply
    (returning (MakeVesTypedHandler DecodeScanTask EncodeScanFileReply (ScanFile e)) call default_RpcReply) = (Ok, Some r)"
proof -
  have "DecodeMessage DecodeScanTask (sc_payload call) = Some q"
    using scan_task.decode_message [OF assms(2,3)] assms(4) by simp
  from MakeVesTypedHandler_decoded [of DecodeScanTask call q "ScanFile e", OF this assms(1)] show ?thesis
    using scan_call.typed_round_trip [OF assms(2) _ assms(3,4), of "\<lambda>_. r"] by simp
qed

section \<open>Registration\<close>

lemma registered_handler:
  "map_of (sv_handlers (register_to_server rs sv)) opcode =
     (case map_of (rev rs) opcode of Some h \<Rightarrow> Some (returning h) | None \<Rightarrow> map_of (sv_handlers sv) opcode)"
proof (induction rs arbitrary: sv)
  case Nil
  then show ?case by (simp add: register_to_server_def)
next
  case (Cons r rs)
  obtain op h where r: "r = (op, h)" by (cases r)
  have reg: "map_of (sv_handlers (RegisterHandler op (Some (returning h)) sv)) opcode =
      (if opcode = op then Some (returning h) else map_of (sv_handlers sv) opcode)"
    by (simp add: RegisterHandler_def)
  have "register_to_server (r # rs) sv = register_to_server rs (RegisterHandler op (Some (returning h)) sv)"
    by (simp add: register_to_server_def r)
  then show ?case
    using Cons.IH [of "RegisterHandler op (Some (returning h)) sv"] reg
    by (simp add: r map_add_def split: option.split)
qed

lemma any_call_handler:
  "register_any_call rs m opcode = (case map_of (rev rs) opcode of Some h \<Rightarrow> Some h | None \<Rightarrow> m opcode)"
proof (induction rs arbitrary: m)
  case Nil
  then show ?case by (simp add: register_any_call_def)
next
  case (Cons r rs)
  obtain op h where r: "r = (op, h)" by (cases r)
  define m' where "m' = m(op \<mapsto> h)"
  have "register_any_call (r # rs) m = register_any_call rs m'" by (simp add: register_any_call_def r m'_def)
  moreover have "m' opcode = (if opcode = op then Some h else m opcode)" by (simp add: m'_def)
  ultimately show ?case using Cons.IH [of m'] by (simp add: r map_add_def split: option.split)
qed

end
