(* ===== verification/Ves_Session.thy ===== *)
theory Ves_Session
  imports Ves_Engine Memrpc_Host
begin

text \<open>
  The server process: \<open>EngineSession\<close> is \<^verbatim>\<open>EngineSessionService\<close> (\<^verbatim>\<open>ves_session_service.cpp\<close>), which owns the session
  host and the RPC server, and \<open>VesService\<close> is \<^verbatim>\<open>VirusExecutorService\<close> (\<^verbatim>\<open>virus_executor_service.cpp\<close>) above it.  The
  kernel state that host and server share is \<open>EngineWorld\<close>.  Calls that run in several threads are the step relation
  \<open>service_step\<close>, one step per locked part.  The hook and the sleeps of \<^verbatim>\<open>RunCloseSessionChaos\<close> only take time and are left out.
\<close>

unbundle bit_operations_syntax

section \<open>The process: descriptors and shared memory\<close>

text \<open>The host and the server see the same kernel; \<open>ew_sys\<close> has the descriptors and the shared-memory objects, and an operation on
  \<open>World\<close> sees the same objects and its closes are closes of the process's descriptors.\<close>

record EngineWorld =
  ew_sys :: HostSys
  ew_world :: World

definition to_world :: "EngineWorld \<Rightarrow> World" where
  "to_world ew = (ew_world ew)\<lparr>wd_sys := (wd_sys (ew_world ew))\<lparr>ss_objs := hs_objs (ew_sys ew), ss_fdobj := hs_fdobj (ew_sys ew)\<rparr>\<rparr>"

definition from_world :: "EngineWorld \<Rightarrow> World \<Rightarrow> EngineWorld" where
  "from_world ew w =
     (let closed = drop (length (ss_closed (wd_sys (ew_world ew)))) (ss_closed (wd_sys w))
      in \<lparr>ew_sys = (ew_sys ew)\<lparr>hs_objs := ss_objs (wd_sys w), hs_open := fold remove1 closed (hs_open (ew_sys ew))\<rparr>, ew_world = w\<rparr>)"

section \<open>ves_session_service.cpp\<close>

text \<open>A registrar is the list of handlers it registers, as a function of the engine state its handlers read when they are
  called.\<close>

type_synonym Registrar = "VesEngine \<Rightarrow> Registrations"

record EngineSession =
  es_registrars :: "Registrar list"
  es_anyCallHandlers :: "Registrar list"
  es_host :: "Host option"
  es_server :: "Server option"
  es_initialized :: bool
  es_closing :: bool
  es_sessionId :: u64
  es_publisherRunning :: bool
  es_eventSequence :: u32

definition new_EngineSession :: "Registrar list \<Rightarrow> Host option \<Rightarrow> EngineSession" where
  "new_EngineSession registrars host =
     \<lparr>es_registrars = registrars, es_anyCallHandlers = [], es_host = host, es_server = None, es_initialized = False,
      es_closing = False, es_sessionId = 0, es_publisherRunning = False, es_eventSequence = 0\<rparr>"

text \<open>What the outside decides during a call: the attach of the server, the lock, the clock, and the tasks of the server that run
  or wait when it is stopped.\<close>

record EngineEnv =
  ee_abi :: abi
  ee_attach :: AttachEnv
  ee_lock :: LockEnv
  ee_now :: u64
  ee_inflight :: "RequestRingEntry list"
  ee_awaiting :: "RequestRingEntry list"

definition default_config :: SharedMemorySessionConfig where
  "default_config = \<lparr>smc_highRingSize = DEFAULT_RING_SIZE, smc_normalRingSize = DEFAULT_RING_SIZE,
     smc_responseRingSize = DEFAULT_RING_SIZE, smc_maxRequestBytes = DEFAULT_MAX_REQUEST_BYTES,
     smc_maxResponseBytes = DEFAULT_MAX_RESPONSE_BYTES, smc_shmName = []\<rparr>"

definition default_ServerOptions :: ServerOptions where
  "default_ServerOptions = \<lparr>so_highWorkerThreads = 1, so_normalWorkerThreads = 1, so_completionQueueCapacity = 0,
     so_highExecutor = None, so_normalExecutor = None\<rparr>"

definition registrations :: "VesEngine \<Rightarrow> Registrar list \<Rightarrow> Registrations" where
  "registrations e registrars = concat (map (\<lambda>r. r e) registrars)"

text \<open>The handlers hold a pointer to the engine: after a change of its state they are the handlers of the new state.\<close>

definition bind_handlers :: "VesEngine \<Rightarrow> EngineSession \<Rightarrow> EngineSession" where
  "bind_handlers e es = es\<lparr>es_server := map_option (register_to_server (registrations e (es_registrars es))) (es_server es)\<rparr>"

definition StartServer ::
  "EngineEnv \<Rightarrow> VesEngine \<Rightarrow> Host \<Rightarrow> EngineSession \<Rightarrow> EngineWorld \<Rightarrow> StatusCode \<times> EngineSession \<times> EngineWorld" where
  "StartServer env e host es ew =
     (case serverHandles host (ew_sys ew) of (handles, s1) \<Rightarrow>
      let ew1 = ew\<lparr>ew_sys := s1\<rparr>;
          sv = register_to_server (registrations e (es_registrars es)) (new_RpcServer handles default_ServerOptions)
      in case Start (ee_abi env) (ee_attach env) sv (to_world ew1) of (start_status, sv1, w1) \<Rightarrow>
         let ew2 = from_world ew1 w1
         in if start_status \<noteq> Ok then
              (start_status, es\<lparr>es_server := None, es_host := None, es_anyCallHandlers := []\<rparr>,
               ew2\<lparr>ew_sys := snd (snd (HostCloseSession host (ew_sys ew2)))\<rparr>)
            else
              (Ok, es\<lparr>es_host := Some host, es_server := Some sv1, es_anyCallHandlers := es_registrars es, es_initialized := True\<rparr>, ew2))"

definition EnsureServiceInitialized ::
  "EngineEnv \<Rightarrow> VesEngine \<Rightarrow> EngineSession \<Rightarrow> EngineWorld \<Rightarrow> StatusCode \<times> EngineSession \<times> EngineWorld" where
  "EnsureServiceInitialized env e es ew =
     (if es_closing es then (PeerDisconnected, es, ew)
      else if es_initialized es then (Ok, es, ew)
      else let host = (case es_host es of None \<Rightarrow> MkHost default_config | Some h \<Rightarrow> h)
      in case EnsureSession (ee_abi env) host (ew_sys ew) of (ensureStatus, h1, s1) \<Rightarrow>
         if ensureStatus \<noteq> Ok then (ensureStatus, es\<lparr>es_host := Some h1\<rparr>, ew\<lparr>ew_sys := s1\<rparr>)
         else StartServer env e h1 (es\<lparr>es_host := Some h1\<rparr>) (ew\<lparr>ew_sys := s1\<rparr>))"

text \<open>\<^verbatim>\<open>OpenSession\<close> takes the lock twice: \<open>OpenLocked\<close> is its second locked part.\<close>

definition StartEventPublisherLocked :: "EngineSession \<Rightarrow> EngineSession" where
  "StartEventPublisherLocked es = (if es_publisherRunning es then es else es\<lparr>es_publisherRunning := True\<rparr>)"

definition OpenLocked ::
  "abi \<Rightarrow> BootstrapHandles \<Rightarrow> EngineSession \<Rightarrow> EngineWorld \<Rightarrow> StatusCode \<times> BootstrapHandles \<times> EngineSession \<times> EngineWorld" where
  "OpenLocked a handles es ew =
     (case es_host es of
        None \<Rightarrow> (InvalidArgument, handles, es, ew)
      | Some h \<Rightarrow>
          (case HostOpenSession a handles h (ew_sys ew) of (status, handles1, h1, s1) \<Rightarrow>
           let es1 = es\<lparr>es_host := Some h1\<rparr>
           in (status, handles1,
               if status = Ok then StartEventPublisherLocked (es1\<lparr>es_sessionId := bh_sessionId handles1\<rparr>) else es1,
               ew\<lparr>ew_sys := s1\<rparr>)))"

definition ServiceOpenSession ::
  "EngineEnv \<Rightarrow> VesEngine \<Rightarrow> BootstrapHandles \<Rightarrow> EngineSession \<Rightarrow> EngineWorld \<Rightarrow>
     StatusCode \<times> BootstrapHandles \<times> EngineSession \<times> EngineWorld" where
  "ServiceOpenSession env e handles es ew =
     (case EnsureServiceInitialized env e es ew of (init_status, es1, ew1) \<Rightarrow>
      if init_status \<noteq> Ok then (init_status, handles, es1, ew1)
      else OpenLocked (ee_abi env) handles es1 ew1)"

definition PublishEventBlocking ::
  "RpcEvent \<Rightarrow> EngineSession \<Rightarrow> EngineWorld \<Rightarrow> (StatusCode + nat) \<times> EngineSession \<times> EngineWorld" where
  "PublishEventBlocking event es ew =
     (case es_server es of
        None \<Rightarrow> (Inl PeerDisconnected, es, ew)
      | Some sv \<Rightarrow>
          if \<not> es_initialized es \<or> es_sessionId es = 0 then (Inl PeerDisconnected, es, ew)
          else case BeginPublishEvent event sv (to_world ew) of (r, sv1, w1) \<Rightarrow>
            (r, es\<lparr>es_server := Some sv1\<rparr>, from_world ew w1))"

definition InvokeAnyCallHandler :: "(u16 \<rightharpoonup> VesHandler) \<Rightarrow> RpcServerCall \<Rightarrow> RpcReply option" where
  "InvokeAnyCallHandler handlers call =
     (case handlers (sc_opcode call) of
        None \<Rightarrow> Some (default_RpcReply\<lparr>rp_status := InvalidArgument\<rparr>)
      | Some h \<Rightarrow> h call default_RpcReply)"

text \<open>\<open>None\<close> when the handler does not return.\<close>

definition InvokeAnyCall ::
  "EngineEnv \<Rightarrow> VesEngine \<Rightarrow> RpcServerCall \<Rightarrow> EngineSession \<Rightarrow> EngineWorld \<Rightarrow>
     (StatusCode \<times> RpcReply) option \<times> EngineSession \<times> EngineWorld" where
  "InvokeAnyCall env e call es ew =
     (case EnsureServiceInitialized env e es ew of (initStatus, es1, ew1) \<Rightarrow>
      if initStatus \<noteq> Ok then (Some (initStatus, default_RpcReply), es1, ew1)
      else (map_option (\<lambda>reply. (rp_status reply, reply))
              (InvokeAnyCallHandler (register_any_call (registrations e (es_anyCallHandlers es1)) Map.empty) call), es1, ew1))"

text \<open>\<^verbatim>\<open>CloseSession\<close> in its locked and unlocked parts; the stages at which the close hook runs lie between them.\<close>

definition CloseMark :: "EngineSession \<Rightarrow> (Server option \<times> Host option) option \<times> EngineSession" where
  "CloseMark es =
     (if es_closing es \<or> \<not> es_initialized es then (None, es)
      else (Some (es_server es, es_host es),
        es\<lparr>es_closing := True, es_publisherRunning := False, es_server := None, es_host := None, es_initialized := False,
           es_sessionId := 0\<rparr>))"

definition CloseStop :: "EngineEnv \<Rightarrow> Server option \<Rightarrow> EngineWorld \<Rightarrow> EngineWorld" where
  "CloseStop env server ew =
     (case server of
        None \<Rightarrow> ew
      | Some sv \<Rightarrow> from_world ew (snd (Stop (ee_lock env) (ee_now env) (ee_inflight env) (ee_awaiting env) sv (to_world ew))))"

definition CloseHost :: "Host option \<Rightarrow> EngineWorld \<Rightarrow> EngineWorld" where
  "CloseHost host ew =
     (case host of None \<Rightarrow> ew | Some h \<Rightarrow> ew\<lparr>ew_sys := snd (snd (HostCloseSession h (ew_sys ew)))\<rparr>)"

definition CloseFinish :: "EngineSession \<Rightarrow> EngineSession" where
  "CloseFinish es = es\<lparr>es_closing := False\<rparr>"

definition ServiceCloseSession ::
  "EngineEnv \<Rightarrow> EngineSession \<Rightarrow> EngineWorld \<Rightarrow> StatusCode \<times> EngineSession \<times> EngineWorld" where
  "ServiceCloseSession env es ew =
     (case CloseMark es of
        (None, es1) \<Rightarrow> (Ok, es1, ew)
      | (Some (server, host), es1) \<Rightarrow> (Ok, CloseFinish es1, CloseHost host (CloseStop env server ew)))"

definition ServiceGetRuntimeStats :: "u64 \<Rightarrow> EngineSession \<Rightarrow> EngineWorld \<Rightarrow> RpcServerRuntimeStats" where
  "ServiceGetRuntimeStats now es ew =
     (case es_server es of
        None \<Rightarrow> \<lparr>st_completionBacklog = 0, st_completionBacklogCapacity = 0, st_highRequestRingPending = 0,
          st_normalRequestRingPending = 0, st_responseRingPending = 0, st_activeRequestExecutions = 0,
          st_oldestExecutionAgeMs = 0, st_waitingForResponseCredit = False\<rparr>
      | Some sv \<Rightarrow> GetRuntimeStats now sv (to_world ew))"

text \<open>One turn of \<^verbatim>\<open>EventPublisherLoop\<close>, with the random event type and state of the turn.\<close>

definition event_text :: "u64 \<Rightarrow> u32 \<Rightarrow> u32 \<Rightarrow> nat \<Rightarrow> string" where
  "event_text sid sequence eventType state =
     ''ves-random-event session='' @ nat_str (unat sid) @ '' seq='' @ nat_str (unat sequence) @
     '' type='' @ nat_str (unat eventType) @ '' state='' @ nat_str state"

definition EventPublisherTurn ::
  "u32 \<Rightarrow> nat \<Rightarrow> EngineSession \<Rightarrow> EngineWorld \<Rightarrow> EngineSession \<times> EngineWorld" where
  "EventPublisherTurn eventType state es ew =
     (if \<not> es_publisherRunning es \<or> \<not> es_initialized es \<or> es_server es = None \<or> es_sessionId es = 0 then (es, ew)
      else let sequence = es_eventSequence es + 1;
               es1 = es\<lparr>es_eventSequence := sequence\<rparr>;
               event = \<lparr>ev_eventDomain = 1, ev_eventType = eventType, ev_flags = 0,
                 ev_payload = str_bytes (event_text (es_sessionId es) sequence eventType state)\<rparr>
        in snd (PublishEventBlocking event es1 ew))"


section \<open>virus_executor_service.cpp\<close>

record VesService =
  vs_engine :: VesEngine
  vs_testkit :: TestkitService
  vs_session :: "EngineSession option"
  vs_published :: bool
  vs_unloadRequested :: bool
  vs_stopping :: bool

definition new_VesService :: VesService where
  "new_VesService = \<lparr>vs_engine = new_VesEngine, vs_testkit = \<lparr>tk_enableFaultInjection = False\<rparr>, vs_session = None,
     vs_published = False, vs_unloadRequested = False, vs_stopping = False\<rparr>"

text \<open>An environment variable is the value of \<^verbatim>\<open>getenv\<close>.\<close>

definition EnvFlagEnabled :: "string option \<Rightarrow> bool" where
  "EnvFlagEnabled value = (value = Some ''1'')"

text \<open>\<open>published\<close> is the answer of \<^verbatim>\<open>SystemAbility::Publish\<close>.\<close>

definition Publish :: "bool \<Rightarrow> VesService \<Rightarrow> bool \<times> VesService" where
  "Publish published vs = (if \<not> published then (False, vs) else (True, vs\<lparr>vs_published := True\<rparr>))"

definition VesOpenSession ::
  "EngineEnv \<Rightarrow> VesOpenSessionRequest \<Rightarrow> BootstrapHandles \<Rightarrow> VesService \<Rightarrow> EngineWorld \<Rightarrow>
     StatusCode \<times> BootstrapHandles \<times> VesService \<times> EngineWorld" where
  "VesOpenSession env request handles vs ew =
     (if vs_stopping vs then (PeerDisconnected, handles, vs, ew)
      else case ConfigureEngines request (vs_engine vs) of (configStatus, e) \<Rightarrow>
      let vs1 = vs\<lparr>vs_engine := e, vs_session := map_option (bind_handlers e) (vs_session vs)\<rparr>
      in if configStatus \<noteq> Ok then (configStatus, handles, vs1, ew)
         else case vs_session vs1 of
           None \<Rightarrow> (InvalidArgument, handles, vs1, ew)
         | Some es \<Rightarrow>
             (case ServiceOpenSession env e handles es ew of (status, handles1, es1, ew1) \<Rightarrow>
              (status, handles1, vs1\<lparr>vs_session := Some es1\<rparr>, ew1)))"

definition VesCloseSession :: "EngineEnv \<Rightarrow> VesService \<Rightarrow> EngineWorld \<Rightarrow> StatusCode \<times> VesService \<times> EngineWorld" where
  "VesCloseSession env vs ew =
     (case vs_session vs of
        None \<Rightarrow> (Ok, vs, ew)
      | Some es \<Rightarrow>
          (case ServiceCloseSession env es ew of (status, es1, ew1) \<Rightarrow> (status, vs\<lparr>vs_session := Some es1\<rparr>, ew1)))"

datatype VesHeartbeatStatus =
  OkIdle | OkBusy | DegradedLongRunning | UnhealthyNoSession | UnhealthyStopping | UnhealthyInternalError

fun VesHeartbeatStatus_u32 :: "VesHeartbeatStatus \<Rightarrow> u32" where
  "VesHeartbeatStatus_u32 OkIdle = 0"
| "VesHeartbeatStatus_u32 OkBusy = 1"
| "VesHeartbeatStatus_u32 DegradedLongRunning = 2"
| "VesHeartbeatStatus_u32 UnhealthyNoSession = 3"
| "VesHeartbeatStatus_u32 UnhealthyStopping = 4"
| "VesHeartbeatStatus_u32 UnhealthyInternalError = 5"

datatype VesHeartbeatReasonCode =
  ReasonNone | ReasonBusy | ReasonLongRunning | ReasonNoSession | ReasonStopping | ReasonInternalError

fun VesHeartbeatReasonCode_u32 :: "VesHeartbeatReasonCode \<Rightarrow> u32" where
  "VesHeartbeatReasonCode_u32 ReasonNone = 0"
| "VesHeartbeatReasonCode_u32 ReasonBusy = 1"
| "VesHeartbeatReasonCode_u32 ReasonLongRunning = 2"
| "VesHeartbeatReasonCode_u32 ReasonNoSession = 3"
| "VesHeartbeatReasonCode_u32 ReasonStopping = 4"
| "VesHeartbeatReasonCode_u32 ReasonInternalError = 5"

definition VES_HEARTBEAT_FLAG_HAS_SESSION :: u32 where
  "VES_HEARTBEAT_FLAG_HAS_SESSION = 1"

definition VES_HEARTBEAT_FLAG_INITIALIZED :: u32 where
  "VES_HEARTBEAT_FLAG_INITIALIZED = 2"

definition VES_HEARTBEAT_FLAG_BUSY :: u32 where
  "VES_HEARTBEAT_FLAG_BUSY = 4"

definition VES_HEARTBEAT_FLAG_LONG_RUNNING :: u32 where
  "VES_HEARTBEAT_FLAG_LONG_RUNNING = 8"

definition LONG_RUNNING_REQUEST_THRESHOLD_MS :: u32 where
  "LONG_RUNNING_REQUEST_THRESHOLD_MS = 100"

definition default_VesHeartbeatReply :: VesHeartbeatReply where
  "default_VesHeartbeatReply = \<lparr>hb_version = 2, hb_status = VesHeartbeatStatus_u32 UnhealthyNoSession,
     hb_reasonCode = VesHeartbeatReasonCode_u32 ReasonNoSession, hb_sessionId = 0, hb_inFlight = 0, hb_lastTaskAgeMs = 0,
     hb_currentTask = replicate 64 0, hb_flags = 0, hb_reserved = replicate 12 0\<rparr>"

text \<open>\<^verbatim>\<open>snprintf\<close> into the 64 characters of \<^verbatim>\<open>currentTask\<close>: what fits before the terminating zero, and the rest stays.\<close>

definition set_task :: "string \<Rightarrow> VesHeartbeatReply \<Rightarrow> VesHeartbeatReply" where
  "set_task task reply =
     (let b = take 63 (str_bytes task) @ [0]
      in reply\<lparr>hb_currentTask := b @ drop (length b) (hb_currentTask reply)\<rparr>)"

definition PopulateHealthyReply :: "RpcServerRuntimeStats \<Rightarrow> u64 \<Rightarrow> VesHeartbeatReply \<Rightarrow> VesHeartbeatReply" where
  "PopulateHealthyReply stats sid reply =
     (let reply1 = reply\<lparr>hb_sessionId := sid, hb_flags := VES_HEARTBEAT_FLAG_HAS_SESSION OR VES_HEARTBEAT_FLAG_INITIALIZED,
            hb_inFlight := st_activeRequestExecutions stats, hb_lastTaskAgeMs := st_oldestExecutionAgeMs stats\<rparr>
      in if st_activeRequestExecutions stats = 0 then
           set_task ''idle'' (reply1\<lparr>hb_status := VesHeartbeatStatus_u32 OkIdle,
             hb_reasonCode := VesHeartbeatReasonCode_u32 ReasonNone\<rparr>)
         else let reply2 = set_task ''active'' (reply1\<lparr>hb_flags := hb_flags reply1 OR VES_HEARTBEAT_FLAG_BUSY\<rparr>)
         in if st_oldestExecutionAgeMs stats \<ge> LONG_RUNNING_REQUEST_THRESHOLD_MS then
              reply2\<lparr>hb_status := VesHeartbeatStatus_u32 DegradedLongRunning,
                hb_reasonCode := VesHeartbeatReasonCode_u32 ReasonLongRunning,
                hb_flags := hb_flags reply2 OR VES_HEARTBEAT_FLAG_LONG_RUNNING\<rparr>
            else reply2\<lparr>hb_status := VesHeartbeatStatus_u32 OkBusy, hb_reasonCode := VesHeartbeatReasonCode_u32 ReasonBusy\<rparr>)"

definition Heartbeat :: "u64 \<Rightarrow> VesService \<Rightarrow> EngineWorld \<Rightarrow> StatusCode \<times> VesHeartbeatReply" where
  "Heartbeat now vs ew =
     (let heartbeat = default_VesHeartbeatReply
      in if vs_stopping vs then
           (Ok, heartbeat\<lparr>hb_status := VesHeartbeatStatus_u32 UnhealthyStopping,
             hb_reasonCode := VesHeartbeatReasonCode_u32 ReasonStopping\<rparr>)
         else case vs_session vs of
           None \<Rightarrow>
             (Ok, set_task ''idle''
               (if ve_initialized (vs_engine vs)
                then heartbeat\<lparr>hb_flags := hb_flags heartbeat OR VES_HEARTBEAT_FLAG_INITIALIZED\<rparr> else heartbeat))
         | Some es \<Rightarrow>
             if \<not> ve_initialized (vs_engine vs) then
               (Ok, heartbeat\<lparr>hb_status := VesHeartbeatStatus_u32 UnhealthyInternalError,
                 hb_reasonCode := VesHeartbeatReasonCode_u32 ReasonInternalError\<rparr>)
             else if es_sessionId es = 0 then
               (Ok, heartbeat\<lparr>hb_flags := hb_flags heartbeat OR VES_HEARTBEAT_FLAG_INITIALIZED,
                 hb_status := VesHeartbeatStatus_u32 UnhealthyNoSession,
                 hb_reasonCode := VesHeartbeatReasonCode_u32 ReasonNoSession\<rparr>)
             else (Ok, PopulateHealthyReply (ServiceGetRuntimeStats now es ew) (es_sessionId es) heartbeat))"

text \<open>The cast of a 16-bit priority to the 8-bit enumeration; a value without an enumerator counts as normal here, no handler of the
  service reads the priority.\<close>

definition priority_of_u16 :: "u16 \<Rightarrow> Priority" where
  "priority_of_u16 p = (if (ucast p :: u8) = 1 then PriorityHigh else PriorityNormal)"

definition VesAnyCall ::
  "EngineEnv \<Rightarrow> VesAnyCallRequest \<Rightarrow> VesService \<Rightarrow> EngineWorld \<Rightarrow>
     (StatusCode \<times> VesAnyCallReply) option \<times> VesService \<times> EngineWorld" where
  "VesAnyCall env request vs ew =
     (let refused = (Some (Ok, default_VesAnyCallReply\<lparr>ay_status := PeerDisconnected\<rparr>), vs, ew)
      in if vs_stopping vs \<or> \<not> ve_initialized (vs_engine vs) then refused
         else case vs_session vs of
           None \<Rightarrow> refused
         | Some es \<Rightarrow>
             let call = \<lparr>sc_opcode = an_opcode request, sc_priority = priority_of_u16 (an_priority request), sc_execTimeoutMs = 0,
                         sc_payload = str_bytes (an_payload request)\<rparr>
             in case InvokeAnyCall env (vs_engine vs) call es ew of (r, es1, ew1) \<Rightarrow>
                (map_option (\<lambda>(status, reply). (Ok, \<lparr>ay_status = status, ay_payload = bytes_str (rp_payload reply)\<rparr>)) r,
                 vs\<lparr>vs_session := Some es1\<rparr>, ew1))"

text \<open>\<open>faults\<close> is the variable \<^verbatim>\<open>VES_ENABLE_TESTKIT_FAULTS\<close>, \<open>dir\<close> the payload directory.  A session service that is still there is
  destroyed, and its destructor closes it.\<close>

definition OnStart :: "EngineEnv \<Rightarrow> string \<Rightarrow> string option \<Rightarrow> VesService \<Rightarrow> EngineWorld \<Rightarrow> VesService \<times> EngineWorld" where
  "OnStart env dir faults vs ew =
     (let ew1 = ew\<lparr>ew_world := (ew_world ew)\<lparr>wd_fs := snd (ClearFilePayloads dir (wd_fs (ew_world ew)))\<rparr>\<rparr>;
          testkit = SetFaultInjectionEnabled (EnvFlagEnabled faults) (vs_testkit vs);
          es = new_EngineSession [EngineRegisterHandlers, \<lambda>e. TestkitRegisterHandlers testkit] None;
          ew2 = (case vs_session vs of None \<Rightarrow> ew1 | Some old \<Rightarrow> snd (snd (ServiceCloseSession env old ew1)))
      in (vs\<lparr>vs_stopping := False, vs_testkit := testkit, vs_published := False, vs_unloadRequested := False,
            vs_session := Some es, vs_engine := InitializeEngine (SetEventPublisher True (vs_engine vs))\<rparr>, ew2))"

definition OnStop :: "EngineEnv \<Rightarrow> VesService \<Rightarrow> EngineWorld \<Rightarrow> VesService \<times> EngineWorld" where
  "OnStop env vs ew =
     (let ew1 = (case vs_session vs of None \<Rightarrow> ew | Some es \<Rightarrow> snd (snd (ServiceCloseSession env es ew)))
      in (vs\<lparr>vs_stopping := True, vs_session := None, vs_engine := ResetEngines (SetEventPublisher False (vs_engine vs))\<rparr>, ew1))"

text \<open>\<^verbatim>\<open>VesEngineService::PublishEvent\<close>: the publisher is the session service while it lives.\<close>

definition EnginePublishEvent ::
  "RpcEvent \<Rightarrow> VesService \<Rightarrow> EngineWorld \<Rightarrow> (StatusCode + nat) \<times> VesService \<times> EngineWorld" where
  "EnginePublishEvent event vs ew =
     (if \<not> ve_publisher (vs_engine vs) then (Inl PeerDisconnected, vs, ew)
      else case vs_session vs of
        None \<Rightarrow> (Inl PeerDisconnected, vs, ew)
      | Some es \<Rightarrow>
          (case PublishEventBlocking event es ew of (r, es1, ew1) \<Rightarrow> (r, vs\<lparr>vs_session := Some es1\<rparr>, ew1)))"

definition PublishTextEvent ::
  "u32 \<Rightarrow> string \<Rightarrow> u32 \<Rightarrow> u32 \<Rightarrow> VesService \<Rightarrow> EngineWorld \<Rightarrow> (StatusCode + nat) \<times> VesService \<times> EngineWorld" where
  "PublishTextEvent eventType payload flags eventDomain vs ew =
     EnginePublishEvent \<lparr>ev_eventDomain = eventDomain, ev_eventType = eventType, ev_flags = flags, ev_payload = str_bytes payload\<rparr> vs ew"

section \<open>Descriptors that the server closes\<close>

lemma writer_drain_frame:
  "State (sv_session sv) (wd_sys w) \<noteq> SessionAlive \<Longrightarrow> writer_drain items sv w = (sv', w') \<Longrightarrow> stop_frame sv w sv' w'"
proof (induction items arbitrary: sv w)
  case Nil
  then show ?case by (simp add: stop_frame_refl)
next
  case (Cons item items)
  let ?sv = "sv\<lparr>sv_completionQueue := items\<rparr>"
  obtain sv1 w1 where fin: "FinishItem PeerDisconnected item ?sv w = (sv1, w1)" by (meson surj_pair)
  have drain: "writer_drain items sv1 w1 = (sv', w')"
    using Cons.prems WriteItem_broken [of ?sv w 0 idle_turn "[]" item] fin by simp
  have f: "stop_frame sv w sv1 w1" using FinishItem_frame [OF fin] by (simp add: stop_frame_def)
  then have "State (sv_session sv1) (wd_sys w1) \<noteq> SessionAlive" using Cons.prems(1) by (simp add: stop_frame_def)
  from stop_frame_trans [OF f Cons.IH [OF this drain]] show ?case .
qed

lemma fail_items_frame: "fail_items status items sv w = (sv', w') \<Longrightarrow> stop_frame sv w sv' w'"
proof (induction items arbitrary: sv w)
  case (Cons item items)
  have "stop_frame sv w (CompleteItem (ci_completion item) status sv) (RemoveResponseFilePayloadIfPresent (ci_entry item) w)"
    by (simp add: stop_frame_def logs_kept_def CompleteItem_def)
  with Cons.IH [of "CompleteItem (ci_completion item) status sv" "RemoveResponseFilePayloadIfPresent (ci_entry item) w"] Cons.prems show ?case
    by (auto intro: stop_frame_trans)
qed (simp add: stop_frame_refl)

lemma StopResponseWriter_frame:
  assumes "StopResponseWriter sv w = (sv', w')" "State (sv_session sv) (wd_sys w) \<noteq> SessionAlive" "\<not> sv_responseWriterRunning sv"
  shows "stop_frame sv w sv' w'"
proof -
  let ?w = "signal_if_open (bh_respCreditEventFd (se_handles (sv_session sv))) w"
  have sv: "sv\<lparr>sv_responseWriterRunning := False\<rparr> = sv" using assms(3) by (cases sv) simp
  obtain sv1 w1 where dr: "writer_drain (sv_completionQueue sv) sv ?w = (sv1, w1)" by (meson surj_pair)
  have d: "stop_frame sv w sv1 w1" using writer_drain_frame [OF _ dr] assms(2) by (simp add: stop_frame_def logs_kept_def)
  have "fail_items PeerDisconnected (sv_completionQueue sv1)
      (sv1\<lparr>sv_completionQueue := [], sv_pendingCompletionCount := 0\<rparr>) w1 = (sv', w')"
    using assms(1) by (simp add: StopResponseWriter_def Let_def sv dr FailPendingCompletionItems_def)
  from fail_items_frame [OF this] have "stop_frame sv1 w1 sv' w'" by (simp add: stop_frame_def)
  with d show ?thesis by (rule stop_frame_trans)
qed

lemma run_tasks_frame:
  "\<not> sv_responseWriterRunning sv \<Longrightarrow> State (sv_session sv) (wd_sys w) \<noteq> SessionAlive \<Longrightarrow>
     run_tasks now tasks sv w = (sv', w') \<Longrightarrow> stop_frame sv w sv' w'"
proof (induction tasks arbitrary: sv w)
  case Nil
  then show ?case by (simp add: stop_frame_refl)
next
  case (Cons e tasks)
  obtain r sv1 w1 where pe: "ProcessEntry now e sv w = (r, sv1, w1)" by (metis prod_cases3)
  have f: "stop_frame sv w (FinishTask e sv1) w1"
    using ProcessEntry_stopped [OF Cons.prems(1,2) pe] stop_frame_trans [OF _ FinishTask_frame(1)] by blast
  moreover have "run_tasks now tasks (FinishTask e sv1) w1 = (sv', w')" using Cons.prems(3) pe by simp
  ultimately have "stop_frame (FinishTask e sv1) w1 sv' w'"
    using Cons.prems(1,2) by (intro Cons.IH) (simp_all add: stop_frame_def)
  with f show ?case by (rule stop_frame_trans)
qed

lemma finish_frame: "stop_frame sv w (fold FinishTask es sv) w"
proof (induction es arbitrary: sv)
  case (Cons e es)
  from stop_frame_trans [OF FinishTask_frame(1) Cons.IH] show ?case by simp
qed (simp add: stop_frame_refl)

lemma Stop_closes:
  assumes "Stop env now inflight awaiting sv w = (sv', w')"
  shows "ss_closed (wd_sys w') = ss_closed (wd_sys w) @ (if sv_running sv then open_fds (se_handles (sv_session sv)) else [])"
proof (cases "sv_running sv")
  case False
  with assms show ?thesis by (simp add: Stop_def)
next
  case True
  let ?sv1 = "sv\<lparr>sv_running := False\<rparr>"
  let ?sv2 = "?sv1\<lparr>sv_responseWriterRunning := False\<rparr>" and ?w1 = "MarkSessionBroken ?sv1 w"
  obtain sv3 w2 where srw: "StopResponseWriter ?sv2 ?w1 = (sv3, w2)" by (meson surj_pair)
  let ?sv3 = "fold FinishTask awaiting sv3"
  let ?h = "se_handles (sv_session ?sv3)"
  let ?w3 = "signal_if_open (bh_normalReqEventFd ?h) (signal_if_open (bh_highReqEventFd ?h) w2)"
  let ?tasks = "inflight @ executor_queue HighRequest ?sv3 @ executor_queue NormalRequest ?sv3"
  let ?sv4 = "?sv3\<lparr>sv_highExecutor := None, sv_normalExecutor := None\<rparr>"
  obtain sv5 w5 where rt: "run_tasks now ?tasks ?sv4 ?w3 = (sv5, w5)" by (meson surj_pair)
  have broken: "State (sv_session ?sv2) (wd_sys ?w1) \<noteq> SessionAlive"
    using MarkSessionBroken_State [of ?sv1] by simp
  have f: "stop_frame ?sv2 ?w1 sv3 w2" "stop_frame sv3 w2 ?sv3 w2"
    using StopResponseWriter_frame [OF srw broken] finish_frame by simp_all
  then have "stop_frame ?sv4 ?w3 sv5 w5"
    using run_tasks_frame [OF _ _ rt] broken by (simp add: stop_frame_def)
  with f have "sv_session sv5 = sv_session sv" "ss_closed (wd_sys w5) = ss_closed (wd_sys w)"
    using MarkSessionBroken_logs [of w ?sv1] by (simp_all add: stop_frame_def logs_kept_def)
  moreover have "w' = w5\<lparr>wd_sys := snd (Reset env (sv_session sv5) (wd_sys w5))\<rparr>"
    using assms True rt by (auto simp: Stop_def Let_def srw executor_queue_def split: prod.splits)
  ultimately show ?thesis using True by (simp add: Reset_closes)
qed

lemma Start_owns:
  assumes "abi_ok a" "Start a env sv w = (st, sv', w')" "sv_handlers sv \<noteq> []" "\<not> sv_running sv" "sv_session sv = default_Session"
  shows "if st = Ok then sv_running sv' \<and> se_handles (sv_session sv') = sv_handles sv \<and> ss_closed (wd_sys w') = ss_closed (wd_sys w)
    else \<not> sv_running sv' \<and> ss_closed (wd_sys w') = ss_closed (wd_sys w) @ open_fds (sv_handles sv)"
proof -
  let ?h = "sv_handles sv" and ?s = "wd_sys w"
  have given: "given_handles (Some ?h) = ?h" "reset_state env default_Session ?s = ?s"
    by (simp_all add: given_handles_def default_reset_state)
  show ?thesis
  proof (cases "attach_status a env ?h ?s = Ok")
    case True
    from Attach_adopt [OF assms(1), of env "Some ?h" default_Session ?s ServerRole, unfolded given, OF True] show ?thesis
      using assms(2-5) by (auto simp: Start_def Let_def attached_session_def sys_mmap_def)
  next
    case False
    from Attach_fail [OF assms(1), of env "Some ?h" default_Session ?s ServerRole, unfolded given, OF False] show ?thesis
      using assms(2-5) False by (auto simp: Start_def Let_def CloseHandles_log)
  qed
qed

section \<open>Concurrent calls of the session service\<close>

text \<open>Calls run in several threads: each locked part is one step, and a close in progress holds the server and the host it took out of the
  service.  While the server runs, its threads and the client change its state and the shared memory, not its session and not
  the descriptors.  \<open>sth_out\<close> are the descriptors given to callers.\<close>

datatype Closer =
  NoCloser | MarkedClosing "Server option" "Host option" | ServerStopped "Host option" | HostClosed

record ServiceThreads =
  sth_service :: EngineSession
  sth_world :: EngineWorld
  sth_closer :: Closer
  sth_out :: "int list"

inductive service_step :: "abi \<Rightarrow> ServiceThreads \<Rightarrow> ServiceThreads \<Rightarrow> bool" for a where
  ensure: "ee_abi env = a \<Longrightarrow> registrations e (es_registrars (sth_service s)) \<noteq> [] \<Longrightarrow>
    EnsureServiceInitialized env e (sth_service s) (sth_world s) = (st, es, ew) \<Longrightarrow>
    service_step a s (s\<lparr>sth_service := es, sth_world := ew\<rparr>)"
| open_locked: "OpenLocked a MakeDefaultBootstrapHandles (sth_service s) (sth_world s) = (st, handles, es, ew) \<Longrightarrow>
    service_step a s (s\<lparr>sth_service := es, sth_world := ew, sth_out := sth_out s @ open_fds handles\<rparr>)"
| serve: "es_server (sth_service s) = Some sv \<Longrightarrow> sv_session sv' = sv_session sv \<Longrightarrow> sv_running sv' = sv_running sv \<Longrightarrow>
    ss_closed (wd_sys w) = ss_closed (wd_sys (ew_world (sth_world s))) \<Longrightarrow>
    service_step a s (s\<lparr>sth_service := (sth_service s)\<lparr>es_server := Some sv'\<rparr>, sth_world := from_world (sth_world s) w\<rparr>)"
| close_mark: "CloseMark (sth_service s) = (Some (server, host), es) \<Longrightarrow>
    service_step a s (s\<lparr>sth_service := es, sth_closer := MarkedClosing server host\<rparr>)"
| close_stop: "sth_closer s = MarkedClosing server host \<Longrightarrow>
    service_step a s (s\<lparr>sth_world := CloseStop env server (sth_world s), sth_closer := ServerStopped host\<rparr>)"
| close_host: "sth_closer s = ServerStopped host \<Longrightarrow>
    service_step a s (s\<lparr>sth_world := CloseHost host (sth_world s), sth_closer := HostClosed\<rparr>)"
| close_finish: "sth_closer s = HostClosed \<Longrightarrow>
    service_step a s (s\<lparr>sth_service := CloseFinish (sth_service s), sth_closer := NoCloser\<rparr>)"

inductive service_reachable :: "abi \<Rightarrow> int multiset \<Rightarrow> ServiceThreads \<Rightarrow> bool" for a B where
  created: "service_reachable a B \<lparr>sth_service = new_EngineSession registrars None, sth_world = ew, sth_closer = NoCloser, sth_out = []\<rparr>"
  if "opened (ew_sys ew) = B"
| steps: "service_reachable a B s \<Longrightarrow> service_step a s s' \<Longrightarrow> service_reachable a B s'"

definition host_fds :: "Host option \<Rightarrow> int multiset" where
  "host_fds host = (case host of None \<Rightarrow> {#} | Some h \<Rightarrow> fdm (ho_handles h))"

definition server_fds :: "Server option \<Rightarrow> int multiset" where
  "server_fds server = (case server of None \<Rightarrow> {#} | Some sv \<Rightarrow> mset (open_fds (se_handles (sv_session sv))))"

fun closer_fds :: "Closer \<Rightarrow> int multiset" where
  "closer_fds NoCloser = {#}"
| "closer_fds (MarkedClosing server host) = server_fds server + host_fds host"
| "closer_fds (ServerStopped host) = host_fds host"
| "closer_fds HostClosed = {#}"

fun closer_ok :: "Closer \<Rightarrow> bool" where
  "closer_ok (MarkedClosing server host) \<longleftrightarrow> pred_option sv_running server \<and> pred_option host_ok host"
| "closer_ok (ServerStopped host) \<longleftrightarrow> pred_option host_ok host"
| "closer_ok c \<longleftrightarrow> True"

definition service_ok :: "EngineSession \<Rightarrow> bool" where
  "service_ok es \<longleftrightarrow> pred_option host_ok (es_host es) \<and> pred_option sv_running (es_server es) \<and>
     (es_initialized es \<longleftrightarrow> es_server es \<noteq> None) \<and> (es_initialized es \<longrightarrow> es_host es \<noteq> None) \<and>
     (es_closing es \<longrightarrow> es_host es = None \<and> es_server es = None)"

definition service_inv :: "int multiset \<Rightarrow> ServiceThreads \<Rightarrow> bool" where
  "service_inv B s \<longleftrightarrow> service_ok (sth_service s) \<and> closer_ok (sth_closer s) \<and>
     (es_closing (sth_service s) \<longleftrightarrow> sth_closer s \<noteq> NoCloser) \<and>
     opened (ew_sys (sth_world s)) = B + host_fds (es_host (sth_service s)) + server_fds (es_server (sth_service s)) +
       closer_fds (sth_closer s) + mset (sth_out s)"

lemma no_fds [simp]: "host_fds None = {#}" "server_fds None = {#}"
  by (simp_all add: host_fds_def server_fds_def)

lemma mset_fold_remove1: "mset (fold remove1 xs ys) = mset ys - mset xs"
  by (induction xs arbitrary: ys) simp_all

lemma opened_from_world:
  "ss_closed (wd_sys w) = ss_closed (wd_sys (ew_world ew)) @ fds \<Longrightarrow> opened (ew_sys (from_world ew w)) = opened (ew_sys ew) - mset fds"
  by (simp add: from_world_def mset_fold_remove1)

lemma to_world_closed [simp]: "ss_closed (wd_sys (to_world ew)) = ss_closed (wd_sys (ew_world ew))"
  by (simp add: to_world_def)

lemma CloseStop_opened:
  assumes "opened (ew_sys ew) = B + server_fds server" "pred_option sv_running server"
  shows "opened (ew_sys (CloseStop env server ew)) = B"
proof (cases server)
  case None
  with assms show ?thesis by (simp add: CloseStop_def server_fds_def)
next
  case (Some sv)
  obtain sv' w' where st: "Stop (ee_lock env) (ee_now env) (ee_inflight env) (ee_awaiting env) sv (to_world ew) = (sv', w')"
    by (meson surj_pair)
  from opened_from_world [of w' ew "open_fds (se_handles (sv_session sv))"] Stop_closes [OF st] assms Some show ?thesis
    by (simp add: CloseStop_def st server_fds_def)
qed

lemma CloseHost_opened:
  assumes "opened (ew_sys ew) = B + host_fds host"
  shows "opened (ew_sys (CloseHost host ew)) = B"
proof (cases host)
  case None
  with assms show ?thesis by (simp add: CloseHost_def host_fds_def)
next
  case (Some h)
  obtain h1 w1 where "ResetHandles h (ew_sys ew) = (h1, w1)" by (meson surj_pair)
  with ResetHandles_opened [OF this, of B] assms Some show ?thesis
    by (simp add: CloseHost_def host_fds_def HostCloseSession_def)
qed

lemma OpenLocked_inv:
  assumes "OpenLocked a MakeDefaultBootstrapHandles es ew = (st, handles, es', ew')" "service_ok es"
    "opened (ew_sys ew) = B + host_fds (es_host es)"
  shows "service_ok es' \<and> opened (ew_sys ew') = B + host_fds (es_host es') + mset (open_fds handles) \<and>
    es_server es' = es_server es \<and> es_closing es' = es_closing es"
proof (cases "es_host es")
  case None
  with assms show ?thesis by (auto simp: OpenLocked_def host_fds_def)
next
  case (Some h)
  have "host_acc B (h, ew_sys ew, [])" using assms Some by (simp add: host_acc_def service_ok_def host_fds_def)
  from host_op_acc [OF this, of a OpOpenSession] show ?thesis
    using assms(1,2) Some
    by (auto simp: OpenLocked_def host_acc_def host_fds_def service_ok_def StartEventPublisherLocked_def Let_def
        split: prod.splits if_splits)
qed

lemma registered_nonempty: "rs \<noteq> [] \<Longrightarrow> sv_handlers (register_to_server rs sv) \<noteq> []"
proof -
  assume "rs \<noteq> []"
  then obtain op h rs' where "rev rs = (op, h) # rs'" by (cases "rev rs") auto
  then have "map_of (sv_handlers (register_to_server rs sv)) op = Some (returning h)"
    by (simp add: registered_handler)
  then show ?thesis by auto
qed

lemma register_to_server_frame:
  "sv_session (register_to_server rs sv) = sv_session sv \<and> sv_running (register_to_server rs sv) = sv_running sv \<and>
   sv_handles (register_to_server rs sv) = sv_handles sv \<and> sv_options (register_to_server rs sv) = sv_options sv"
proof (induction rs arbitrary: sv)
  case (Cons r rs)
  then show ?case by (cases r) (simp add: register_to_server_def RegisterHandler_def)
qed (simp add: register_to_server_def)

lemma StartServer_inv:
  assumes "abi_ok (ee_abi env)" "registrations e (es_registrars es) \<noteq> []" "StartServer env e h es ew = (st, es', ew')"
    "\<not> es_closing es" "\<not> es_initialized es" "host_ok h" "opened (ew_sys ew) = B + fdm (ho_handles h)"
  shows "service_ok es' \<and> opened (ew_sys ew') = B + host_fds (es_host es') + server_fds (es_server es') \<and> \<not> es_closing es'"
proof -
  obtain hs s2 where sh: "serverHandles h (ew_sys ew) = (hs, s2)" by (meson surj_pair)
  have s2: "opened s2 = B + fdm (ho_handles h) + fdm hs"
    using sh assms(7) DuplicateHandles_opened(1) [of "ho_handles h" "ew_sys ew"]
    by (auto simp: serverHandles_def fdm_def split: if_splits prod.splits)
  let ?ew = "ew\<lparr>ew_sys := s2\<rparr>"
  let ?sv = "register_to_server (registrations e (es_registrars es)) (new_RpcServer hs default_ServerOptions)"
  obtain st2 sv w where run: "Start (ee_abi env) (ee_attach env) ?sv (to_world ?ew) = (st2, sv, w)" by (metis prod_cases3)
  have sv0: "sv_handlers ?sv \<noteq> []" "\<not> sv_running ?sv" "sv_session ?sv = default_Session" "sv_handles ?sv = hs"
    using registered_nonempty [OF assms(2)] register_to_server_frame by (simp_all add: new_RpcServer_def)
  note own = Start_owns [OF assms(1) run sv0(1-3)]
  show ?thesis
  proof (cases "st2 = Ok")
    case True
    then have "opened (ew_sys (from_world ?ew w)) = opened s2" using own opened_from_world [of w ?ew "[]"] by simp
    moreover have "es' = es\<lparr>es_host := Some h, es_server := Some sv, es_anyCallHandlers := es_registrars es, es_initialized := True\<rparr>"
      "ew' = from_world ?ew w"
      using assms(3) True by (simp_all add: StartServer_def sh run Let_def)
    ultimately show ?thesis
      using True own sv0 s2 assms(4,6) by (simp add: service_ok_def host_fds_def server_fds_def fdm_def)
  next
    case False
    then have "opened (ew_sys (from_world ?ew w)) = B + host_fds (Some h)"
      using own opened_from_world [of w ?ew "open_fds hs"] sv0 s2 by (simp add: host_fds_def fdm_def)
    from CloseHost_opened [OF this] False assms(3-5) show ?thesis
      by (auto simp: StartServer_def sh run Let_def CloseHost_def service_ok_def host_fds_def server_fds_def)
  qed
qed

lemma EnsureServiceInitialized_skip:
  "es_closing es \<or> es_initialized es \<Longrightarrow>
     EnsureServiceInitialized env e es ew = (if es_closing es then PeerDisconnected else Ok, es, ew)"
  by (auto simp: EnsureServiceInitialized_def)

lemma EnsureServiceInitialized_inv:
  assumes "abi_ok (ee_abi env)" "registrations e (es_registrars es) \<noteq> []"
    "EnsureServiceInitialized env e es ew = (st, es', ew')" "service_ok es"
    "opened (ew_sys ew) = B + host_fds (es_host es) + server_fds (es_server es)"
  shows "service_ok es' \<and> opened (ew_sys ew') = B + host_fds (es_host es') + server_fds (es_server es') \<and>
    es_closing es' = es_closing es"
proof (cases "es_closing es \<or> es_initialized es")
  case True
  with assms(3-5) show ?thesis by (simp add: EnsureServiceInitialized_skip)
next
  case False
  define host where "host = (case es_host es of None \<Rightarrow> MkHost default_config | Some h \<Rightarrow> h)"
  obtain st1 h1 s1 where en: "EnsureSession (ee_abi env) host (ew_sys ew) = (st1, h1, s1)" by (metis prod_cases3)
  have none: "es_server es = None" using assms(4) False by (simp add: service_ok_def)
  have h: "host_ok host" "opened (ew_sys ew) = B + fdm (ho_handles host)"
    using assms(4,5) none
    by (auto simp: host_def service_ok_def host_fds_def server_fds_def host_ok_def MkHost_def split: option.splits)
  have e: "opened s1 = B + fdm (ho_handles h1)" "host_ok h1"
    using EnsureInitialized_opened [OF en [unfolded EnsureSession_def] h] by simp_all
  have run: "EnsureServiceInitialized env e es ew =
      (if st1 \<noteq> Ok then (st1, es\<lparr>es_host := Some h1\<rparr>, ew\<lparr>ew_sys := s1\<rparr>)
       else StartServer env e h1 (es\<lparr>es_host := Some h1\<rparr>) (ew\<lparr>ew_sys := s1\<rparr>))"
    using False by (simp add: EnsureServiceInitialized_def host_def [symmetric] en)
  show ?thesis
  proof (cases "st1 = Ok")
    case True
    with StartServer_inv [of env e "es\<lparr>es_host := Some h1\<rparr>" h1 "ew\<lparr>ew_sys := s1\<rparr>" st es' ew' B] run assms(1-3) False e
    show ?thesis by simp
  next
    case f: False
    with run assms(3,4) False none e show ?thesis
      by (auto simp: service_ok_def host_fds_def server_fds_def)
  qed
qed

lemma CloseMark_inv:
  assumes "CloseMark es = (Some (server, host), es')" "service_ok es"
  shows "server = es_server es \<and> host = es_host es \<and> es_host es' = None \<and> es_server es' = None \<and> es_closing es' \<and>
    service_ok es' \<and> pred_option sv_running server \<and> pred_option host_ok host \<and> \<not> es_closing es"
  using assms by (auto simp: CloseMark_def service_ok_def split: if_splits)

lemma service_step_inv:
  assumes "abi_ok a" "service_step a s s'" "service_inv B s"
  shows "service_inv B s'"
  using assms(2,3)
proof (cases rule: service_step.cases)
  case (ensure env e st es ew)
  have "opened (ew_sys (sth_world s)) = (B + closer_fds (sth_closer s) + mset (sth_out s)) +
      host_fds (es_host (sth_service s)) + server_fds (es_server (sth_service s))"
    using assms(3) by (simp add: service_inv_def add_ac)
  from EnsureServiceInitialized_inv [OF _ ensure(3,4) _ this] assms(1,3) ensure show ?thesis
    by (simp add: service_inv_def add_ac)
next
  case (open_locked st handles es ew)
  have "opened (ew_sys (sth_world s)) = (B + closer_fds (sth_closer s) + mset (sth_out s) +
      server_fds (es_server (sth_service s))) + host_fds (es_host (sth_service s))"
    using assms(3) by (simp add: service_inv_def add_ac)
  from OpenLocked_inv [OF open_locked(2) _ this] assms(3) open_locked show ?thesis
    by (simp add: service_inv_def add_ac)
next
  case (serve sv sv' w)
  have "opened (ew_sys (from_world (sth_world s) w)) = opened (ew_sys (sth_world s))"
    using serve(5) opened_from_world [of w "sth_world s" "[]"] by simp
  with assms(3) serve show ?thesis by (auto simp: service_inv_def service_ok_def server_fds_def)
next
  case (close_mark server host es)
  from CloseMark_inv [OF close_mark(2)] assms(3) close_mark(1) show ?thesis
    by (auto simp: service_inv_def add_ac)
next
  case (close_stop server host env)
  have "opened (ew_sys (sth_world s)) = (B + host_fds (es_host (sth_service s)) + server_fds (es_server (sth_service s)) +
      host_fds host + mset (sth_out s)) + server_fds server" "pred_option sv_running server"
    using assms(3) close_stop by (simp_all add: service_inv_def add_ac)
  from CloseStop_opened [OF this] assms(3) close_stop show ?thesis by (simp add: service_inv_def add_ac)
next
  case (close_host host)
  have "opened (ew_sys (sth_world s)) = (B + host_fds (es_host (sth_service s)) + server_fds (es_server (sth_service s)) +
      mset (sth_out s)) + host_fds host"
    using assms(3) close_host by (simp add: service_inv_def add_ac)
  from CloseHost_opened [OF this] assms(3) close_host show ?thesis by (simp add: service_inv_def add_ac)
next
  case close_finish
  with assms(3) show ?thesis by (simp add: service_inv_def CloseFinish_def service_ok_def)
qed

lemma service_reachable_inv: "service_reachable a B s \<Longrightarrow> abi_ok a \<Longrightarrow> service_inv B s"
proof (induction rule: service_reachable.induct)
  case (created ew registrars)
  then show ?case by (simp add: service_inv_def service_ok_def new_EngineSession_def host_fds_def server_fds_def)
next
  case (steps s s')
  then show ?case using service_step_inv by blast
qed

section \<open>What an opened session is connected to\<close>

text \<open>The object that a descriptor names.\<close>

definition object_of :: "int \<Rightarrow> EngineWorld \<Rightarrow> nat" where
  "object_of fd ew = hs_fdobj (ew_sys ew) fd"

lemma StartServer_Ok:
  assumes "abi_ok (ee_abi env)" "StartServer env e h es ew = (Ok, es', ew')" "ho_initialized h" 
    "0 \<le> bh_shmFd (ho_handles h)" "bh_shmFd (ho_handles h) < int (hs_next (ew_sys ew))"
  shows "\<exists>sv hs. es' = es\<lparr>es_host := Some h, es_server := Some sv, es_anyCallHandlers := es_registrars es, es_initialized := True\<rparr> \<and>
    sv_running sv \<and> grows (ew_sys ew) (ew_sys ew') \<and>
    sv_session sv = attached_session (ee_abi env) hs ServerRole (object_of (bh_shmFd (ho_handles h)) ew)
      (hs_objs (ew_sys ew) (object_of (bh_shmFd (ho_handles h)) ew)) \<and>
    sv_handlers sv = sv_handlers (register_to_server (registrations e (es_registrars es)) (new_RpcServer hs default_ServerOptions))"
proof -
  obtain hs s1 where sh: "serverHandles h (ew_sys ew) = (hs, s1)" by (meson surj_pair)
  obtain ok where du: "DuplicateHandles (ho_handles h) (ew_sys ew) = (ok, hs, s1)"
    using sh assms(3) by (auto simp: serverHandles_def split: prod.splits)
  let ?ew = "ew\<lparr>ew_sys := s1\<rparr>" and ?a = "ee_abi env"
  let ?sv = "register_to_server (registrations e (es_registrars es)) (new_RpcServer hs default_ServerOptions)"
  obtain st sv w where run: "Start ?a (ee_attach env) ?sv (to_world ?ew) = (st, sv, w)" by (metis prod_cases3)
  have st: "st = Ok" "es' = es\<lparr>es_host := Some h, es_server := Some sv, es_anyCallHandlers := es_registrars es, es_initialized := True\<rparr>"
    "ew' = from_world ?ew w"
    using assms(2) by (auto simp: StartServer_def sh run Let_def split: if_splits)
  have sv0: "\<not> sv_running ?sv" "sv_session ?sv = default_Session" "sv_handles ?sv = hs"
    using register_to_server_frame by (simp_all add: new_RpcServer_def)
  have nonempty: "sv_handlers ?sv \<noteq> []" using run st(1) by (auto simp: Start_def)
  let ?s = "wd_sys (to_world ?ew)"
  have given: "given_handles (Some hs) = hs" "reset_state (ee_attach env) default_Session ?s = ?s"
    by (simp_all add: given_handles_def default_reset_state)
  have ok: "attach_status ?a (ee_attach env) hs ?s = Ok"
  proof (rule ccontr)
    assume bad: "attach_status ?a (ee_attach env) hs ?s \<noteq> Ok"
    from Attach_fail [OF assms(1), of "ee_attach env" "Some hs" default_Session ?s ServerRole, unfolded given, OF bad] show False
      using run st(1) sv0 nonempty bad by (auto simp: Start_def Let_def)
  qed
  then have shm: "0 \<le> bh_shmFd hs" by (simp add: attach_status_def Let_def split: if_splits)
  have ok1: ok
  proof (rule ccontr)
    assume "\<not> ok"
    from DuplicateHandles_opened(3) [OF du this] shm show False by (simp add: MakeDefaultBootstrapHandles_def)
  qed
  note obj = DuplicateHandles_object [OF du [unfolded eqTrueI [OF ok1]]]
  have "sv_running sv \<and> sv_handlers sv = sv_handlers ?sv \<and> ss_objs (wd_sys w) = hs_objs s1 \<and>
      sv_session sv = attached_session ?a hs ServerRole (hs_fdobj s1 (bh_shmFd hs)) (hs_objs s1 (hs_fdobj s1 (bh_shmFd hs)))"
    using Attach_adopt [OF assms(1), of "ee_attach env" "Some hs" default_Session ?s ServerRole, unfolded given, OF ok] run st(1) sv0 nonempty
    by (auto simp: Start_def Let_def sys_mmap_def to_world_def)
  then show ?thesis
    using obj st by (intro exI [of _ sv] exI [of _ hs]) (auto simp: object_of_def from_world_def Let_def grows_def)
qed

lemma EnsureServiceInitialized_Ok:
  assumes "abi_ok (ee_abi env)" "es_host es = None" "\<not> es_initialized es" "EnsureServiceInitialized env e es ew = (Ok, es', ew')"
  shows "\<exists>h sv hs sid. es' = es\<lparr>es_host := Some h, es_server := Some sv, es_anyCallHandlers := es_registrars es, es_initialized := True\<rparr> \<and>
    ho_initialized h \<and> sv_running sv \<and> 0 \<le> bh_shmFd (ho_handles h) \<and> bh_shmFd (ho_handles h) < int (hs_next (ew_sys ew')) \<and>
    hs_objs (ew_sys ew') (object_of (bh_shmFd (ho_handles h)) ew') = fresh_shm (ee_abi env) (MkHost default_config) sid \<and>
    sv_session sv = attached_session (ee_abi env) hs ServerRole (object_of (bh_shmFd (ho_handles h)) ew')
      (fresh_shm (ee_abi env) (MkHost default_config) sid) \<and>
    sv_handlers sv = sv_handlers (register_to_server (registrations e (es_registrars es)) (new_RpcServer hs default_ServerOptions))"
proof -
  let ?a = "ee_abi env"
  obtain st1 h s1 where en: "EnsureInitialized ?a (MkHost default_config) (ew_sys ew) = (st1, h, s1)" by (metis prod_cases3)
  have run: "st1 = Ok" "StartServer env e h (es\<lparr>es_host := Some h\<rparr>) (ew\<lparr>ew_sys := s1\<rparr>) = (Ok, es', ew')"
    using assms(2-4) by (auto simp: EnsureServiceInitialized_def EnsureSession_def en split: if_splits)
  have "\<not> ho_initialized (MkHost default_config)" by (simp add: MkHost_def)
  note made = EnsureInitialized_creates [OF en [unfolded run(1)] this]
  have "ho_initialized h" using EnsureInitialized_opened [OF en, of "opened (ew_sys ew)"] run(1) by (simp add: host_ok_def MkHost_def)
  with StartServer_Ok [OF assms(1) run(2)] made obtain sv hs where
    "es' = es\<lparr>es_host := Some h, es_server := Some sv, es_anyCallHandlers := es_registrars es, es_initialized := True\<rparr>"
    "sv_running sv" "grows s1 (ew_sys ew')"
    "sv_session sv = attached_session ?a hs ServerRole (hs_fdobj s1 (bh_shmFd (ho_handles h)))
      (hs_objs s1 (hs_fdobj s1 (bh_shmFd (ho_handles h))))"
    "sv_handlers sv = sv_handlers (register_to_server (registrations e (es_registrars es)) (new_RpcServer hs default_ServerOptions))"
    by (auto simp: object_of_def)
  with made \<open>ho_initialized h\<close> show ?thesis
    by (intro exI [of _ h] exI [of _ sv] exI [of _ hs] exI [of _ "sessionId h"]) (auto simp: object_of_def grows_def)
qed

lemma OpenLocked_Ok:
  assumes "OpenLocked a hs0 es ew = (Ok, hs, es', ew')" "es_host es = Some h" "ho_initialized h"
  shows "DuplicateHandles (ho_handles h) (ew_sys ew) = (True, hs, ew_sys ew') \<and> es_sessionId es' = bh_sessionId hs \<and>
    es_server es' = es_server es \<and> ew_world ew' = ew_world ew"
  using assms by (auto simp: OpenLocked_def HostOpenSession_def EnsureInitialized_def StartEventPublisherLocked_def Let_def
      split: prod.splits if_splits)

lemma default_config_ok: "HasValidConfig (MkHost default_config)" "ring_sizes_ok (ho_config (MkHost default_config))"
  by (simp_all add: MkHost_def default_config_def HasValidConfig_def HasAlignedPayloadSizes_def ring_sizes_ok_def
      request_inline_bytes response_inline_bytes DEFAULT_MAX_REQUEST_BYTES_def DEFAULT_MAX_RESPONSE_BYTES_def DEFAULT_RING_SIZE_def
      MAX_RING_ENTRIES_def)

section \<open>Properties of the session service\<close>

text \<open>C16: A session that the service opens connects a client with a running server.  When the first open of a service with the default
  host succeeds, a server runs that is attached to the same shared-memory object as the descriptors handed out name; it has
  the handlers of all registrars, and a client that attaches to those descriptors succeeds (if its system calls do), sees
  the same object with the same limits as the server, and finds all rings empty.\<close>

theorem service_open_connects:
  assumes "abi_ok (ee_abi env)" "es_host es = None" "\<not> es_initialized es"
    "ServiceOpenSession env e MakeDefaultBootstrapHandles es ew = (Ok, handles, es', ew')"
    "ae_fstat1 cenv" "ae_mmap1 cenv" "ae_fstat2 cenv" "ae_mmap2 cenv" "LockSharedMutex (ae_lock cenv) = Ok"
  shows "\<exists>sv se s'. es_server es' = Some sv \<and> sv_running sv \<and> es_sessionId es' = bh_sessionId handles \<and>
    (\<forall>opcode. map_of (sv_handlers sv) opcode = map_option returning (map_of (rev (registrations e (es_registrars es))) opcode)) \<and>
    Attach (ee_abi env) cenv (Some handles) ClientRole default_Session (wd_sys (to_world ew')) =
      (Ok, Some MakeDefaultBootstrapHandles, se, s') \<and>
    se_obj se = se_obj (sv_session sv) \<and> se_layout se = se_layout (sv_session sv) \<and>
    se_maxRequestBytes se = se_maxRequestBytes (sv_session sv) \<and> se_maxResponseBytes se = se_maxResponseBytes (sv_session sv) \<and>
    (\<forall>q. ring_contents (request_ring q (ss_objs s' (se_obj se))) = []) \<and>
    ring_contents (response_ring (ss_objs s' (se_obj se))) = []"
proof -
  let ?a = "ee_abi env"
  obtain st es1 ew1 where en: "EnsureServiceInitialized env e es ew = (st, es1, ew1)" by (metis prod_cases3)
  have st: "st = Ok" "OpenLocked ?a MakeDefaultBootstrapHandles es1 ew1 = (Ok, handles, es', ew')"
    using assms(4) by (auto simp: ServiceOpenSession_def en split: if_splits)
  obtain h sv hs sid where r: "es1 = es\<lparr>es_host := Some h, es_server := Some sv, es_anyCallHandlers := es_registrars es, es_initialized := True\<rparr>"
    "ho_initialized h" "sv_running sv" "bh_shmFd (ho_handles h) < int (hs_next (ew_sys ew1))"
    "hs_objs (ew_sys ew1) (object_of (bh_shmFd (ho_handles h)) ew1) = fresh_shm ?a (MkHost default_config) sid"
    "sv_session sv = attached_session ?a hs ServerRole (object_of (bh_shmFd (ho_handles h)) ew1) (fresh_shm ?a (MkHost default_config) sid)"
    "sv_handlers sv = sv_handlers (register_to_server (registrations e (es_registrars es)) (new_RpcServer hs default_ServerOptions))"
    using EnsureServiceInitialized_Ok [OF assms(1-3) en [unfolded st(1)]] by blast
  note op = OpenLocked_Ok [OF st(2) _ r(2)]
  note du = DuplicateHandles_object [OF op [THEN conjunct1]]
  let ?s = "wd_sys (to_world ew')"
  have obj: "ss_fdobj ?s (bh_shmFd handles) = object_of (bh_shmFd (ho_handles h)) ew1"
    "ss_objs ?s (ss_fdobj ?s (bh_shmFd handles)) = fresh_shm ?a (MkHost default_config) sid"
    using du(1,2) r(1,5) by (simp_all add: to_world_def object_of_def grows_def)
  have handlers: "map_of (sv_handlers sv) opcode = map_option returning (map_of (rev (registrations e (es_registrars es))) opcode)" for opcode
    by (simp add: r(7) registered_handler new_RpcServer_def split: option.split)
  from fresh_attach [OF assms(1) default_config_ok _ obj(2) assms(5-9), of ClientRole] du(4) r obj op handlers show ?thesis
    by (auto simp: attached_session_def Let_def)
qed

section \<open>Opening succeeds when the system calls do\<close>

lemma dup_fields_works:
  "hs_fds w = [] \<Longrightarrow> \<forall>fd \<in> set fds. 0 \<le> fd \<Longrightarrow>
     \<exists>l w'. dup_fields fds ds w = (Some (ds @ l), w') \<and> length l = length fds \<and> hs_fds w' = []"
proof (induction fds arbitrary: ds w)
  case (Cons fd fds)
  obtain w1 where dup: "sys_dup fd w = (int (hs_next w), w1)" "hs_fds w1 = []"
    using Cons.prems by (simp add: sys_dup_def next_fd_outcome_def alloc_fd_def Let_def)
  obtain l w' where l: "dup_fields fds (ds @ [int (hs_next w)]) w1 = (Some ((ds @ [int (hs_next w)]) @ l), w')"
    "length l = length fds" "hs_fds w' = []"
    using Cons.IH [OF dup(2), of "ds @ [int (hs_next w)]"] Cons.prems(2) by auto
  then have "dup_fields (fd # fds) ds w = (Some (ds @ int (hs_next w) # l), w')" by (simp add: dup(1))
  with l(2,3) show ?case by (intro exI [of _ "int (hs_next w) # l"] exI [of _ w']) simp
qed simp

lemma DuplicateHandles_works:
  assumes "hs_fds w = []" "\<forall>fd \<in> set (handle_fds h). 0 \<le> fd"
  shows "\<exists>h' w'. DuplicateHandles h w = (True, h', w') \<and> hs_fds w' = []"
proof -
  obtain l w' where l: "dup_fields (handle_fds h) [] w = (Some l, w')" "length l = 6" "hs_fds w' = []"
    using dup_fields_works [OF assms, of "[]"] by (auto simp: handle_fds_def)
  from length_six [OF l(2)] l(1,3) show ?thesis by (auto simp: DuplicateHandles_def)
qed

lemma service_opens:
  assumes "abi_ok (ee_abi env)" "EnsureInitialized (ee_abi env) (MkHost default_config) (ew_sys ew) = (Ok, h, s1)" "hs_fds s1 = []"
    "es_host es = None" "\<not> es_initialized es" "\<not> es_closing es" "registrations e (es_registrars es) \<noteq> []"
    "ae_fstat1 (ee_attach env)" "ae_mmap1 (ee_attach env)" "ae_fstat2 (ee_attach env)" "ae_mmap2 (ee_attach env)"
    "LockSharedMutex (ae_lock (ee_attach env)) = Ok"
  shows "\<exists>hs es' ew'. ServiceOpenSession env e hs0 es ew = (Ok, hs, es', ew')"
proof -
  let ?a = "ee_abi env"
  have new: "\<not> ho_initialized (MkHost default_config)" by (simp add: MkHost_def)
  note made = EnsureInitialized_creates [OF assms(2) new]
  have h: "ho_initialized h" "\<forall>fd \<in> set (handle_fds (ho_handles h)). 0 \<le> fd"
    using EnsureInitialized_opened [OF assms(2), of "opened (ew_sys ew)"] by (auto simp: host_ok_def MkHost_def split: if_splits)
  obtain hs s2 where du: "DuplicateHandles (ho_handles h) s1 = (True, hs, s2)" "hs_fds s2 = []"
    using DuplicateHandles_works [OF assms(3) h(2)] by blast
  note obj = DuplicateHandles_object [OF du(1)]
  let ?ew = "ew\<lparr>ew_sys := s2\<rparr>" and ?es = "es\<lparr>es_host := Some h\<rparr>"
  let ?sv = "register_to_server (registrations e (es_registrars es)) (new_RpcServer hs default_ServerOptions)"
  let ?s = "wd_sys (to_world ?ew)"
  have "ss_objs ?s (ss_fdobj ?s (bh_shmFd hs)) = fresh_shm ?a (MkHost default_config) (sessionId h)"
    using made obj by (simp add: to_world_def grows_def)
  from fresh_attach [OF assms(1) default_config_ok obj(4) this assms(8-12), of ServerRole]
  obtain se s' where at: "Attach ?a (ee_attach env) (Some hs) ServerRole default_Session ?s = (Ok, Some MakeDefaultBootstrapHandles, se, s')"
    by blast
  obtain sv w where run: "Start ?a (ee_attach env) ?sv (to_world ?ew) = (Ok, sv, w)"
    using at registered_nonempty [OF assms(7)] register_to_server_frame [of "registrations e (es_registrars es)"]
    by (simp add: Start_def new_RpcServer_def Let_def)
  let ?ew2 = "from_world ?ew w"
  have "hs_fds (ew_sys ?ew2) = []" using du(2) by (simp add: from_world_def Let_def)
  then obtain hs2 s3 where du2: "DuplicateHandles (ho_handles h) (ew_sys ?ew2) = (True, hs2, s3)"
    using DuplicateHandles_works [OF _ h(2)] by blast
  have "EnsureServiceInitialized env e es ew = (Ok, es\<lparr>es_host := Some h, es_server := Some sv,
      es_anyCallHandlers := es_registrars es, es_initialized := True\<rparr>, ?ew2)"
    using assms(4-6) run h(1)
    by (simp add: EnsureServiceInitialized_def EnsureSession_def assms(2) StartServer_def serverHandles_def du(1) Let_def)
  then show ?thesis
    using h(1) du2 by (simp add: ServiceOpenSession_def OpenLocked_def HostOpenSession_def EnsureInitialized_def Let_def)
qed

definition demo_engine_env :: EngineEnv where
  "demo_engine_env = \<lparr>ee_abi = lp64_abi, ee_attach = demo_env, ee_lock = demo_lock, ee_now = 0, ee_inflight = [], ee_awaiting = []\<rparr>"

definition demo_engine_world :: EngineWorld where
  "demo_engine_world = \<lparr>ew_sys = demo_hostsys, ew_world = demo_world\<rparr>"

definition demo_service :: EngineSession where
  "demo_service = new_EngineSession [EngineRegisterHandlers, \<lambda>e. RegisterCoreHandlers] None"

lemma demo_registrations: "registrations e (es_registrars demo_service) = EngineRegisterHandlers e @ RegisterCoreHandlers"
  by (simp add: demo_service_def new_EngineSession_def registrations_def)

lemma demo_service_opens: "\<exists>hs es' ew'. ServiceOpenSession demo_engine_env e hs0 demo_service demo_engine_world = (Ok, hs, es', ew')"
proof -
  obtain st h s1 where en: "EnsureInitialized lp64_abi (MkHost default_config) demo_hostsys = (st, h, s1)" by (metis prod_cases3)
  have "st = Ok" "hs_fds s1 = []"
    using en by (auto simp: host_eval default_config_def DEFAULT_RING_SIZE_def)
  with en show ?thesis
    by (intro service_opens)
      (simp_all add: demo_engine_env_def demo_engine_world_def demo_registrations EngineRegisterHandlers_def lp64_ok demo_env_def demo_lock_def
        LockSharedMutex_def, simp_all add: demo_service_def new_EngineSession_def)
qed

theorem service_open_connects_witness:
  "\<exists>handles es' ew' sv se s'.
     ServiceOpenSession demo_engine_env new_VesEngine MakeDefaultBootstrapHandles demo_service demo_engine_world = (Ok, handles, es', ew') \<and>
     es_server es' = Some sv \<and> Attach lp64_abi demo_env (Some handles) ClientRole default_Session (wd_sys (to_world ew')) =
       (Ok, Some MakeDefaultBootstrapHandles, se, s') \<and> se_obj se = se_obj (sv_session sv)"
proof -
  obtain handles es' ew' where run:
    "ServiceOpenSession demo_engine_env new_VesEngine MakeDefaultBootstrapHandles demo_service demo_engine_world = (Ok, handles, es', ew')"
    using demo_service_opens by blast
  have "abi_ok (ee_abi demo_engine_env)" "es_host demo_service = None" "\<not> es_initialized demo_service"
    by (simp_all add: demo_engine_env_def lp64_ok demo_service_def new_EngineSession_def)
  moreover have "ae_fstat1 demo_env" "ae_mmap1 demo_env" "ae_fstat2 demo_env" "ae_mmap2 demo_env" "LockSharedMutex (ae_lock demo_env) = Ok"
    by (simp_all add: demo_env_def demo_lock_def LockSharedMutex_def)
  ultimately show ?thesis
    using service_open_connects [OF _ _ _ run, of demo_env] run by (auto simp: demo_engine_env_def)
qed

lemma service_inv_close:
  assumes "service_inv B s" "es_initialized (sth_service s)"
  shows "opened (ew_sys (snd (snd (ServiceCloseSession env (sth_service s) (sth_world s))))) = B + mset (sth_out s)"
proof -
  let ?es = "sth_service s"
  have open': "\<not> es_closing ?es" "sth_closer s = NoCloser" using assms by (auto simp: service_inv_def service_ok_def)
  then have "opened (ew_sys (sth_world s)) = (B + mset (sth_out s) + host_fds (es_host ?es)) + server_fds (es_server ?es)"
    "pred_option sv_running (es_server ?es)"
    using assms(1) by (simp_all add: service_inv_def service_ok_def add_ac)
  from CloseHost_opened [OF CloseStop_opened [OF this]] assms(2) open'(1) show ?thesis
    by (simp add: ServiceCloseSession_def CloseMark_def)
qed

text \<open>C18: The session service owns every descriptor it creates until it closes it or hands it out.  Whatever the calls of several
  threads and the outcomes of the system calls: the open descriptors of the process are those from before, those of the
  host, those of the server's session, those of a close in progress, and those given to callers; while a close is in
  progress the service has neither host nor server, so no second session comes up beside the one that goes down; and closing the
  session releases everything but what was handed out.  At least one handler must be registered.\<close>

theorem service_descriptors_balanced:
  assumes "abi_ok a" "service_reachable a B s"
  shows "opened (ew_sys (sth_world s)) = B + host_fds (es_host (sth_service s)) + server_fds (es_server (sth_service s)) +
      closer_fds (sth_closer s) + mset (sth_out s) \<and>
    (sth_closer s \<noteq> NoCloser \<longrightarrow> es_host (sth_service s) = None \<and> es_server (sth_service s) = None) \<and>
    (es_initialized (sth_service s) \<longrightarrow>
      opened (ew_sys (snd (snd (ServiceCloseSession env (sth_service s) (sth_world s))))) = B + mset (sth_out s))"
proof -
  note inv = service_reachable_inv [OF assms(2,1)]
  then show ?thesis using service_inv_close [OF inv] by (auto simp: service_inv_def service_ok_def)
qed

theorem service_descriptors_balanced_witness:
  "\<exists>s. service_reachable lp64_abi {#0, 1, 2#} s \<and> es_initialized (sth_service s) \<and>
     opened (ew_sys (snd (snd (ServiceCloseSession demo_engine_env (sth_service s) (sth_world s))))) = {#0, 1, 2#} + mset (sth_out s)"
proof -
  obtain hs es' ew' where run:
    "ServiceOpenSession demo_engine_env new_VesEngine MakeDefaultBootstrapHandles demo_service demo_engine_world = (Ok, hs, es', ew')"
    using demo_service_opens by blast
  have abi: "ee_abi demo_engine_env = lp64_abi" by (simp add: demo_engine_env_def)
  obtain st es1 ew1 where en: "EnsureServiceInitialized demo_engine_env new_VesEngine demo_service demo_engine_world = (st, es1, ew1)"
    by (metis prod_cases3)
  have st: "st = Ok" "OpenLocked lp64_abi MakeDefaultBootstrapHandles es1 ew1 = (Ok, hs, es', ew')"
    using run by (auto simp: ServiceOpenSession_def en abi split: if_splits)
  have "opened (ew_sys demo_engine_world) = {#0, 1, 2#}" by (simp add: demo_engine_world_def demo_hostsys_def)
  note s0 = service_reachable.created [OF this, of lp64_abi "[EngineRegisterHandlers, \<lambda>e. RegisterCoreHandlers]", folded demo_service_def]
  from service_reachable.steps [OF s0 service_step.ensure [OF abi, of new_VesEngine]] en
  have s1: "service_reachable lp64_abi {#0, 1, 2#} \<lparr>sth_service = es1, sth_world = ew1, sth_closer = NoCloser, sth_out = []\<rparr>"
    by (simp add: demo_registrations EngineRegisterHandlers_def)
  from service_reachable.steps [OF this service_step.open_locked] st(2)
  have s2: "service_reachable lp64_abi {#0, 1, 2#} \<lparr>sth_service = es', sth_world = ew', sth_closer = NoCloser, sth_out = open_fds hs\<rparr>"
    by simp
  have "abi_ok (ee_abi demo_engine_env)" "es_host demo_service = None" "\<not> es_initialized demo_service"
    by (simp_all add: demo_engine_env_def lp64_ok demo_service_def new_EngineSession_def)
  from EnsureServiceInitialized_Ok [OF this en [unfolded st(1)]] obtain h sv where "es_host es1 = Some h" "es_initialized es1" by auto
  then have "es_initialized es'" using st(2)
    by (auto simp: OpenLocked_def StartEventPublisherLocked_def Let_def split: prod.splits if_splits)
  with service_descriptors_balanced [OF lp64_ok s2, of demo_engine_env] s2 show ?thesis by auto
qed

text \<open>Without a handler the server does not start, and the descriptors duplicated for it stay open.\<close>

lemma StartServer_without_handlers:
  assumes "registrations e (es_registrars es) = []" "serverHandles h (ew_sys ew) = (hs, s1)" "opened (ew_sys ew) = B + fdm (ho_handles h)"
    "ho_initialized h"
  shows "fst (StartServer env e h es ew) = InvalidArgument \<and> opened (ew_sys (snd (snd (StartServer env e h es ew)))) = B + fdm hs"
proof -
  have s1: "opened s1 = B + fdm hs + host_fds (Some h)"
    using assms(2-4) DuplicateHandles_opened(1) [of "ho_handles h" "ew_sys ew"]
    by (auto simp: serverHandles_def fdm_def host_fds_def split: prod.splits)
  let ?ew = "ew\<lparr>ew_sys := s1\<rparr>"
  have start: "Start (ee_abi env) (ee_attach env) (register_to_server [] (new_RpcServer hs default_ServerOptions)) (to_world ?ew) =
      (InvalidArgument, new_RpcServer hs default_ServerOptions, to_world ?ew)"
    by (simp add: register_to_server_def Start_def new_RpcServer_def)
  have "opened (ew_sys (from_world ?ew (to_world ?ew))) = B + fdm hs + host_fds (Some h)"
    using opened_from_world [of "to_world ?ew" ?ew "[]"] s1 by simp
  from CloseHost_opened [OF this] show ?thesis
    by (simp add: StartServer_def assms(1,2) start Let_def CloseHost_def)
qed

end
