(* ===== verification/Ves_Socket.thy ===== *)
theory Ves_Socket
  imports Ves_Session
begin

text \<open>
  The stream sockets of the control path: the loops \<^verbatim>\<open>SendAll\<close> and \<^verbatim>\<open>RecvAll\<close> of \<^verbatim>\<open>ves_control_proxy.cpp\<close> and
  \<^verbatim>\<open>mock_service_socket.cpp\<close>, and the framing of a request (command byte, size, payload) and of a reply (size, payload).  A
  stream is a list of chunks, so that the lemmas hold however the kernel cuts the bytes.
\<close>

section \<open>Stream sockets\<close>

text \<open>
  The bytes that arrive on a connection are a list of chunks, what successive calls of \<^verbatim>\<open>recv\<close> find; an empty chunk is an error and the
  end of the list the end of the stream.  A call takes at most as many bytes as it asks for.
\<close>

fun sys_recv :: "nat \<Rightarrow> bytes list \<Rightarrow> bytes \<times> bytes list" where
  "sys_recv n [] = ([], [])"
| "sys_recv n (c # cs) = (take n c, if length c \<le> n then cs else drop n c # cs)"

lemma sys_recv_size: "length (fst (sys_recv n cs)) \<le> n"
  by (cases cs) simp_all

function RecvAll :: "nat \<Rightarrow> bytes list \<Rightarrow> bytes option \<times> bytes list" where
  "RecvAll sz chunks =
     (if sz = 0 then (Some [], chunks)
      else case sys_recv sz chunks of (b, rest) \<Rightarrow>
        if b = [] then (None, rest)
        else case RecvAll (sz - length b) rest of
          (None, rest1) \<Rightarrow> (None, rest1)
        | (Some bs, rest1) \<Rightarrow> (Some (b @ bs), rest1))"
  by pat_completeness auto
termination by (relation "measure fst") auto

declare RecvAll.simps [simp del]

text \<open>The results of successive calls of \<^verbatim>\<open>send\<close>: the number of bytes taken, or not positive for an error; when the list ends every call
  takes everything.  The result is the success and what was sent.\<close>

function SendAll :: "int list \<Rightarrow> bytes \<Rightarrow> bool \<times> bytes \<times> int list" where
  "SendAll rcs b =
     (if b = [] then (True, [], rcs)
      else case rcs of
        [] \<Rightarrow> (True, b, [])
      | rc # rest \<Rightarrow>
          if rc \<le> 0 then (False, [], rest)
          else case SendAll rest (drop (nat rc) b) of (ok, sent, rest1) \<Rightarrow> (ok, take (nat rc) b @ sent, rest1))"
  by pat_completeness auto
termination by (relation "measure (length \<circ> snd)") auto

declare SendAll.simps [simp del]

text \<open>A stream without errors.\<close>

abbreviation clean :: "bytes list \<Rightarrow> bool" where
  "clean chunks \<equiv> [] \<notin> set chunks"

lemma sys_recv_clean:
  assumes "clean chunks" "sys_recv n chunks = (b, rest)" "0 < n"
  shows "concat chunks = b @ concat rest \<and> clean rest \<and> (b = [] \<longleftrightarrow> chunks = []) \<and> length b \<le> n"
  using assms by (cases chunks) (auto split: if_splits)

lemma RecvAll_complete:
  "clean chunks \<Longrightarrow> sz \<le> length (concat chunks) \<Longrightarrow>
     \<exists>rest. RecvAll sz chunks = (Some (take sz (concat chunks)), rest) \<and> concat rest = drop sz (concat chunks) \<and> clean rest"
proof (induction sz arbitrary: chunks rule: less_induct)
  case (less sz)
  show ?case
  proof (cases "sz = 0")
    case True
    with less.prems show ?thesis by (simp add: RecvAll.simps)
  next
    case False
    obtain b rest where rv: "sys_recv sz chunks = (b, rest)" by (meson surj_pair)
    have "chunks \<noteq> []" using less.prems(2) False by auto
    then have r: "concat chunks = b @ concat rest" "clean rest" "b \<noteq> []" "length b \<le> sz"
      using sys_recv_clean [OF less.prems(1) rv] False by simp_all
    then have lt: "sz - length b < sz" using False by (cases b) auto
    have "length (concat chunks) = length b + length (concat rest)" using r(1) by (metis length_append)
    then have "sz - length b \<le> length (concat rest)" using less.prems(2) by linarith
    from less.IH [OF lt r(2) this] obtain rest1 where
      "RecvAll (sz - length b) rest = (Some (take (sz - length b) (concat rest)), rest1)"
      "concat rest1 = drop (sz - length b) (concat rest)" "clean rest1"
      by blast
    with r False rv show ?thesis by (subst RecvAll.simps) (simp add: take_append)
  qed
qed

text \<open>What was received is what is missing from the stream, with errors or without.\<close>

lemma RecvAll_sound:
  "RecvAll sz chunks = (Some b, rest) \<Longrightarrow> concat chunks = b @ concat rest \<and> length b = sz"
proof (induction sz arbitrary: chunks b rule: less_induct)
  case (less sz)
  show ?case
  proof (cases "sz = 0")
    case True
    with less.prems show ?thesis by (simp add: RecvAll.simps)
  next
    case False
    obtain b1 rest1 where rv: "sys_recv sz chunks = (b1, rest1)" by (meson surj_pair)
    have c: "concat chunks = b1 @ concat rest1" "length b1 \<le> sz"
      using rv by (cases chunks; auto split: if_splits)+
    have ne: "b1 \<noteq> []" using less.prems False rv by (auto simp: RecvAll.simps [of sz])
    then obtain b2 where b2: "RecvAll (sz - length b1) rest1 = (Some b2, rest)" "b = b1 @ b2"
      using less.prems False rv by (auto simp: RecvAll.simps [of sz] split: prod.splits option.splits)
    have "sz - length b1 < sz" using False ne by (cases b1) auto
    from less.IH [OF this b2(1)] c b2 show ?thesis by simp
  qed
qed

lemma SendAll_sent: "SendAll rcs b = (ok, sent, rest) \<Longrightarrow> (\<exists>extra. b = sent @ extra) \<and> (ok \<longleftrightarrow> sent = b)"
proof (induction rcs b arbitrary: ok sent rest rule: SendAll.induct)
  case (1 rcs b)
  show ?case
  proof (cases "b = [] \<or> rcs = []")
    case True
    with 1(2) show ?thesis by (auto simp: SendAll.simps [of rcs] split: list.splits if_splits)
  next
    case False
    then obtain rc rs where rcs: "rcs = rc # rs" by (cases rcs) auto
    show ?thesis
    proof (cases "rc \<le> 0")
      case True
      with 1(2) False rcs show ?thesis by (auto simp: SendAll.simps [of "rc # rs"])
    next
      case pos: False
      obtain ok1 sent1 rest1 where s: "SendAll rs (drop (nat rc) b) = (ok1, sent1, rest1)" by (metis prod_cases3)
      have "ok = ok1" "sent = take (nat rc) b @ sent1" using 1(2) False pos rcs s by (auto simp: SendAll.simps [of "rc # rs"])
      with 1(1) [OF _ rcs pos s] False show ?thesis by (metis append.assoc append_take_drop_id same_append_eq)
    qed
  qed
qed

section \<open>Framed requests and replies\<close>

text \<open>\<^verbatim>\<open>VesControlProxy::SendCommand\<close>: one byte of command, the size, the payload.  The second component is what went out.\<close>

definition SendCommand :: "int list \<Rightarrow> u8 \<Rightarrow> bytes \<Rightarrow> bool \<times> bytes" where
  "SendCommand rcs cmd payload =
     (case SendAll rcs [cmd] of (ok1, sent1, rcs1) \<Rightarrow>
      if \<not> ok1 then (False, sent1)
      else case SendAll rcs1 (le_bytes 4 (of_nat (length payload) :: u32)) of (ok2, sent2, rcs2) \<Rightarrow>
      if \<not> ok2 then (False, sent1 @ sent2)
      else if payload = [] then (True, sent1 @ sent2)
      else case SendAll rcs2 payload of (ok3, sent3, rcs3) \<Rightarrow> (ok3, sent1 @ sent2 @ sent3))"

definition sized :: "bytes \<Rightarrow> bytes" where
  "sized data = le_bytes 4 (of_nat (length data) :: u32) @ data"

definition frame :: "u8 \<Rightarrow> bytes \<Rightarrow> bytes" where
  "frame cmd payload = cmd # sized payload"

text \<open>The request that \<^verbatim>\<open>AcceptLoop\<close> reads.\<close>

definition ReadRequest :: "bytes list \<Rightarrow> (u8 \<times> bytes) option" where
  "ReadRequest chunks =
     (case sys_recv 1 chunks of (cmd, rest) \<Rightarrow>
      if length cmd \<noteq> 1 then None
      else case RecvAll 4 rest of
        (None, _) \<Rightarrow> None
      | (Some sz, rest1) \<Rightarrow>
          let request_size = unat (le_word sz :: u32)
          in if request_size = 0 then Some (hd cmd, [])
             else case RecvAll request_size rest1 of (None, _) \<Rightarrow> None | (Some data, _) \<Rightarrow> Some (hd cmd, data))"

text \<open>\<^verbatim>\<open>ReceiveSizedReply\<close>; \<open>poll\<close> is whether \<^verbatim>\<open>poll\<close> reported an event, and it is called for a positive time-out only.\<close>

definition ReceiveSizedReply :: "int \<Rightarrow> bool \<Rightarrow> bytes list \<Rightarrow> StatusCode \<times> bytes" where
  "ReceiveSizedReply timeoutMs poll chunks =
     (if timeoutMs > 0 \<and> \<not> poll then (PeerDisconnected, [])
      else case RecvAll 4 chunks of
        (None, _) \<Rightarrow> (PeerDisconnected, [])
      | (Some sz, rest) \<Rightarrow>
          let replySize = unat (le_word sz :: u32)
          in if replySize = 0 then (Ok, [])
             else case RecvAll replySize rest of (None, _) \<Rightarrow> (PeerDisconnected, []) | (Some payload, _) \<Rightarrow> (Ok, payload))"

lemma SendCommand_sent:
  assumes "SendCommand rcs cmd payload = (ok, sent)"
  shows "(\<exists>extra. frame cmd payload = sent @ extra) \<and> (ok \<longleftrightarrow> sent = frame cmd payload)"
proof -
  let ?sz = "le_bytes 4 (of_nat (length payload) :: u32)"
  obtain ok1 sent1 rcs1 where 1: "SendAll rcs [cmd] = (ok1, sent1, rcs1)" by (metis prod_cases3)
  obtain ok2 sent2 rcs2 where 2: "SendAll rcs1 ?sz = (ok2, sent2, rcs2)" by (metis prod_cases3)
  obtain ok3 sent3 rcs3 where 3: "SendAll rcs2 payload = (ok3, sent3, rcs3)" by (metis prod_cases3)
  obtain m1 m2 m3 where m: "[cmd] = sent1 @ m1" "?sz = sent2 @ m2" "payload = sent3 @ m3"
    using SendAll_sent [OF 1] SendAll_sent [OF 2] SendAll_sent [OF 3] by blast
  have iff: "ok1 \<longleftrightarrow> m1 = []" "ok2 \<longleftrightarrow> m2 = []" "ok3 \<longleftrightarrow> m3 = []"
    using m SendAll_sent [OF 1] SendAll_sent [OF 2] SendAll_sent [OF 3] by auto
  have "frame cmd payload = [cmd] @ ?sz @ payload" by (simp add: frame_def sized_def)
  then have f: "frame cmd payload = (sent1 @ m1) @ (sent2 @ m2) @ sent3 @ m3" by (simp only: m(1,2,3) [symmetric])
  have run: "(ok, sent) = (if \<not> ok1 then (False, sent1) else if \<not> ok2 then (False, sent1 @ sent2)
      else if payload = [] then (True, sent1 @ sent2) else (ok3, sent1 @ sent2 @ sent3))"
    using assms by (simp add: SendCommand_def 1 2 3 cong: if_cong)
  show ?thesis using run iff f m by (auto split: if_splits)
qed

text \<open>The reader accepts a complete frame however it is cut, and accepts nothing that was not sent as one.\<close>

lemma RecvAll_prefix:
  assumes "clean chunks" "concat chunks = b @ extra"
  obtains rest where "RecvAll (length b) chunks = (Some b, rest)" "clean rest" "concat rest = extra"
  using RecvAll_complete [OF assms(1), of "length b"] assms(2) by auto

lemma recv_one:
  assumes "clean chunks" "concat chunks = c # extra"
  obtains rest where "sys_recv (Suc 0) chunks = ([c], rest)" "clean rest" "concat rest = extra"
proof -
  obtain a list where ch: "chunks = a # list" using assms(2) by (cases chunks) auto
  then obtain a' where a: "a = c # a'" using assms by (cases a) auto
  then have "sys_recv (Suc 0) chunks = ([c], if a' = [] then list else a' # list)" by (simp add: ch)
  moreover have "clean (if a' = [] then list else a' # list)" "concat (if a' = [] then list else a' # list) = extra"
    using assms ch a by auto
  ultimately show thesis by (rule that)
qed

lemma ReadRequest_frame:
  assumes "clean chunks" "concat chunks = frame cmd payload @ extra" "length payload < 2 ^ 32"
  shows "ReadRequest chunks = Some (cmd, payload)"
proof -
  let ?sz = "le_bytes 4 (of_nat (length payload) :: u32)"
  obtain r1 where 1: "sys_recv (Suc 0) chunks = ([cmd], r1)" "clean r1" "concat r1 = ?sz @ payload @ extra"
    using recv_one [OF assms(1), of cmd "?sz @ payload @ extra"] assms(2) by (auto simp: frame_def sized_def)
  obtain r2 where 2: "RecvAll 4 r1 = (Some ?sz, r2)" "clean r2" "concat r2 = payload @ extra"
    using RecvAll_prefix [OF 1(2,3)] by (metis length_le_bytes)
  obtain r3 where "RecvAll (length payload) r2 = (Some payload, r3)"
    using RecvAll_prefix [OF 2(2,3)] by metis
  then show ?thesis using assms(3) by (simp add: ReadRequest_def 1(1) 2(1) unat_of_nat Let_def)
qed

lemma ReadRequest_sound:
  assumes "ReadRequest chunks = Some (cmd, data)"
  shows "(\<exists>extra. concat chunks = frame cmd data @ extra) \<and> length data < 2 ^ 32"
proof -
  obtain c r1 where rv: "sys_recv (Suc 0) chunks = (c, r1)" by (meson surj_pair)
  have c: "length c = 1" "cmd = hd c" using assms by (auto simp: ReadRequest_def rv Let_def split: if_splits prod.splits option.splits)
  have cs: "concat chunks = cmd # concat r1"
  proof (cases chunks)
    case (Cons a list)
    with rv c show ?thesis by (cases a) (auto split: if_splits)
  qed (use rv c in simp)
  obtain sz r2 where s: "RecvAll 4 r1 = (Some sz, r2)"
    using assms c by (auto simp: ReadRequest_def rv split: prod.splits option.splits)
  let ?n = "unat (le_word sz :: u32)"
  have r1: "concat r1 = sz @ concat r2" "length sz = 4" using RecvAll_sound [OF s] by simp_all
  have "\<exists>r3. concat r2 = data @ concat r3 \<and> length data = ?n"
  proof (cases "?n = 0")
    case True
    with assms c s show ?thesis by (auto simp: ReadRequest_def rv Let_def intro: exI [of _ r2])
  next
    case False
    then obtain r3 where "RecvAll ?n r2 = (Some data, r3)"
      using assms c s by (auto simp: ReadRequest_def rv Let_def split: prod.splits option.splits)
    from RecvAll_sound [OF this] show ?thesis by blast
  qed
  then obtain r3 where r3: "concat r2 = data @ concat r3" "of_nat (length data) = (le_word sz :: u32)" "length data < 2 ^ 32"
    using unat_less_pow [of "le_word sz :: u32"] by auto
  have "le_bytes 4 (le_word sz :: u32) = sz" using le_bytes_le_word [of sz, where 'a=32] r1(2) by simp
  with cs r1 r3 show ?thesis by (simp add: frame_def sized_def)
qed

lemma ReceiveSizedReply_sized:
  assumes "clean chunks" "concat chunks = sized data @ extra" "length data < 2 ^ 32" "timeoutMs > 0 \<longrightarrow> poll"
  shows "ReceiveSizedReply timeoutMs poll chunks = (Ok, data)"
proof -
  let ?sz = "le_bytes 4 (of_nat (length data) :: u32)"
  obtain r1 where 1: "RecvAll 4 chunks = (Some ?sz, r1)" "clean r1" "concat r1 = data @ extra"
    using RecvAll_prefix [OF assms(1), of ?sz "data @ extra"] assms(2) by (auto simp: sized_def)
  obtain r2 where "RecvAll (length data) r1 = (Some data, r2)" using RecvAll_prefix [OF 1(2,3)] by metis
  then show ?thesis using assms(3,4) by (simp add: ReceiveSizedReply_def 1(1) unat_of_nat Let_def)
qed

end
