(* ===== verification/Ves_Control.thy ===== *)
theory Ves_Control
  imports Ves_Socket
begin

text \<open>
  The control path between the two processes: the accept loop of \<^verbatim>\<open>MockServiceSocket\<close> with the stub \<^verbatim>\<open>VesControlStub\<close>
  (\<^verbatim>\<open>ves_control_stub.h\<close>) on the side of the service, and \<^verbatim>\<open>VesControlProxy\<close> (\<^verbatim>\<open>ves_control_proxy.cpp\<close>) on the side of
  the client.  The lemmas compose proxy, socket, stub and service of \<open>Ves_Session\<close>.
\<close>

unbundle bit_operations_syntax

section \<open>mock_service_socket.cpp\<close>

record MockIpcReply =
  mr_fds :: "int list"
  mr_data :: bytes
  mr_close_after_reply :: bool

definition default_MockIpcReply :: MockIpcReply where
  "default_MockIpcReply = \<lparr>mr_fds = [], mr_data = [], mr_close_after_reply = False\<rparr>"

record MockServiceSocket =
  ms_handler :: bool
  ms_socket_path :: string
  ms_client_fds :: "int list"
  ms_listen_fd :: int
  ms_stop :: bool

definition new_MockServiceSocket :: MockServiceSocket where
  "new_MockServiceSocket = \<lparr>ms_handler = False, ms_socket_path = [], ms_client_fds = [], ms_listen_fd = - 1, ms_stop = False\<rparr>"

text \<open>The descriptor of \<^verbatim>\<open>socket\<close> and the outcomes of \<^verbatim>\<open>bind\<close> and \<^verbatim>\<open>listen\<close>; the second component has the descriptors
  that were closed.\<close>

definition SocketStart ::
  "string \<Rightarrow> int \<Rightarrow> bool \<Rightarrow> bool \<Rightarrow> MockServiceSocket \<Rightarrow> bool \<times> int list \<times> MockServiceSocket" where
  "SocketStart path listen_fd bound listening ms =
     (let ms1 = ms\<lparr>ms_handler := True, ms_socket_path := path\<rparr>
      in if listen_fd < 0 then (False, [], ms1)
         else if \<not> bound \<or> \<not> listening then (False, [listen_fd], ms1)
         else (True, [], ms1\<lparr>ms_stop := False, ms_listen_fd := listen_fd\<rparr>))"

definition SocketStop :: "MockServiceSocket \<Rightarrow> int list \<times> MockServiceSocket" where
  "SocketStop ms =
     (filter (\<lambda>fd. 0 \<le> fd) (ms_listen_fd ms # ms_client_fds ms),
      ms\<lparr>ms_stop := True, ms_listen_fd := - 1, ms_socket_path := [], ms_client_fds := [], ms_handler := False\<rparr>)"

text \<open>\<^verbatim>\<open>SendFds\<close>: one byte is sent when there is no data; the message goes out whole or not at all.\<close>

definition SendFds :: "bool \<Rightarrow> int list \<Rightarrow> bytes \<Rightarrow> (int list \<times> bytes) option" where
  "SendFds ok fds data = (if fds = [] \<or> \<not> ok then None else Some (fds, if data = [] then [0] else data))"

text \<open>What the peer of a connection gets: nothing (the connection is closed), a message with descriptors, or the bytes that
  went out; \<open>HandlerHangs\<close> when the handler does not return.\<close>

datatype SocketReply = NoReply | HandlerHangs | FdsReply "(int list \<times> bytes) option" | DataReply bytes

type_synonym 's MockIpcHandler = "int \<Rightarrow> bytes \<Rightarrow> 's \<Rightarrow> (bool \<times> MockIpcReply) option \<times> 's"

text \<open>One turn of \<^verbatim>\<open>AcceptLoop\<close> on an accepted connection, with the chunks that arrive and the results of the sends.  The closed
  descriptors are in the second component.\<close>

definition AcceptTurn ::
  "'s MockIpcHandler \<Rightarrow> int \<Rightarrow> bytes list \<Rightarrow> int list \<Rightarrow> bool \<Rightarrow> MockServiceSocket \<Rightarrow> 's \<Rightarrow>
     SocketReply \<times> int list \<times> MockServiceSocket \<times> 's" where
  "AcceptTurn handler client_fd chunks rcs scm ms s =
     (case ReadRequest chunks of
        None \<Rightarrow> (NoReply, [client_fd], ms, s)
      | Some (cmd, data) \<Rightarrow>
          if \<not> ms_handler ms then (NoReply, [client_fd], ms, s)
          else case handler (sint cmd) data s of
            (None, s1) \<Rightarrow> (HandlerHangs, [], ms, s1)
          | (Some (ok, reply), s1) \<Rightarrow>
              if \<not> ok then (NoReply, [client_fd], ms, s1)
              else let out = (if mr_fds reply \<noteq> [] then FdsReply (SendFds scm (mr_fds reply) (mr_data reply))
                              else DataReply (case SendAll rcs (le_bytes 4 (of_nat (length (mr_data reply)) :: u32)) of (ok1, sent1, rcs1) \<Rightarrow>
                                if \<not> ok1 then sent1
                                else case SendAll rcs1 (mr_data reply) of (ok2, sent2, rcs2) \<Rightarrow> sent1 @ sent2))
                in if mr_close_after_reply reply then (out, [client_fd], ms, s1)
                   else (out, [], ms\<lparr>ms_client_fds := ms_client_fds ms @ [client_fd]\<rparr>, s1))"

section \<open>ves_control_stub.h\<close>

definition EncodeOpenSessionReply :: "BootstrapHandles \<Rightarrow> MockIpcReply" where
  "EncodeOpenSessionReply handles =
     \<lparr>mr_fds = [bh_shmFd handles, bh_highReqEventFd handles, bh_normalReqEventFd handles, bh_respEventFd handles,
        bh_reqCreditEventFd handles, bh_respCreditEventFd handles],
      mr_data = encode_metadata handles, mr_close_after_reply = False\<rparr>"

type_synonym ServiceState = "VesService \<times> EngineWorld"

definition HandleOpenSession :: "EngineEnv \<Rightarrow> bytes \<Rightarrow> ServiceState \<Rightarrow> (bool \<times> MockIpcReply) option \<times> ServiceState" where
  "HandleOpenSession env data s =
     (case DecodeOpenSessionRequest data of
        None \<Rightarrow> (Some (False, default_MockIpcReply), s)
      | Some openRequest \<Rightarrow>
          (case VesOpenSession env openRequest MakeDefaultBootstrapHandles (fst s) (snd s) of (status, handles, vs, ew) \<Rightarrow>
           if status \<noteq> Ok then (Some (False, default_MockIpcReply), (vs, ew))
           else (Some (True, EncodeOpenSessionReply handles), (vs, ew))))"

definition HandleHeartbeat :: "EngineEnv \<Rightarrow> ServiceState \<Rightarrow> (bool \<times> MockIpcReply) option \<times> ServiceState" where
  "HandleHeartbeat env s =
     (case Heartbeat (ee_now env) (fst s) (snd s) of (status, heartbeatReply) \<Rightarrow>
      if status \<noteq> Ok then (Some (False, default_MockIpcReply), s)
      else (Some (True, default_MockIpcReply\<lparr>mr_data := heartbeat_image heartbeatReply, mr_close_after_reply := True\<rparr>), s))"

definition HandleAnyCall :: "EngineEnv \<Rightarrow> bytes \<Rightarrow> ServiceState \<Rightarrow> (bool \<times> MockIpcReply) option \<times> ServiceState" where
  "HandleAnyCall env data s =
     (case DecodeAnyCallRequest data of
        None \<Rightarrow> (Some (False, default_MockIpcReply), s)
      | Some anyRequest \<Rightarrow>
          (case VesAnyCall env anyRequest (fst s) (snd s) of
             (None, vs, ew) \<Rightarrow> (None, (vs, ew))
           | (Some (status, anyReply), vs, ew) \<Rightarrow>
               if status \<noteq> Ok then (Some (False, default_MockIpcReply), (vs, ew))
               else (Some (True, default_MockIpcReply\<lparr>mr_data := EncodeAnyCallReply anyReply, mr_close_after_reply := True\<rparr>), (vs, ew))))"

definition OnRemoteRequest :: "EngineEnv \<Rightarrow> ServiceState MockIpcHandler" where
  "OnRemoteRequest env command data s =
     (if command = 1 then HandleOpenSession env data s
      else if command = 2 then
        (case VesCloseSession env (fst s) (snd s) of (status, vs, ew) \<Rightarrow>
         (Some (status = Ok, default_MockIpcReply\<lparr>mr_close_after_reply := True\<rparr>), (vs, ew)))
      else if command = 3 then HandleHeartbeat env s
      else if command = 4 then HandleAnyCall env data s
      else (Some (False, default_MockIpcReply), s))"

section \<open>ves_control_proxy.cpp: the proxy\<close>

record ControlProxy =
  px_sock_fd :: int
  px_stop_monitor :: bool
  px_monitoring :: bool
  px_sessionId :: u64
  px_deathCallback :: bool

definition new_ControlProxy :: ControlProxy where
  "new_ControlProxy = \<lparr>px_sock_fd = - 1, px_stop_monitor = False, px_monitoring = False, px_sessionId = 0, px_deathCallback = False\<rparr>"

text \<open>One connection: the descriptor of \<^verbatim>\<open>ConnectToService\<close> (negative when it failed), the results of \<^verbatim>\<open>send\<close>, whether \<^verbatim>\<open>poll\<close>
  reported an event, the bytes that arrive, and the message with descriptors that \<^verbatim>\<open>recvmsg\<close> returned.\<close>

record Exchange =
  xc_fd :: int
  xc_send :: "int list"
  xc_poll :: bool
  xc_reply :: "bytes list"
  xc_message :: "(int list \<times> bytes) option"

definition StopMonitorThread :: "ControlProxy \<Rightarrow> int list \<times> ControlProxy" where
  "StopMonitorThread px =
     (if px_sock_fd px \<ge> 0 then [px_sock_fd px] else [],
      px\<lparr>px_stop_monitor := True, px_sock_fd := - 1, px_sessionId := 0, px_monitoring := False\<rparr>)"

definition ResetSocketConnection :: "ControlProxy \<Rightarrow> int list \<times> ControlProxy" where
  "ResetSocketConnection px = StopMonitorThread px"

text \<open>\<^verbatim>\<open>RecvFds\<close> with room for six descriptors and sixteen bytes: the descriptors and the number of bytes.\<close>

definition RecvFds :: "(int list \<times> bytes) option \<Rightarrow> int list \<times> nat \<times> bytes" where
  "RecvFds message =
     (case message of
        None \<Rightarrow> ([], 16, [])
      | Some (fds, data) \<Rightarrow> if data = [] then ([], 16, []) else (take 6 fds, length (take 16 data), take 16 data))"

definition ReceiveSessionHandles :: "(int list \<times> bytes) option \<Rightarrow> StatusCode \<times> BootstrapHandles \<times> int list" where
  "ReceiveSessionHandles message =
     (case RecvFds message of (fds, data_len, meta) \<Rightarrow>
      if length fds \<noteq> 6 \<or> data_len \<noteq> 16 then (ProtocolMismatch, MakeDefaultBootstrapHandles, fds)
      else (Ok, \<lparr>bh_shmFd = fds ! 0, bh_highReqEventFd = fds ! 1, bh_normalReqEventFd = fds ! 2, bh_respEventFd = fds ! 3,
                 bh_reqCreditEventFd = fds ! 4, bh_respCreditEventFd = fds ! 5, bh_protocolVersion = le_word (take 4 meta),
                 bh_sessionId = le_word (drop 8 meta)\<rparr>, []))"

text \<open>The results have the descriptors that were closed as third component.\<close>

definition ProxyOpenSession ::
  "Exchange \<Rightarrow> VesOpenSessionRequest \<Rightarrow> BootstrapHandles \<Rightarrow> ControlProxy \<Rightarrow> StatusCode \<times> BootstrapHandles \<times> int list \<times> ControlProxy" where
  "ProxyOpenSession xc request handles px =
     (if \<not> IsValidVesOpenSessionRequest request then (InvalidArgument, handles, [], px)
      else case EncodeVesOpenSessionRequest request of
        None \<Rightarrow> (ProtocolMismatch, handles, [], px)
      | Some payload \<Rightarrow>
          (case ResetSocketConnection px of (closed, px1) \<Rightarrow>
           if xc_fd xc < 0 then (PeerDisconnected, handles, closed, px1)
           else if \<not> fst (SendCommand (xc_send xc) 1 payload) then (PeerDisconnected, handles, closed @ [xc_fd xc], px1)
           else case ReceiveSessionHandles (xc_message xc) of (receive_status, handles1, dropped) \<Rightarrow>
             if receive_status \<noteq> Ok then (receive_status, handles1, closed @ dropped @ [xc_fd xc], px1)
             else (Ok, handles1, closed,
                   px1\<lparr>px_stop_monitor := False, px_sock_fd := xc_fd xc, px_sessionId := bh_sessionId handles1, px_monitoring := True\<rparr>)))"

definition ProxyHeartbeatWithTimeout :: "Exchange \<Rightarrow> int \<Rightarrow> VesHeartbeatReply \<Rightarrow> StatusCode \<times> VesHeartbeatReply" where
  "ProxyHeartbeatWithTimeout xc timeoutMs reply =
     (if xc_fd xc < 0 \<or> \<not> fst (SendCommand (xc_send xc) 3 []) then (PeerDisconnected, reply)
      else case ReceiveSizedReply timeoutMs (xc_poll xc) (xc_reply xc) of (receiveStatus, payload) \<Rightarrow>
        if receiveStatus \<noteq> Ok then (receiveStatus, reply)
        else if length payload \<noteq> heartbeat_size then (ProtocolMismatch, reply)
        else (Ok, heartbeat_of_image payload))"

definition DEFAULT_HEARTBEAT_TIMEOUT_MS :: int where
  "DEFAULT_HEARTBEAT_TIMEOUT_MS = 500"

definition ProxyHeartbeat :: "Exchange \<Rightarrow> VesHeartbeatReply \<Rightarrow> StatusCode \<times> VesHeartbeatReply" where
  "ProxyHeartbeat xc reply = ProxyHeartbeatWithTimeout xc DEFAULT_HEARTBEAT_TIMEOUT_MS reply"

text \<open>A time-out of \<open>2 ^ 31\<close> or more becomes negative in the cast to \<^verbatim>\<open>int\<close> and means no time-out.\<close>

definition ProxyAnyCall :: "Exchange \<Rightarrow> VesAnyCallRequest \<Rightarrow> VesAnyCallReply \<Rightarrow> StatusCode \<times> VesAnyCallReply" where
  "ProxyAnyCall xc request reply =
     (if xc_fd xc < 0 \<or> \<not> fst (SendCommand (xc_send xc) 4 (EncodeAnyCallWire request)) then (PeerDisconnected, reply)
      else case ReceiveSizedReply (if an_timeoutMs request > 0 then sint (an_timeoutMs request) else 0) (xc_poll xc) (xc_reply xc) of
        (receiveStatus, payload) \<Rightarrow>
        if receiveStatus \<noteq> Ok then (receiveStatus, reply)
        else case DecodeAnyCallWire payload of
          (status, None) \<Rightarrow> (status, reply)
        | (status, Some reply1) \<Rightarrow> (status, reply1))"

definition ProxyCloseSession :: "Exchange \<Rightarrow> ControlProxy \<Rightarrow> StatusCode \<times> int list \<times> ControlProxy" where
  "ProxyCloseSession xc px =
     (case ResetSocketConnection px of (closed, px1) \<Rightarrow>
      if xc_fd xc < 0 then (PeerDisconnected, closed, px1)
      else (if fst (SendCommand (xc_send xc) 2 []) then Ok else PeerDisconnected, closed @ [xc_fd xc], px1))"

definition ProxySetEngineDeathCallback :: "bool \<Rightarrow> ControlProxy \<Rightarrow> ControlProxy" where
  "ProxySetEngineDeathCallback callback px = px\<lparr>px_deathCallback := callback\<rparr>"

text \<open>One turn of \<^verbatim>\<open>MonitorSocket\<close>: the result of \<^verbatim>\<open>poll\<close>, the events, the result of the peeking \<^verbatim>\<open>recv\<close> and whether its error was
  \<^verbatim>\<open>EAGAIN\<close> or \<^verbatim>\<open>EWOULDBLOCK\<close>.  The result is whether the loop goes on, and the session reported to the callback.\<close>

definition POLLIN :: u32 where "POLLIN = 1"
definition POLLERR :: u32 where "POLLERR = 8"
definition POLLHUP :: u32 where "POLLHUP = 16"

definition HasDisconnectSignal :: "u32 \<Rightarrow> bool" where
  "HasDisconnectSignal revents \<longleftrightarrow> revents AND (POLLHUP OR POLLERR OR POLLIN) \<noteq> 0"

definition IsPeerDisconnected :: "int \<Rightarrow> bool \<Rightarrow> bool" where
  "IsPeerDisconnected received again \<longleftrightarrow> received = 0 \<or> received < 0 \<and> \<not> again"

definition NotifyPeerDisconnected :: "ControlProxy \<Rightarrow> u64 option" where
  "NotifyPeerDisconnected px = (if px_stop_monitor px then None else if px_deathCallback px then Some (px_sessionId px) else None)"

definition MonitorTurn :: "int \<Rightarrow> u32 \<Rightarrow> int \<Rightarrow> bool \<Rightarrow> ControlProxy \<Rightarrow> bool \<times> u64 option" where
  "MonitorTurn poll_result revents received again px =
     (if px_stop_monitor px then (False, None)
      else if poll_result < 0 then (True, None)
      else if poll_result = 0 \<or> \<not> HasDisconnectSignal revents \<or> \<not> IsPeerDisconnected received again then (True, None)
      else (False, NotifyPeerDisconnected px))"

definition IsHealthyHeartbeatStatus :: "u32 \<Rightarrow> bool" where
  "IsHealthyHeartbeatStatus status \<longleftrightarrow> status = VesHeartbeatStatus_u32 OkIdle \<or> status = VesHeartbeatStatus_u32 OkBusy \<or>
     status = VesHeartbeatStatus_u32 DegradedLongRunning"

definition ToHealthResult :: "VesHeartbeatReply \<Rightarrow> u64 \<Rightarrow> ChannelHealthResult" where
  "ToHealthResult reply expectedSessionId =
     (if expectedSessionId \<noteq> 0 \<and> hb_sessionId reply \<noteq> 0 \<and> hb_sessionId reply \<noteq> expectedSessionId
      then \<lparr>ch_status = HealthSessionMismatch, ch_sessionId = hb_sessionId reply\<rparr>
      else \<lparr>ch_status = (if IsHealthyHeartbeatStatus (hb_status reply) then HealthHealthy else HealthUnhealthy),
            ch_sessionId = hb_sessionId reply\<rparr>)"

section \<open>One exchange over the socket\<close>

text \<open>The bytes of a reply without descriptors.\<close>

fun reply_bytes :: "SocketReply \<Rightarrow> bytes" where
  "reply_bytes (DataReply b) = b"
| "reply_bytes _ = []"

lemma RecvAll_short:
  "length (concat chunks) < n \<Longrightarrow> fst (RecvAll n chunks) = None"
proof (rule ccontr)
  assume short: "length (concat chunks) < n" and "fst (RecvAll n chunks) \<noteq> None"
  then obtain b rest where "RecvAll n chunks = (Some b, rest)" by (cases "RecvAll n chunks") auto
  from RecvAll_sound [OF this] have "length (concat chunks) = n + length (concat rest)" by (metis length_append)
  with short show False by simp
qed

lemma u32_of_nat_inj: "(of_nat m :: u32) = of_nat n \<Longrightarrow> m < 2 ^ 32 \<Longrightarrow> n < 2 ^ 32 \<Longrightarrow> m = n"
  by (simp add: word_of_nat_eq_iff take_bit_nat_eq_self)

lemma sized_prefix:
  assumes "sized d @ extra = sized d'" "length d < 2 ^ 32" "length d' < 2 ^ 32"
  shows "d = d' \<and> extra = []"
proof -
  have "take 4 (sized d @ extra) = take 4 (sized d')" "drop 4 (sized d @ extra) = drop 4 (sized d')" using assms(1) by simp_all
  then have eq: "le_bytes 4 (of_nat (length d) :: u32) = le_bytes 4 (of_nat (length d') :: u32)" "d @ extra = d'"
    by (simp_all add: sized_def)
  have "(of_nat (length d) :: u32) = of_nat (length d')" using eq(1) le_bytes_inject [where 'a=32 and n=4] by simp
  from u32_of_nat_inj [OF this assms(2,3)] have "length d = length d'" .
  with eq(2) show ?thesis by auto
qed

lemma truncated_not_dispatched:
  assumes "SendCommand rcs cmd payload = (ok, sent)" "concat chunks = sent" "length payload < 2 ^ 32"
    "ReadRequest chunks = Some (cmd', data)"
  shows "ok \<and> cmd' = cmd \<and> data = payload"
proof -
  obtain extra extra' where e: "frame cmd payload = sent @ extra'" "sent = frame cmd' data @ extra"
    and iff: "ok \<longleftrightarrow> sent = frame cmd payload" and len: "length data < 2 ^ 32"
    using SendCommand_sent [OF assms(1)] ReadRequest_sound [OF assms(4)] assms(2) by auto
  then have "cmd' = cmd" "sized data @ (extra @ extra') = sized payload" by (auto simp: frame_def)
  with sized_prefix [OF this(2) len assms(3)] e iff show ?thesis by (auto simp: frame_def)
qed

lemma ReceiveSizedReply_sound:
  assumes "ReceiveSizedReply t poll chunks = (Ok, data)"
  shows "(\<exists>extra. concat chunks = sized data @ extra) \<and> length data < 2 ^ 32"
proof -
  obtain sz rest where s: "RecvAll 4 chunks = (Some sz, rest)"
    using assms by (auto simp: ReceiveSizedReply_def split: if_splits prod.splits option.splits)
  let ?n = "unat (le_word sz :: u32)"
  have r: "concat chunks = sz @ concat rest" "le_bytes 4 (le_word sz :: u32) = sz"
    using RecvAll_sound [OF s] le_bytes_le_word [of sz, where 'a=32] by auto
  have "\<exists>r3. concat rest = data @ concat r3 \<and> length data = ?n"
  proof (cases "?n = 0")
    case True
    with assms s show ?thesis by (auto simp: ReceiveSizedReply_def Let_def split: if_splits intro: exI [of _ rest])
  next
    case False
    then obtain r3 where "RecvAll ?n rest = (Some data, r3)"
      using assms s by (auto simp: ReceiveSizedReply_def Let_def split: if_splits prod.splits option.splits)
    from RecvAll_sound [OF this] show ?thesis by blast
  qed
  then show ?thesis using r unat_less_pow [of "le_word sz :: u32"] by (auto simp: sized_def)
qed

text \<open>Whatever is cut or lost on the way, the client accepts a reply only when the server got the whole request and the reply is the
  one of the handler; when nothing fails the client does get it.\<close>

lemma exchange:
  assumes "SendCommand sends cmd payload = (ok, sent)" "clean chunks" "concat chunks = sent" "length payload < 2 ^ 32"
    "handler (sint cmd) payload s = (Some (True, reply), s1)" "mr_fds reply = []" "length (mr_data reply) < 2 ^ 32" "ms_handler ms"
    "AcceptTurn handler fd chunks rcs scm ms s = (out, closed, ms', s')"
    "clean answer" "concat answer = reply_bytes out" "ReceiveSizedReply t poll answer = (st, data)"
  shows "(st = Ok \<longrightarrow> ok \<and> data = mr_data reply \<and> s' = s1) \<and> (ok \<and> rcs = [] \<and> (t > 0 \<longrightarrow> poll) \<longrightarrow> st = Ok \<and> s' = s1)"
proof (cases "ReadRequest chunks")
  case None
  then have "\<not> ok" using ReadRequest_frame [OF assms(2), of cmd payload "[]"] SendCommand_sent [OF assms(1)] assms(3,4) by auto
  moreover have "reply_bytes out = []" using assms(9) None by (auto simp: AcceptTurn_def)
  then have "st \<noteq> Ok" using RecvAll_short [of answer 4] assms(11,12)
    by (auto simp: ReceiveSizedReply_def split: if_splits prod.splits)
  ultimately show ?thesis by simp
next
  case (Some r)
  then obtain cmd' d where r: "ReadRequest chunks = Some (cmd', d)" by (cases r) auto
  have ok: "ok" "cmd' = cmd" "d = payload" using truncated_not_dispatched [OF assms(1,3,4) r] by simp_all
  let ?sz = "le_bytes 4 (of_nat (length (mr_data reply)) :: u32)"
  obtain ok1 sent1 rcs1 where 1: "SendAll rcs ?sz = (ok1, sent1, rcs1)" by (metis prod_cases3)
  obtain ok2 sent2 rcs2 where 2: "SendAll rcs1 (mr_data reply) = (ok2, sent2, rcs2)" by (metis prod_cases3)
  have out: "out = DataReply (if \<not> ok1 then sent1 else sent1 @ sent2)" "s' = s1"
    using assms(5,6,8,9) r ok by (auto simp: AcceptTurn_def 1 2 Let_def cong: if_cong split: if_splits)
  obtain lost where lost: "sized (mr_data reply) = reply_bytes out @ lost"
    using SendAll_sent [OF 1] SendAll_sent [OF 2] out(1) by (auto simp: sized_def)
  have "data = mr_data reply" if answered: "st = Ok"
  proof -
    obtain extra where e: "concat answer = sized data @ extra" "length data < 2 ^ 32"
      using ReceiveSizedReply_sound [OF assms(12) [unfolded answered]] by blast
    then have "sized data @ (extra @ lost) = sized (mr_data reply)" using lost assms(11) by simp
    from sized_prefix [OF this e(2) assms(7)] show ?thesis by simp
  qed
  moreover have "st = Ok" if "rcs = []" "t > 0 \<longrightarrow> poll"
  proof -
    have "SendAll [] b = (True, b, [])" for b by (simp add: SendAll.simps)
    then have "concat answer = sized (mr_data reply) @ []" using 1 2 out(1) that(1) assms(11) by (auto simp: sized_def)
    from ReceiveSizedReply_sized [OF assms(10) this assms(7) that(2)] assms(12) show ?thesis by simp
  qed
  ultimately show ?thesis using ok out(2) by blast
qed

section \<open>Properties of the control path\<close>

lemma length_EncodeAnyCallWire [simp]: "length (EncodeAnyCallWire request) = 12 + length (an_payload request)"
  by (simp add: EncodeAnyCallWire_def)

lemma length_EncodeAnyCallReply [simp]: "length (EncodeAnyCallReply reply) = 8 + length (ay_payload reply)"
  by (simp add: EncodeAnyCallReply_def)

lemma OnRemoteRequest_any_call:
  assumes "VesAnyCall env request vs ew = (Some (Ok, r), vs1, ew1)" "length (an_payload request) < 2 ^ 32"
  shows "OnRemoteRequest env 4 (EncodeAnyCallWire request) (vs, ew) =
    (Some (True, default_MockIpcReply\<lparr>mr_data := EncodeAnyCallReply r, mr_close_after_reply := True\<rparr>), (vs1, ew1))"
  using assms by (simp add: OnRemoteRequest_def HandleAnyCall_def any_call_round_trip)

text \<open>C10: A direct call over the control socket is the call of the service.  However the two streams are cut into pieces and wherever a send
  stops: when the proxy reports success, the service ran this request, once, and the reply is the service's; and when
  the connection works the proxy reports success.\<close>

theorem AnyCall_over_socket:
  assumes "SendCommand (xc_send xc) 4 (EncodeAnyCallWire request) = (sent_all, sent)" "length (an_payload request) + 12 < 2 ^ 32"
    "clean chunks" "concat chunks = sent"
    "VesAnyCall env request vs ew = (Some (Ok, r), vs1, ew1)" "named_status (ay_status r)" "length (ay_payload r) + 8 < 2 ^ 32"
    "AcceptTurn (OnRemoteRequest env) fd chunks rcs scm ms (vs, ew) = (out, closed, ms', (vs', ew'))" "ms_handler ms"
    "clean (xc_reply xc)" "concat (xc_reply xc) = reply_bytes out"
    "ProxyAnyCall xc request reply0 = (status, reply)"
  shows "(status = Ok \<longrightarrow> reply = r \<and> vs' = vs1 \<and> ew' = ew1 \<and> ms' = ms \<and> closed = [fd]) \<and>
    (0 \<le> xc_fd xc \<and> sent_all \<and> rcs = [] \<and> xc_poll xc \<longrightarrow> status = Ok)"
proof -
  let ?t = "if an_timeoutMs request > 0 then sint (an_timeoutMs request) else 0"
  let ?reply = "default_MockIpcReply\<lparr>mr_data := EncodeAnyCallReply r, mr_close_after_reply := True\<rparr>"
  obtain st data where rr: "ReceiveSizedReply ?t (xc_poll xc) (xc_reply xc) = (st, data)" by (meson surj_pair)
  have handled: "OnRemoteRequest env (sint (4 :: u8)) (EncodeAnyCallWire request) (vs, ew) = (Some (True, ?reply), (vs1, ew1))"
    using OnRemoteRequest_any_call [OF assms(5)] assms(2) by simp
  have len: "length (EncodeAnyCallWire request) < 2 ^ 32" "length (mr_data ?reply) < 2 ^ 32" "mr_fds ?reply = []"
    using assms(2,7) by (simp_all add: default_MockIpcReply_def)
  from exchange [OF assms(1,3,4) len(1) handled len(3,2) assms(9,8,10,11) rr]
  have ex: "st = Ok \<longrightarrow> sent_all \<and> data = EncodeAnyCallReply r \<and> (vs', ew') = (vs1, ew1)"
    "sent_all \<and> rcs = [] \<and> (?t > 0 \<longrightarrow> xc_poll xc) \<longrightarrow> st = Ok" by simp_all
  have decoded: "DecodeAnyCallWire (EncodeAnyCallReply r) = (Ok, Some r)"
    using any_reply_round_trip [OF assms(6)] assms(7) by simp
  have run: "(status, reply) = (if xc_fd xc < 0 \<or> \<not> sent_all then (PeerDisconnected, reply0)
      else if st \<noteq> Ok then (st, reply0) else case DecodeAnyCallWire data of (status, None) \<Rightarrow> (status, reply0) | (status, Some reply1) \<Rightarrow> (status, reply1))"
    using assms(12) unfolding ProxyAnyCall_def assms(1) rr by (simp cong: if_cong)
  have kept: "ms' = ms \<and> closed = [fd]" if "sent_all"
    using assms(8,9) handled SendCommand_sent [OF assms(1)] ReadRequest_frame [OF assms(3), of 4 "EncodeAnyCallWire request" "[]"] that assms(4) len(1)
    by (auto simp: AcceptTurn_def default_MockIpcReply_def Let_def)
  show ?thesis
  proof (cases "xc_fd xc < 0 \<or> \<not> sent_all \<or> st \<noteq> Ok")
    case True
    then have "status \<noteq> Ok" using run by (cases "xc_fd xc < 0 \<or> \<not> sent_all") simp_all
    moreover have "\<not> (0 \<le> xc_fd xc \<and> sent_all \<and> rcs = [] \<and> xc_poll xc)" using True ex(2) by auto
    ultimately show ?thesis by simp
  next
    case False
    with run ex(1) decoded kept show ?thesis by simp
  qed
qed

section \<open>The heartbeat\<close>

text \<open>Status, reason and flags that belong together.\<close>

inductive heartbeat_kind :: "VesHeartbeatStatus \<Rightarrow> VesHeartbeatReasonCode \<Rightarrow> u32 \<Rightarrow> bool" where
  "heartbeat_kind OkIdle ReasonNone 3"
| "heartbeat_kind OkBusy ReasonBusy 7"
| "heartbeat_kind DegradedLongRunning ReasonLongRunning 15"
| "flags \<in> {0, 2} \<Longrightarrow> heartbeat_kind UnhealthyNoSession ReasonNoSession flags"
| "heartbeat_kind UnhealthyStopping ReasonStopping 0"
| "heartbeat_kind UnhealthyInternalError ReasonInternalError 0"

definition live_session :: "VesService \<Rightarrow> u64" where
  "live_session vs = (if vs_stopping vs \<or> \<not> ve_initialized (vs_engine vs) then 0
     else case vs_session vs of None \<Rightarrow> 0 | Some es \<Rightarrow> es_sessionId es)"

lemmas heartbeat_flags = VES_HEARTBEAT_FLAG_HAS_SESSION_def VES_HEARTBEAT_FLAG_INITIALIZED_def VES_HEARTBEAT_FLAG_BUSY_def
  VES_HEARTBEAT_FLAG_LONG_RUNNING_def

lemma PopulateHealthyReply_shape:
  assumes "heartbeat_ok reply"
  shows "heartbeat_ok (PopulateHealthyReply stats sid reply) \<and> hb_version (PopulateHealthyReply stats sid reply) = hb_version reply \<and>
    hb_sessionId (PopulateHealthyReply stats sid reply) = sid \<and>
    (\<exists>status reason. hb_status (PopulateHealthyReply stats sid reply) = VesHeartbeatStatus_u32 status \<and>
       hb_reasonCode (PopulateHealthyReply stats sid reply) = VesHeartbeatReasonCode_u32 reason \<and>
       heartbeat_kind status reason (hb_flags (PopulateHealthyReply stats sid reply)) \<and>
       status \<in> {OkIdle, OkBusy, DegradedLongRunning})"
proof -
  consider "st_activeRequestExecutions stats = 0" | "st_activeRequestExecutions stats \<noteq> 0" "st_oldestExecutionAgeMs stats \<ge> LONG_RUNNING_REQUEST_THRESHOLD_MS"
    | "st_activeRequestExecutions stats \<noteq> 0" "\<not> st_oldestExecutionAgeMs stats \<ge> LONG_RUNNING_REQUEST_THRESHOLD_MS" by blast
  then show ?thesis
  proof cases
    case 1
    then show ?thesis using assms heartbeat_kind.intros(1)
      by (auto simp: PopulateHealthyReply_def heartbeat_ok_def set_task_def heartbeat_flags Let_def intro!: exI [of _ OkIdle] exI [of _ ReasonNone])
  next
    case 2
    then show ?thesis using assms heartbeat_kind.intros(3)
      by (auto simp: PopulateHealthyReply_def heartbeat_ok_def set_task_def heartbeat_flags Let_def
          intro!: exI [of _ DegradedLongRunning] exI [of _ ReasonLongRunning])
  next
    case 3
    then show ?thesis using assms heartbeat_kind.intros(2)
      by (auto simp: PopulateHealthyReply_def heartbeat_ok_def set_task_def heartbeat_flags Let_def intro!: exI [of _ OkBusy] exI [of _ ReasonBusy])
  qed
qed

lemma default_heartbeat_ok: "heartbeat_ok default_VesHeartbeatReply" "hb_version default_VesHeartbeatReply = 2"
  by (simp_all add: heartbeat_ok_def default_VesHeartbeatReply_def)

lemma heartbeat_unhealthy:
  assumes "heartbeat_kind status reason flags" "status \<notin> {OkIdle, OkBusy, DegradedLongRunning}"
  shows "\<not> IsHealthyHeartbeatStatus (VesHeartbeatStatus_u32 status)"
  using assms by (cases status) (simp_all add: IsHealthyHeartbeatStatus_def)

definition heartbeat_shape :: "VesService \<Rightarrow> VesHeartbeatReply \<Rightarrow> bool" where
  "heartbeat_shape vs hb \<longleftrightarrow> heartbeat_ok hb \<and> hb_version hb = 2 \<and> hb_sessionId hb = live_session vs \<and>
     (\<exists>status reason. hb_status hb = VesHeartbeatStatus_u32 status \<and> hb_reasonCode hb = VesHeartbeatReasonCode_u32 reason \<and>
        heartbeat_kind status reason (hb_flags hb) \<and> (status \<in> {OkIdle, OkBusy, DegradedLongRunning} \<longleftrightarrow> live_session vs \<noteq> 0))"

lemma heartbeat_shapeI:
  assumes "length (hb_currentTask hb) = 64" "length (hb_reserved hb) = 12" "hb_version hb = 2" "hb_sessionId hb = 0" "live_session vs = 0"
    "hb_status hb = VesHeartbeatStatus_u32 status" "hb_reasonCode hb = VesHeartbeatReasonCode_u32 reason"
    "heartbeat_kind status reason (hb_flags hb)" "status \<notin> {OkIdle, OkBusy, DegradedLongRunning}"
  shows "heartbeat_shape vs hb"
  using assms by (auto simp: heartbeat_shape_def heartbeat_ok_def intro!: exI [of _ status] exI [of _ reason])

lemma Heartbeat_shape: "fst (Heartbeat now vs ew) = Ok \<and> heartbeat_shape vs (snd (Heartbeat now vs ew))"
proof -
  note defs = Heartbeat_def default_VesHeartbeatReply_def set_task_def heartbeat_flags live_session_def Let_def
  consider "vs_stopping vs" | "\<not> vs_stopping vs" "vs_session vs = None"
    | es where "\<not> vs_stopping vs" "vs_session vs = Some es" "\<not> ve_initialized (vs_engine vs)"
    | es where "\<not> vs_stopping vs" "vs_session vs = Some es" "ve_initialized (vs_engine vs)" "es_sessionId es = 0"
    | es where "\<not> vs_stopping vs" "vs_session vs = Some es" "ve_initialized (vs_engine vs)" "es_sessionId es \<noteq> 0"
    by (cases "vs_session vs") blast+
  then show ?thesis
  proof cases
    case 1
    then show ?thesis by (auto intro!: heartbeat_shapeI [where status = UnhealthyStopping] heartbeat_kind.intros simp: defs)
  next
    case 2
    then show ?thesis by (auto intro!: heartbeat_shapeI [where status = UnhealthyNoSession] heartbeat_kind.intros simp: defs)
  next
    case 3
    then show ?thesis by (auto intro!: heartbeat_shapeI [where status = UnhealthyInternalError] heartbeat_kind.intros simp: defs)
  next
    case 4
    then show ?thesis by (auto intro!: heartbeat_shapeI [where status = UnhealthyNoSession] heartbeat_kind.intros simp: defs)
  next
    case 5
    with PopulateHealthyReply_shape [OF default_heartbeat_ok(1), of "ServiceGetRuntimeStats now es ew" "es_sessionId es"]
    show ?thesis by (simp add: Heartbeat_def heartbeat_shape_def live_session_def default_heartbeat_ok(2))
  qed
qed

text \<open>C21: Every heartbeat is well-formed: the call succeeds; the reply has the declared layout and version, so that the peer reads
  back what was written; status, reason and flags are one of the documented combinations; the session it names is
  the open session, zero if there is none, the engine is not initialised or the service stops; and the peer takes it for
  healthy exactly when there is such a session and it is the one expected.\<close>

theorem heartbeat_well_formed:
  "case Heartbeat now vs ew of (st, hb) \<Rightarrow>
     st = Ok \<and> heartbeat_ok hb \<and> hb_version hb = 2 \<and> hb_sessionId hb = live_session vs \<and>
     (\<exists>status reason. hb_status hb = VesHeartbeatStatus_u32 status \<and> hb_reasonCode hb = VesHeartbeatReasonCode_u32 reason \<and>
        heartbeat_kind status reason (hb_flags hb)) \<and>
     length (heartbeat_image hb) = heartbeat_size \<and> heartbeat_of_image (heartbeat_image hb) = hb \<and>
     (ch_status (ToHealthResult hb expected) = HealthHealthy \<longleftrightarrow>
        live_session vs \<noteq> 0 \<and> (expected = 0 \<or> expected = live_session vs))"
proof -
  obtain st hb where h: "Heartbeat now vs ew = (st, hb)" by (meson surj_pair)
  then have shape: "st = Ok" "heartbeat_shape vs hb" using Heartbeat_shape [of now vs ew] by simp_all
  then obtain status reason where k: "hb_status hb = VesHeartbeatStatus_u32 status" "heartbeat_kind status reason (hb_flags hb)"
    "status \<in> {OkIdle, OkBusy, DegradedLongRunning} \<longleftrightarrow> live_session vs \<noteq> 0" by (auto simp: heartbeat_shape_def)
  have "IsHealthyHeartbeatStatus (hb_status hb) \<longleftrightarrow> live_session vs \<noteq> 0"
    using k heartbeat_unhealthy [OF k(2)] by (auto simp: IsHealthyHeartbeatStatus_def)
  then have "ch_status (ToHealthResult hb expected) = HealthHealthy \<longleftrightarrow> live_session vs \<noteq> 0 \<and> (expected = 0 \<or> expected = live_session vs)"
    using shape by (auto simp: ToHealthResult_def heartbeat_shape_def)
  with shape heartbeat_round_trip [of hb] show ?thesis unfolding h heartbeat_shape_def by blast
qed

lemma VesAnyCall_handled:
  assumes "\<not> vs_stopping vs" "ve_initialized (vs_engine vs)" "vs_session vs = Some es" "es_initialized es" "\<not> es_closing es"
    "map_of (rev (registrations (vs_engine vs) (es_anyCallHandlers es))) (an_opcode request) = Some h"
    "h \<lparr>sc_opcode = an_opcode request, sc_priority = priority_of_u16 (an_priority request), sc_execTimeoutMs = 0,
        sc_payload = str_bytes (an_payload request)\<rparr> default_RpcReply = Some reply"
  shows "VesAnyCall env request vs ew = (Some (Ok, \<lparr>ay_status = rp_status reply, ay_payload = bytes_str (rp_payload reply)\<rparr>), vs, ew)"
proof -
  have "vs\<lparr>vs_session := Some es\<rparr> = vs" using assms(3) by (cases vs) simp
  then show ?thesis
    using assms by (simp add: VesAnyCall_def InvokeAnyCall_def EnsureServiceInitialized_skip InvokeAnyCallHandler_def any_call_handler Let_def)
qed

definition demo_any_request :: VesAnyCallRequest where
  "demo_any_request = \<lparr>an_opcode = 201, an_priority = 0, an_timeoutMs = 0,
     an_payload = bytes_str (le_bytes 4 (2 :: u32) @ le_bytes 4 (3 :: u32))\<rparr>"

definition demo_any_reply :: VesAnyCallReply where
  "demo_any_reply = \<lparr>ay_status = Ok, ay_payload = bytes_str (le_bytes 4 (5 :: u32))\<rparr>"

definition demo_ves :: VesService where
  "demo_ves = new_VesService\<lparr>vs_engine := InitializeEngine new_VesEngine,
     vs_session := Some (demo_service\<lparr>es_initialized := True, es_anyCallHandlers := es_registrars demo_service\<rparr>)\<rparr>"

lemma demo_any_call: "VesAnyCall env demo_any_request demo_ves ew = (Some (Ok, demo_any_reply), demo_ves, ew)"
proof -
  let ?es = "demo_service\<lparr>es_initialized := True, es_anyCallHandlers := es_registrars demo_service\<rparr>"
  let ?q = "\<lparr>aq_lhs = 2, aq_rhs = 3\<rparr>"
  have q: "EncodeAddRequest ?q = Some (le_bytes 4 (2 :: u32) @ le_bytes 4 (3 :: u32))"
    and r: "EncodeAddReply (Add ?q) = Some (le_bytes 4 (5 :: u32))"
    by (simp_all add: EncodeAddRequest_def EncodeAddReply_def Add_def AssignBytes_def writer_eqs)
  have dec: "DecodeMessage DecodeAddRequest (le_bytes 4 (2 :: u32) @ le_bytes 4 (3 :: u32)) = Some ?q"
    using add_request.decode_message [OF _ q] by simp
  have "VesAnyCall env demo_any_request demo_ves ew = (Some (Ok, \<lparr>ay_status = rp_status (default_RpcReply\<lparr>rp_payload := le_bytes 4 (5 :: u32)\<rparr>),
      ay_payload = bytes_str (rp_payload (default_RpcReply\<lparr>rp_payload := le_bytes 4 (5 :: u32)\<rparr>))\<rparr>), demo_ves, ew)"
  proof (rule VesAnyCall_handled [where es = ?es and h = "MakeVesTypedHandler DecodeAddRequest EncodeAddReply (Some \<circ> Add)"])
    show "MakeVesTypedHandler DecodeAddRequest EncodeAddReply (Some \<circ> Add)
      \<lparr>sc_opcode = an_opcode demo_any_request, sc_priority = priority_of_u16 (an_priority demo_any_request), sc_execTimeoutMs = 0,
        sc_payload = str_bytes (an_payload demo_any_request)\<rparr> default_RpcReply = Some (default_RpcReply\<lparr>rp_payload := le_bytes 4 (5 :: u32)\<rparr>)"
      using dec r by (simp add: MakeVesTypedHandler_def demo_any_request_def)
  qed (simp_all add: demo_ves_def new_VesService_def InitializeEngine_def new_VesEngine_def demo_any_request_def demo_registrations
      EngineRegisterHandlers_def RegisterCoreHandlers_def VesOpcode_ScanFile_def, simp_all add: demo_service_def new_EngineSession_def)
  then show ?thesis by (simp add: demo_any_reply_def default_RpcReply_def)
qed

theorem AnyCall_over_socket_witness:
  "\<exists>answer. ProxyAnyCall \<lparr>xc_fd = 9, xc_send = [1, 3, 1], xc_poll = True, xc_reply = answer, xc_message = None\<rparr>
     demo_any_request default_VesAnyCallReply = (Ok, demo_any_reply)"
proof -
  let ?wire = "frame 4 (EncodeAnyCallWire demo_any_request)"
  let ?ms = "new_MockServiceSocket\<lparr>ms_handler := True\<rparr>" and ?s = "(demo_ves, demo_engine_world)"
  obtain out closed ms' vs' ew' where turn: "AcceptTurn (OnRemoteRequest demo_engine_env) 5 (map (\<lambda>b. [b]) ?wire) [] True ?ms ?s =
      (out, closed, ms', (vs', ew'))" by (metis prod_cases4 surj_pair)
  let ?xc = "\<lparr>xc_fd = 9, xc_send = [1, 3, 1], xc_poll = True, xc_reply = (if reply_bytes out = [] then [] else [reply_bytes out]), xc_message = None\<rparr>"
  have len: "length (an_payload demo_any_request) = 8" "length (ay_payload demo_any_reply) = 4"
    by (simp_all add: demo_any_request_def demo_any_reply_def)
  obtain ok sent where sc: "SendCommand [1, 3, 1] 4 (EncodeAnyCallWire demo_any_request) = (ok, sent)" by (meson surj_pair)
  have ok: ok using sc len by (simp add: SendCommand_def SendAll.simps split: if_splits)
  then have sent: "concat (map (\<lambda>b. [b]) ?wire) = sent" using SendCommand_sent [OF sc] by simp
  obtain st rp where run: "ProxyAnyCall ?xc demo_any_request default_VesAnyCallReply = (st, rp)" by (meson surj_pair)
  have "SendCommand (xc_send ?xc) 4 (EncodeAnyCallWire demo_any_request) = (ok, sent)" "clean (xc_reply ?xc)"
    "concat (xc_reply ?xc) = reply_bytes out" "named_status (ay_status demo_any_reply)" "clean (map (\<lambda>b. [b]) ?wire)"
    using sc by (auto simp: demo_any_reply_def)
  from AnyCall_over_socket [OF this(1) _ this(5) sent demo_any_call this(4) _ turn _ this(2,3) run] len ok
  have "st = Ok \<and> rp = demo_any_reply" by simp
  with run show ?thesis by blast
qed

section \<open>Descriptors that an open leaves behind\<close>

lemma demo_host_creates:
  "\<exists>h s1. EnsureInitialized lp64_abi (MkHost default_config) demo_hostsys = (Ok, h, s1) \<and> hs_fds s1 = []"
proof -
  obtain st h s1 where en: "EnsureInitialized lp64_abi (MkHost default_config) demo_hostsys = (st, h, s1)" by (metis prod_cases3)
  then have "st = Ok" "hs_fds s1 = []" by (auto simp: host_eval default_config_def DEFAULT_RING_SIZE_def)
  with en show ?thesis by blast
qed

lemma FdsReply_open:
  assumes "AcceptTurn (OnRemoteRequest env) fd chunks rcs scm ms (vs, ew) = (FdsReply msg, closed, ms', (vs', ew'))"
  shows "\<exists>request handles. VesOpenSession env request MakeDefaultBootstrapHandles vs ew = (Ok, handles, vs', ew') \<and>
    msg = SendFds scm (handle_fds handles) (encode_metadata handles) \<and> closed = [] \<and> ms_client_fds ms' = ms_client_fds ms @ [fd]"
proof -
  obtain cmd data where r: "ReadRequest chunks = Some (cmd, data)"
    using assms by (auto simp: AcceptTurn_def split: option.splits)
  then obtain ok reply s1 where h: "OnRemoteRequest env (sint cmd) data (vs, ew) = (Some (ok, reply), s1)"
    using assms by (auto simp: AcceptTurn_def split: if_splits prod.splits option.splits)
  then have out: "ok" "mr_fds reply \<noteq> []" "msg = SendFds scm (mr_fds reply) (mr_data reply)" "s1 = (vs', ew')"
    "if mr_close_after_reply reply then closed = [fd] else closed = [] \<and> ms_client_fds ms' = ms_client_fds ms @ [fd]"
    using assms r by (auto simp: AcceptTurn_def Let_def split: if_splits prod.splits)
  have "sint cmd = 1"
  proof (rule ccontr)
    assume "sint cmd \<noteq> 1"
    with h out(1,2) show False
      by (auto simp: OnRemoteRequest_def HandleHeartbeat_def HandleAnyCall_def default_MockIpcReply_def
          split: if_splits prod.splits option.splits)
  qed
  then have "HandleOpenSession env data (vs, ew) = (Some (True, reply), (vs', ew'))"
    using h out by (simp add: OnRemoteRequest_def)
  then obtain request handles where "VesOpenSession env request MakeDefaultBootstrapHandles vs ew = (Ok, handles, vs', ew')"
    "reply = EncodeOpenSessionReply handles"
    by (auto simp: HandleOpenSession_def split: option.splits prod.splits if_splits)
  then show ?thesis using out by (auto simp: EncodeOpenSessionReply_def handle_fds_def)
qed

lemma VesOpenSession_Ok:
  assumes "VesOpenSession env request hs0 vs ew = (Ok, hs, vs', ew')"
  shows "\<exists>e es es'. vs_session vs = Some es \<and> vs_session vs' = Some es' \<and> vs_engine vs' = e \<and>
    ServiceOpenSession env e hs0 (bind_handlers e es) ew = (Ok, hs, es', ew')"
  using assms by (auto simp: VesOpenSession_def Let_def split: if_splits prod.splits option.splits)

text \<open>The first open of a new session service.\<close>

lemma fresh_open_inv:
  assumes "abi_ok (ee_abi env)" "registrations e registrars \<noteq> []"
    "ServiceOpenSession env e MakeDefaultBootstrapHandles (new_EngineSession registrars None) ew = (Ok, hs, es', ew')"
  shows "service_inv (opened (ew_sys ew)) \<lparr>sth_service = es', sth_world = ew', sth_closer = NoCloser, sth_out = open_fds hs\<rparr>"
    "es_initialized es'" "\<forall>d \<in> set (handle_fds hs). 0 \<le> d"
proof -
  let ?es = "new_EngineSession registrars None" and ?B = "opened (ew_sys ew)"
  obtain es1 ew1 where en: "EnsureServiceInitialized env e ?es ew = (Ok, es1, ew1)"
    "OpenLocked (ee_abi env) MakeDefaultBootstrapHandles es1 ew1 = (Ok, hs, es', ew')"
    using assms(3) by (auto simp: ServiceOpenSession_def split: prod.splits if_splits)
  have s0: "service_reachable (ee_abi env) ?B \<lparr>sth_service = ?es, sth_world = ew, sth_closer = NoCloser, sth_out = []\<rparr>"
    by (rule service_reachable.created) simp
  have "es_registrars ?es = registrars" by (simp add: new_EngineSession_def)
  with service_reachable.steps [OF s0 service_step.ensure [of env "ee_abi env" e]] assms(2) en(1)
  have "service_reachable (ee_abi env) ?B \<lparr>sth_service = es1, sth_world = ew1, sth_closer = NoCloser, sth_out = []\<rparr>" by simp
  from service_reachable.steps [OF this service_step.open_locked] en(2)
  have "service_reachable (ee_abi env) ?B \<lparr>sth_service = es', sth_world = ew', sth_closer = NoCloser, sth_out = open_fds hs\<rparr>" by simp
  from service_reachable_inv [OF this assms(1)]
  show "service_inv ?B \<lparr>sth_service = es', sth_world = ew', sth_closer = NoCloser, sth_out = open_fds hs\<rparr>" .
  have "es_host ?es = None" "\<not> es_initialized ?es" by (simp_all add: new_EngineSession_def)
  from EnsureServiceInitialized_Ok [OF assms(1) this en(1)] obtain h where h: "es_host es1 = Some h" "ho_initialized h" "es_initialized es1"
    by auto
  show "\<forall>d \<in> set (handle_fds hs). 0 \<le> d"
    using DuplicateHandles_opened(2) OpenLocked_Ok [OF en(2) h(1,2)] by blast
  show "es_initialized es'" using en(2) h
    by (auto simp: OpenLocked_def StartEventPublisherLocked_def Let_def split: prod.splits if_splits)
qed

text \<open>C35: Opening a session over the control socket leaves descriptors behind.  The stub puts duplicates of the six descriptors of the
  session into the reply and the socket sends them, which duplicates them again in the client; nothing closes the ones in the
  service.  So after the session is opened and closed again, a service that was just started has six descriptors more
  than before, and the connection itself stays open too, in the list that only the end of the service clears.\<close>

theorem control_open_leaks_descriptors:
  assumes "abi_ok (ee_abi env)" "OnStart env dir faults new_VesService ew0 = (vs, ew)"
    "AcceptTurn (OnRemoteRequest env) fd chunks rcs scm ms (vs, ew) = (FdsReply (Some (fds, data)), closed, ms', (vs', ew'))"
    "VesCloseSession env vs' ew' = (st, vs'', ew'')"
  shows "length fds = 6 \<and> (\<forall>d \<in> set fds. 0 \<le> d) \<and> opened (ew_sys ew'') = opened (ew_sys ew0) + mset fds \<and>
    closed = [] \<and> ms_client_fds ms' = ms_client_fds ms @ [fd]"
proof -
  obtain request hs where op: "VesOpenSession env request MakeDefaultBootstrapHandles vs ew = (Ok, hs, vs', ew')"
    and sent: "fds = handle_fds hs" "closed = []" "ms_client_fds ms' = ms_client_fds ms @ [fd]"
    using FdsReply_open [OF assms(3)] by (auto simp: SendFds_def split: if_splits)
  obtain e es es' where o: "vs_session vs = Some es" "vs_session vs' = Some es'"
    "ServiceOpenSession env e MakeDefaultBootstrapHandles (bind_handlers e es) ew = (Ok, hs, es', ew')"
    using VesOpenSession_Ok [OF op] by blast
  let ?k = "SetFaultInjectionEnabled (EnvFlagEnabled faults) (vs_testkit new_VesService)"
  let ?rs = "[EngineRegisterHandlers, \<lambda>e. TestkitRegisterHandlers ?k]"
  have start: "bind_handlers e es = new_EngineSession ?rs None" "opened (ew_sys ew) = opened (ew_sys ew0)"
    using assms(2) o(1) by (auto simp: OnStart_def new_VesService_def bind_handlers_def new_EngineSession_def Let_def)
  have "registrations e ?rs \<noteq> []" by (simp add: registrations_def EngineRegisterHandlers_def)
  note inv = fresh_open_inv [OF assms(1) this o(3) [unfolded start(1)]]
  from service_inv_close [OF inv(1), of env] inv(2) have "opened (ew_sys ew'') = opened (ew_sys ew0) + mset (open_fds hs)"
    using assms(4) o(2) start(2) by (auto simp: VesCloseSession_def split: prod.splits)
  moreover have "open_fds hs = handle_fds hs" using inv(3) by (simp add: open_fds_def)
  ultimately show ?thesis using sent inv(3) by (simp add: handle_fds_def)
qed

definition demo_dir :: string where
  "demo_dir = ''/tmp/memrpc''"

definition demo_started :: ServiceState where
  "demo_started = OnStart demo_engine_env demo_dir None new_VesService demo_engine_world"

lemma demo_open_request: "EncodeVesOpenSessionRequest DefaultVesOpenSessionRequest = Some (le_bytes 4 (1 :: u32) @ le_bytes 4 (0 :: u32))"
  by (simp add: encoded_open_session DefaultVesOpenSessionRequest_def VES_OPEN_SESSION_REQUEST_VERSION_def)

lemma demo_decoded:
  "DecodeOpenSessionRequest (le_bytes 4 (1 :: u32) @ le_bytes 4 (0 :: u32)) = Some DefaultVesOpenSessionRequest"
proof -
  have "DecodeMessage DecodeVesOpenSessionRequest (le_bytes 4 (1 :: u32) @ le_bytes 4 (0 :: u32)) = Some DefaultVesOpenSessionRequest"
    using open_session.decode_message [OF _ demo_open_request]
    by (simp add: DefaultVesOpenSessionRequest_def VES_OPEN_SESSION_MAX_ENGINE_KINDS_def)
  then show ?thesis
    by (simp add: DecodeOpenSessionRequest_def IsValidVesOpenSessionRequest_def DefaultVesOpenSessionRequest_def)
qed

lemma demo_started_opens:
  "\<exists>hs vs ew. VesOpenSession demo_engine_env DefaultVesOpenSessionRequest hs0 (fst demo_started) (snd demo_started) = (Ok, hs, vs, ew)"
proof -
  let ?k = "SetFaultInjectionEnabled (EnvFlagEnabled None) (vs_testkit new_VesService)"
  let ?es = "new_EngineSession [EngineRegisterHandlers, \<lambda>e. TestkitRegisterHandlers ?k] None"
  obtain h s1 where en: "EnsureInitialized lp64_abi (MkHost default_config) demo_hostsys = (Ok, h, s1)" "hs_fds s1 = []"
    using demo_host_creates by blast
  have vs: "\<not> vs_stopping (fst demo_started)" "vs_session (fst demo_started) = Some ?es" "ew_sys (snd demo_started) = demo_hostsys"
    by (simp_all add: demo_started_def OnStart_def new_VesService_def demo_engine_world_def Let_def)
  obtain e where c: "ConfigureEngines DefaultVesOpenSessionRequest (vs_engine (fst demo_started)) = (Ok, e)"
    by (simp add: demo_started_def OnStart_def new_VesService_def ConfigureEngines_def IsValidVesOpenSessionRequest_def
        DefaultVesOpenSessionRequest_def new_VesEngine_def InitializeEngine_def SetEventPublisher_def Let_def)
  have "\<exists>hs es ew. ServiceOpenSession demo_engine_env e hs0 ?es (snd demo_started) = (Ok, hs, es, ew)"
    using en vs(3)
    by (intro service_opens) (simp_all add: demo_engine_env_def lp64_ok new_EngineSession_def registrations_def EngineRegisterHandlers_def
        demo_env_def demo_lock_def LockSharedMutex_def)
  moreover have "bind_handlers e ?es = ?es" by (simp add: bind_handlers_def new_EngineSession_def)
  ultimately show ?thesis using vs c by (auto simp: VesOpenSession_def Let_def)
qed

theorem control_open_leaks_descriptors_witness:
  "\<exists>fds data closed ms' vs' ew'. AcceptTurn (OnRemoteRequest demo_engine_env) 9 [frame 1 (le_bytes 4 (1 :: u32) @ le_bytes 4 (0 :: u32))] [] True
       (new_MockServiceSocket\<lparr>ms_handler := True\<rparr>) demo_started = (FdsReply (Some (fds, data)), closed, ms', (vs', ew')) \<and>
     opened (ew_sys (snd (snd (VesCloseSession demo_engine_env vs' ew')))) = {#0, 1, 2#} + mset fds \<and> length fds = 6"
proof -
  let ?ms = "new_MockServiceSocket\<lparr>ms_handler := True\<rparr>" and ?data = "le_bytes 4 (1 :: u32) @ le_bytes 4 (0 :: u32)"
  obtain hs vs' ew' where op: "VesOpenSession demo_engine_env DefaultVesOpenSessionRequest MakeDefaultBootstrapHandles
      (fst demo_started) (snd demo_started) = (Ok, hs, vs', ew')" using demo_started_opens by blast
  have r: "ReadRequest [frame 1 ?data] = Some (1, ?data)" by (rule ReadRequest_frame [where extra = "[]"]) (simp_all add: frame_def)
  have turn: "AcceptTurn (OnRemoteRequest demo_engine_env) 9 [frame 1 ?data] [] True ?ms (fst demo_started, snd demo_started) =
      (FdsReply (Some (handle_fds hs, encode_metadata hs)), [], ?ms\<lparr>ms_client_fds := [9]\<rparr>, (vs', ew'))"
    by (simp add: AcceptTurn_def r OnRemoteRequest_def HandleOpenSession_def demo_decoded op EncodeOpenSessionReply_def SendFds_def
        new_MockServiceSocket_def handle_fds_def encode_metadata_def Let_def)
  obtain st vs2 ew2 where cl: "VesCloseSession demo_engine_env vs' ew' = (st, vs2, ew2)" by (metis prod_cases3)
  have "OnStart demo_engine_env demo_dir None new_VesService demo_engine_world = (fst demo_started, snd demo_started)"
    "abi_ok (ee_abi demo_engine_env)" "opened (ew_sys demo_engine_world) = {#0, 1, 2#}"
    by (simp_all add: demo_started_def demo_engine_env_def lp64_ok demo_engine_world_def demo_hostsys_def)
  with control_open_leaks_descriptors [OF this(2,1) turn cl]
  have "length (handle_fds hs) = 6" "opened (ew_sys ew2) = {#0, 1, 2#} + mset (handle_fds hs)" by simp_all
  with turn show ?thesis by (simp add: cl)
qed

end
