(* ===== verification/Ves_Channel.thy ===== *)
theory Ves_Channel
  imports Ves_Control
begin

text \<open>
  \<^verbatim>\<open>VesBootstrapChannel\<close> (\<^verbatim>\<open>ves_control_proxy.cpp\<close>): the channel through which the RPC client opens sessions.  It loads a
  control object, watches it with a death recipient, replaces it when it died, and gives up for good when none can be loaded.  The
  loader, the access policy and the control objects are the script \<open>ChannelWorld\<close>.
\<close>

section \<open>ves_control_proxy.cpp: the bootstrap channel\<close>

text \<open>A control object has a remote object, named by a number, or none.\<close>

record Control =
  co_name :: nat
  co_object :: "nat option"

text \<open>What the channel gets from outside: the answers of the access policy (allowed when the list ends), the controls that the loader returns
  (none when it ends), whether a remote object is dead, and the results of \<^verbatim>\<open>OpenSession\<close> of the controls.  \<open>cw_loaded\<close> counts the
  calls of the loader and \<open>cw_opened\<close> lists the calls of \<^verbatim>\<open>OpenSession\<close>.\<close>

record ChannelWorld =
  cw_access :: "bool list"
  cw_loads :: "Control option list"
  cw_dead :: "bool list"
  cw_opens :: "(StatusCode \<times> BootstrapHandles) list"
  cw_loaded :: nat
  cw_opened :: "(Control \<times> StatusCode \<times> BootstrapHandles) list"

record Channel =
  bc_control :: "Control option"
  bc_recipients :: "nat list"
  bc_deathRecipient :: bool
  bc_deathCallback :: bool
  bc_sessionId :: u64
  bc_openSessionRequest :: VesOpenSessionRequest
  bc_fatalControlLoadFailure :: bool

definition new_Channel :: "VesOpenSessionRequest \<Rightarrow> Channel" where
  "new_Channel request =
     \<lparr>bc_control = None, bc_recipients = [], bc_deathRecipient = True, bc_deathCallback = False, bc_sessionId = 0,
      bc_openSessionRequest = request\<lparr>os_engineKinds := NormalizeVesEngineKinds (os_engineKinds request)\<rparr>,
      bc_fatalControlLoadFailure = False\<rparr>"

definition AccessAllowedLocked :: "ChannelWorld \<Rightarrow> bool \<times> ChannelWorld" where
  "AccessAllowedLocked w = (case cw_access w of [] \<Rightarrow> (True, w) | b # bs \<Rightarrow> (b, w\<lparr>cw_access := bs\<rparr>))"

definition controlLoader :: "ChannelWorld \<Rightarrow> Control option \<times> ChannelWorld" where
  "controlLoader w =
     (case cw_loads w of [] \<Rightarrow> (None, w\<lparr>cw_loaded := Suc (cw_loaded w)\<rparr>) | c # cs \<Rightarrow> (c, w\<lparr>cw_loads := cs, cw_loaded := Suc (cw_loaded w)\<rparr>))"

definition IsDeadRemoteObject :: "Control option \<Rightarrow> ChannelWorld \<Rightarrow> bool \<times> ChannelWorld" where
  "IsDeadRemoteObject control w =
     (case control of
        None \<Rightarrow> (False, w)
      | Some c \<Rightarrow> if co_object c = None then (False, w)
          else case cw_dead w of [] \<Rightarrow> (False, w) | b # bs \<Rightarrow> (b, w\<lparr>cw_dead := bs\<rparr>))"

definition control_open :: "Control \<Rightarrow> ChannelWorld \<Rightarrow> (StatusCode \<times> BootstrapHandles) \<times> ChannelWorld" where
  "control_open c w =
     (let r = (case cw_opens w of [] \<Rightarrow> (PeerDisconnected, MakeDefaultBootstrapHandles) | r # rs \<Rightarrow> r)
      in (r, w\<lparr>cw_opens := tl (cw_opens w), cw_opened := cw_opened w @ [(c, r)]\<rparr>))"

definition ShouldRetryOpenSessionAfterRefresh :: "StatusCode \<Rightarrow> bool" where
  "ShouldRetryOpenSessionAfterRefresh status \<longleftrightarrow> status = PeerDisconnected \<or> status = CrashedDuringExecution"

definition object_of_control :: "Control option \<Rightarrow> nat option" where
  "object_of_control control = Option.bind control co_object"

definition RebindControlLocked :: "Control option \<Rightarrow> Channel \<Rightarrow> Channel" where
  "RebindControlLocked nextControl bc =
     (let previousObject = object_of_control (bc_control bc); nextObject = object_of_control nextControl;
          removed = (case previousObject of
            Some obj \<Rightarrow> if bc_deathRecipient bc \<and> previousObject \<noteq> nextObject then removeAll obj (bc_recipients bc) else bc_recipients bc
          | None \<Rightarrow> bc_recipients bc);
          added = (case nextObject of
            Some obj \<Rightarrow> if bc_deathRecipient bc \<and> nextObject \<noteq> previousObject then removed @ [obj] else removed
          | None \<Rightarrow> removed)
      in bc\<lparr>bc_control := nextControl, bc_recipients := added\<rparr>)"

definition RefreshControlLocked :: "Channel \<Rightarrow> ChannelWorld \<Rightarrow> Control option \<times> Channel \<times> ChannelWorld" where
  "RefreshControlLocked bc w =
     (case AccessAllowedLocked w of (allowed, w1) \<Rightarrow>
      if \<not> allowed then (None, bc, w1)
      else if bc_fatalControlLoadFailure bc then (None, bc, w1)
      else case controlLoader w1 of
        (Some c, w2) \<Rightarrow> (Some c, RebindControlLocked (Some c) bc, w2)
      | (None, w2) \<Rightarrow> (None, (RebindControlLocked None bc)\<lparr>bc_fatalControlLoadFailure := True\<rparr>, w2))"

definition EnsureControlBoundLocked :: "Channel \<Rightarrow> ChannelWorld \<Rightarrow> Control option \<times> Channel \<times> ChannelWorld" where
  "EnsureControlBoundLocked bc w =
     (case AccessAllowedLocked w of (allowed, w1) \<Rightarrow>
      if \<not> allowed then (None, (RebindControlLocked None bc)\<lparr>bc_sessionId := 0\<rparr>, w1)
      else if bc_control bc \<noteq> None then (bc_control bc, bc, w1)
      else RefreshControlLocked bc w1)"

definition LoadOpenSessionControl :: "Channel \<Rightarrow> ChannelWorld \<Rightarrow> Control option \<times> bool \<times> Channel \<times> ChannelWorld" where
  "LoadOpenSessionControl bc w =
     (case EnsureControlBoundLocked bc w of (control, bc1, w1) \<Rightarrow>
      case IsDeadRemoteObject control w1 of (dead, w2) \<Rightarrow>
      if dead then (case RefreshControlLocked bc1 w2 of (control1, bc2, w3) \<Rightarrow> (control1, True, bc2, w3))
      else (control, False, bc1, w2))"

definition RetryOpenSessionAfterRefresh ::
  "StatusCode \<Rightarrow> Channel \<Rightarrow> ChannelWorld \<Rightarrow> StatusCode \<times> BootstrapHandles \<times> Channel \<times> ChannelWorld" where
  "RetryOpenSessionAfterRefresh initialStatus bc w =
     (case RefreshControlLocked bc w of
        (None, bc1, w1) \<Rightarrow>
          (if bc_fatalControlLoadFailure bc1 then ClientClosed else initialStatus, MakeDefaultBootstrapHandles, bc1, w1)
      | (Some c, bc1, w1) \<Rightarrow>
          (case control_open c w1 of ((status, handles), w2) \<Rightarrow>
           (status, handles, if status = Ok then bc1\<lparr>bc_sessionId := bh_sessionId handles\<rparr> else bc1, w2)))"

definition ChannelOpenSession :: "Channel \<Rightarrow> ChannelWorld \<Rightarrow> StatusCode \<times> BootstrapHandles \<times> Channel \<times> ChannelWorld" where
  "ChannelOpenSession bc w =
     (case AccessAllowedLocked w of (allowed, w1) \<Rightarrow>
      if \<not> allowed then (PeerDisconnected, MakeDefaultBootstrapHandles, bc, w1)
      else case LoadOpenSessionControl bc w1 of
        (None, dead, bc1, w2) \<Rightarrow>
          (if bc_fatalControlLoadFailure bc1 then ClientClosed else if dead then PeerDisconnected else InvalidArgument,
           MakeDefaultBootstrapHandles, bc1, w2)
      | (Some c, deadBeforeOpen, bc1, w2) \<Rightarrow>
          (case (if deadBeforeOpen then IsDeadRemoteObject (Some c) w2 else (False, w2)) of (dead, w3) \<Rightarrow>
           if dead then (PeerDisconnected, MakeDefaultBootstrapHandles, bc1, w3)
           else case control_open c w3 of ((status, handles), w4) \<Rightarrow>
             if status = Ok then (Ok, handles, bc1\<lparr>bc_sessionId := bh_sessionId handles\<rparr>, w4)
             else if \<not> ShouldRetryOpenSessionAfterRefresh status then (status, handles, bc1, w4)
             else RetryOpenSessionAfterRefresh status bc1 w4))"

text \<open>\<open>answer\<close> is the result of \<^verbatim>\<open>CloseSession\<close> of the control.\<close>

definition ChannelCloseSession :: "StatusCode \<Rightarrow> Channel \<Rightarrow> ChannelWorld \<Rightarrow> StatusCode \<times> Channel \<times> ChannelWorld" where
  "ChannelCloseSession answer bc w =
     (case AccessAllowedLocked w of (allowed, w1) \<Rightarrow>
      let bc1 = (RebindControlLocked None bc)\<lparr>bc_sessionId := 0\<rparr>
      in if \<not> allowed \<or> bc_control bc = None then (Ok, bc1, w1) else (answer, bc1, w1))"

text \<open>\<open>heartbeat\<close> is the result of \<^verbatim>\<open>Heartbeat\<close> of the control.\<close>

definition ChannelCheckHealth ::
  "u64 \<Rightarrow> StatusCode \<times> VesHeartbeatReply \<Rightarrow> Channel \<Rightarrow> ChannelWorld \<Rightarrow> ChannelHealthResult \<times> ChannelWorld" where
  "ChannelCheckHealth expectedSessionId heartbeat bc w =
     (case AccessAllowedLocked w of (allowed, w1) \<Rightarrow>
      if \<not> allowed then
        (\<lparr>ch_status = (if bc_sessionId bc \<noteq> 0 then HealthUnhealthy else HealthHealthy), ch_sessionId = bc_sessionId bc\<rparr>, w1)
      else if bc_control bc = None then
        (if bc_sessionId bc \<noteq> 0 then \<lparr>ch_status = HealthUnhealthy, ch_sessionId = bc_sessionId bc\<rparr> else default_ChannelHealthResult, w1)
      else case IsDeadRemoteObject (bc_control bc) w1 of (dead, w2) \<Rightarrow>
        if dead then (\<lparr>ch_status = HealthUnhealthy, ch_sessionId = bc_sessionId bc\<rparr>, w2)
        else (if fst heartbeat = Ok then ToHealthResult (snd heartbeat) expectedSessionId
              else if fst heartbeat = ProtocolMismatch then \<lparr>ch_status = HealthMalformed, ch_sessionId = 0\<rparr>
              else \<lparr>ch_status = HealthTimeout, ch_sessionId = 0\<rparr>, w2))"

definition CurrentControl :: "Channel \<Rightarrow> ChannelWorld \<Rightarrow> Control option \<times> Channel \<times> ChannelWorld" where
  "CurrentControl bc w =
     (case AccessAllowedLocked w of (allowed, w1) \<Rightarrow>
      if \<not> allowed then (None, (RebindControlLocked None bc)\<lparr>bc_sessionId := 0\<rparr>, w1)
      else EnsureControlBoundLocked bc w1)"

definition ChannelSetEngineDeathCallback :: "bool \<Rightarrow> Channel \<Rightarrow> Channel" where
  "ChannelSetEngineDeathCallback callback bc = bc\<lparr>bc_deathCallback := callback\<rparr>"

text \<open>The result is the session reported to the callback.\<close>

definition HandleRemoteDied :: "Channel \<Rightarrow> u64 option \<times> Channel" where
  "HandleRemoteDied bc =
     (if bc_deathCallback bc then Some (bc_sessionId bc) else None, RebindControlLocked None bc)"

definition ChannelShutdown :: "Channel \<Rightarrow> Channel" where
  "ChannelShutdown bc = (RebindControlLocked None (bc\<lparr>bc_deathCallback := False\<rparr>))\<lparr>bc_sessionId := 0\<rparr>"

section \<open>What the channel guarantees\<close>

datatype ChannelOp =
  ChOpenSession | ChCloseSession StatusCode | ChCheckHealth u64 "StatusCode \<times> VesHeartbeatReply" | ChCurrentControl
  | ChRemoteDied | ChSetDeathCallback bool | ChShutdown

fun channel_op :: "ChannelOp \<Rightarrow> Channel \<times> ChannelWorld \<Rightarrow> Channel \<times> ChannelWorld" where
  "channel_op ChOpenSession (bc, w) = snd (snd (ChannelOpenSession bc w))"
| "channel_op (ChCloseSession answer) (bc, w) = snd (ChannelCloseSession answer bc w)"
| "channel_op (ChCheckHealth expected heartbeat) (bc, w) = (bc, snd (ChannelCheckHealth expected heartbeat bc w))"
| "channel_op ChCurrentControl (bc, w) = snd (CurrentControl bc w)"
| "channel_op ChRemoteDied (bc, w) = (snd (HandleRemoteDied bc), w)"
| "channel_op (ChSetDeathCallback callback) (bc, w) = (ChannelSetEngineDeathCallback callback bc, w)"
| "channel_op ChShutdown (bc, w) = (ChannelShutdown bc, w)"

text \<open>The death recipient is registered at the object of the current control and nowhere else.\<close>

definition channel_inv :: "Channel \<Rightarrow> bool" where
  "channel_inv bc \<longleftrightarrow> bc_deathRecipient bc \<and>
     bc_recipients bc = (case object_of_control (bc_control bc) of None \<Rightarrow> [] | Some obj \<Rightarrow> [obj]) \<and>
     (bc_fatalControlLoadFailure bc \<longrightarrow> bc_control bc = None)"

text \<open>Nothing was loaded and no session opened.\<close>

definition quiet :: "ChannelWorld \<Rightarrow> ChannelWorld \<Rightarrow> bool" where
  "quiet w w' \<longleftrightarrow> cw_loaded w' = cw_loaded w \<and> cw_opened w' = cw_opened w"

lemma quiet_refl [simp]: "quiet w w"
  by (simp add: quiet_def)

lemma quiet_trans: "quiet w w' \<Longrightarrow> quiet w' w'' \<Longrightarrow> quiet w w''"
  by (simp add: quiet_def)

lemma quiet_asks [simp]:
  "AccessAllowedLocked w = (b, w') \<Longrightarrow> quiet w w'" "IsDeadRemoteObject c w = (b, w') \<Longrightarrow> quiet w w'"
  by (auto simp: AccessAllowedLocked_def IsDeadRemoteObject_def quiet_def split: list.splits option.splits if_splits)

lemma Rebind_inv:
  assumes "channel_inv bc"
  shows "channel_inv (RebindControlLocked None bc)" "bc_control (RebindControlLocked c bc) = c"
    "\<not> bc_fatalControlLoadFailure bc \<Longrightarrow> channel_inv (RebindControlLocked c bc)"
    "bc_fatalControlLoadFailure (RebindControlLocked c bc) = bc_fatalControlLoadFailure bc"
  using assms
  by (auto simp: channel_inv_def RebindControlLocked_def object_of_control_def Let_def split: option.splits)

lemma fields_inv [simp]:
  "channel_inv (bc\<lparr>bc_sessionId := sid\<rparr>) = channel_inv bc" "channel_inv (bc\<lparr>bc_deathCallback := b\<rparr>) = channel_inv bc"
  by (simp_all add: channel_inv_def)

text \<open>One step of the channel's internals: the invariant, the permanence of the failure, and that after it nothing is asked.\<close>

definition channel_progress :: "Channel \<times> ChannelWorld \<Rightarrow> Channel \<times> ChannelWorld \<Rightarrow> bool" where
  "channel_progress s s' \<longleftrightarrow> channel_inv (fst s') \<and>
     (bc_fatalControlLoadFailure (fst s) \<longrightarrow> bc_fatalControlLoadFailure (fst s') \<and> quiet (snd s) (snd s'))"

lemma Refresh_progress:
  assumes "channel_inv bc" "RefreshControlLocked bc w = (c, bc', w')"
  shows "channel_progress (bc, w) (bc', w')" "cw_opened w' = cw_opened w" "c \<noteq> None \<Longrightarrow> \<not> bc_fatalControlLoadFailure bc \<and> bc_control bc' = c"
proof -
  obtain allowed w1 where a: "AccessAllowedLocked w = (allowed, w1)" by (meson surj_pair)
  obtain lc w2 where l: "controlLoader w1 = (lc, w2)" by (meson surj_pair)
  have q: "quiet w w1" "cw_opened w2 = cw_opened w1"
    using a l by (auto simp: controlLoader_def split: list.splits)
  have fatal: "channel_inv ((RebindControlLocked None bc)\<lparr>bc_fatalControlLoadFailure := True\<rparr>)"
    using Rebind_inv(1,2) [OF assms(1)] by (simp add: channel_inv_def)
  show "channel_progress (bc, w) (bc', w')" "cw_opened w' = cw_opened w" "c \<noteq> None \<Longrightarrow> \<not> bc_fatalControlLoadFailure bc \<and> bc_control bc' = c"
    using assms q fatal Rebind_inv(2,3) [OF assms(1)]
    by (auto simp: RefreshControlLocked_def a l channel_progress_def quiet_def split: if_splits option.splits)
qed

lemma Ensure_progress:
  assumes "channel_inv bc" "EnsureControlBoundLocked bc w = (c, bc', w')"
  shows "channel_progress (bc, w) (bc', w')" "cw_opened w' = cw_opened w" "c \<noteq> None \<Longrightarrow> \<not> bc_fatalControlLoadFailure bc \<and> bc_control bc' = c"
proof -
  obtain allowed w1 where a: "AccessAllowedLocked w = (allowed, w1)" by (meson surj_pair)
  have q: "quiet w w1" using a by simp
  consider "\<not> allowed" | "allowed" "bc_control bc \<noteq> None" | "allowed" "bc_control bc = None" by blast
  then have "channel_progress (bc, w) (bc', w') \<and> cw_opened w' = cw_opened w \<and> (c \<noteq> None \<longrightarrow> \<not> bc_fatalControlLoadFailure bc \<and> bc_control bc' = c)"
  proof cases
    case 1
    with assms q Rebind_inv [OF assms(1)] show ?thesis by (auto simp: EnsureControlBoundLocked_def a channel_progress_def quiet_def)
  next
    case 2
    with assms q show ?thesis by (auto simp: EnsureControlBoundLocked_def a channel_progress_def quiet_def channel_inv_def)
  next
    case 3
    then have "RefreshControlLocked bc w1 = (c, bc', w')" using assms(2) by (simp add: EnsureControlBoundLocked_def a)
    from Refresh_progress [OF assms(1) this] q show ?thesis by (auto simp: channel_progress_def quiet_def)
  qed
  then show "channel_progress (bc, w) (bc', w')" "cw_opened w' = cw_opened w" "c \<noteq> None \<Longrightarrow> \<not> bc_fatalControlLoadFailure bc \<and> bc_control bc' = c"
    by blast+
qed

lemma Load_progress:
  assumes "channel_inv bc" "LoadOpenSessionControl bc w = (c, dead, bc', w')"
  shows "channel_progress (bc, w) (bc', w')" "cw_opened w' = cw_opened w" "c \<noteq> None \<Longrightarrow> \<not> bc_fatalControlLoadFailure bc \<and> bc_control bc' = c"
proof -
  obtain c1 bc1 w1 where e: "EnsureControlBoundLocked bc w = (c1, bc1, w1)" by (metis prod_cases3)
  obtain d w2 where d: "IsDeadRemoteObject c1 w1 = (d, w2)" by (meson surj_pair)
  obtain c3 bc3 w3 where r: "RefreshControlLocked bc1 w2 = (c3, bc3, w3)" by (metis prod_cases3)
  note en = Ensure_progress [OF assms(1) e] and q = quiet_asks(2) [OF d]
  have inv: "channel_inv bc1" using en(1) by (simp add: channel_progress_def)
  note re = Refresh_progress [OF inv r]
  have "(c, dead, bc', w') = (if d then (c3, True, bc3, w3) else (c1, False, bc1, w2))"
    using assms(2) by (auto simp: LoadOpenSessionControl_def e d r)
  then show "channel_progress (bc, w) (bc', w')" "cw_opened w' = cw_opened w" "c \<noteq> None \<Longrightarrow> \<not> bc_fatalControlLoadFailure bc \<and> bc_control bc' = c"
    using en re q by (auto simp: channel_progress_def quiet_def split: if_splits)
qed

text \<open>The calls of \<^verbatim>\<open>OpenSession\<close> that an operation makes, and where a successful one leaves the channel.\<close>

definition opens_at_most :: "nat \<Rightarrow> StatusCode \<Rightarrow> BootstrapHandles \<Rightarrow> ChannelWorld \<Rightarrow> Channel \<Rightarrow> ChannelWorld \<Rightarrow> bool" where
  "opens_at_most n status handles w bc' w' \<longleftrightarrow>
     (\<exists>calls. cw_opened w' = cw_opened w @ calls \<and> length calls \<le> n \<and>
        (status = Ok \<longrightarrow> bc_sessionId bc' = bh_sessionId handles \<and> calls \<noteq> [] \<and>
           (\<exists>c. last calls = (c, Ok, handles) \<and> bc_control bc' = Some c)))"

lemma Retry_result:
  assumes "channel_inv bc" "\<not> bc_fatalControlLoadFailure bc" "initial \<noteq> Ok"
    "RetryOpenSessionAfterRefresh initial bc w = (status, handles, bc', w')"
  shows "channel_inv bc' \<and> opens_at_most 1 status handles w bc' w'"
proof -
  obtain c bc1 w1 where r: "RefreshControlLocked bc w = (c, bc1, w1)" by (metis prod_cases3)
  note re = Refresh_progress [OF assms(1) r]
  have inv: "channel_inv bc1" using re(1) by (simp add: channel_progress_def)
  show ?thesis
  proof (cases c)
    case None
    with assms(3,4) r re inv show ?thesis
      by (auto simp: RetryOpenSessionAfterRefresh_def opens_at_most_def split: if_splits)
  next
    case (Some k)
    obtain st hs w2 where o: "control_open k w1 = ((st, hs), w2)" by (metis prod.exhaust)
    then have "cw_opened w2 = cw_opened w1 @ [(k, st, hs)]" by (auto simp: control_open_def Let_def)
    with assms(4) Some r o re inv show ?thesis
      by (auto simp: RetryOpenSessionAfterRefresh_def opens_at_most_def intro!: exI [of _ "[(k, st, hs)]"] split: if_splits)
  qed
qed

lemma Open_result:
  assumes "channel_inv bc" "ChannelOpenSession bc w = (status, handles, bc', w')"
  shows "channel_progress (bc, w) (bc', w') \<and> opens_at_most 2 status handles w bc' w'"
proof -
  obtain allowed w1 where a: "AccessAllowedLocked w = (allowed, w1)" by (meson surj_pair)
  obtain c dead bc1 w2 where l: "LoadOpenSessionControl bc w1 = (c, dead, bc1, w2)" by (metis prod_cases4)
  note q = quiet_asks(1) [OF a] and lo = Load_progress [OF assms(1) l]
  have inv: "channel_inv bc1" using lo(1) by (simp add: channel_progress_def)
  show ?thesis
  proof (cases "allowed \<and> c \<noteq> None")
    case False
    then show ?thesis using assms q lo
      by (auto simp: ChannelOpenSession_def a l channel_progress_def quiet_def opens_at_most_def split: if_splits)
  next
    case True
    then obtain k where k: "c = Some k" "\<not> bc_fatalControlLoadFailure bc" "bc_control bc1 = Some k" using lo(3) by auto
    then have nf: "\<not> bc_fatalControlLoadFailure bc1" using inv by (auto simp: channel_inv_def)
    obtain d w3 where d: "(if dead then IsDeadRemoteObject (Some k) w2 else (False, w2)) = (d, w3)" by (meson surj_pair)
    have w3: "cw_opened w3 = cw_opened w" using d q lo(2) quiet_asks(2) [of "Some k" w2] by (auto simp: quiet_def split: if_splits)
    obtain st hs w4 where o: "control_open k w3 = ((st, hs), w4)" by (metis prod.exhaust)
    then have w4: "cw_opened w4 = cw_opened w @ [(k, st, hs)]" using w3 by (auto simp: control_open_def Let_def)
    obtain st2 hs2 bc2 w5 where re: "RetryOpenSessionAfterRefresh st bc1 w4 = (st2, hs2, bc2, w5)" by (metis prod_cases4)
    have run: "(status, handles, bc', w') = (if d then (PeerDisconnected, MakeDefaultBootstrapHandles, bc1, w3)
        else if st = Ok then (Ok, hs, bc1\<lparr>bc_sessionId := bh_sessionId hs\<rparr>, w4)
        else if \<not> ShouldRetryOpenSessionAfterRefresh st then (st, hs, bc1, w4) else (st2, hs2, bc2, w5))"
      using assms(2) True k(1) by (simp add: ChannelOpenSession_def a l d o re cong: if_cong)
    have "channel_inv bc' \<and> opens_at_most 2 status handles w bc' w'"
    proof (cases "d \<or> st = Ok \<or> \<not> ShouldRetryOpenSessionAfterRefresh st")
      case True
      with run inv k w3 w4 show ?thesis
        by (auto simp: opens_at_most_def split: if_splits intro: exI [of _ "[]"] exI [of _ "[(k, st, hs)]"])
    next
      case False
      from Retry_result [OF inv nf _ re] False run w4 show ?thesis
        by (auto simp: opens_at_most_def intro: exI [of _ "(k, st, hs) # calls" for calls])
    qed
    with k(2) show ?thesis by (simp add: channel_progress_def)
  qed
qed

lemma channel_op_progress:
  assumes "channel_inv (fst s)"
  shows "channel_progress s (channel_op opr s)"
proof -
  obtain bc w where s: "s = (bc, w)" by (meson surj_pair)
  with assms have inv: "channel_inv bc" by simp
  note rebind = Rebind_inv(1,4) [OF inv]
  have ask: "quiet w (snd (AccessAllowedLocked w))" by (metis prod.collapse quiet_asks(1))
  show ?thesis
  proof (cases opr)
    case ChOpenSession
    then show ?thesis using Open_result [OF inv, of w] by (cases "ChannelOpenSession bc w") (auto simp: s)
  next
    case (ChCloseSession answer)
    then show ?thesis using rebind ask
      by (auto simp: s ChannelCloseSession_def channel_progress_def Let_def split: prod.splits)
  next
    case (ChCheckHealth expected heartbeat)
    have "quiet w (snd (ChannelCheckHealth expected heartbeat bc w))"
      using quiet_asks(1) [of w] quiet_asks(2) [of "bc_control bc"]
      by (fastforce simp: ChannelCheckHealth_def quiet_def split: prod.splits)
    then show ?thesis using inv ChCheckHealth by (simp add: s channel_progress_def)
  next
    case ChCurrentControl
    obtain allowed w1 where a: "AccessAllowedLocked w = (allowed, w1)" by (meson surj_pair)
    obtain c bc2 w2 where e: "EnsureControlBoundLocked bc w1 = (c, bc2, w2)" by (metis prod_cases3)
    show ?thesis
      using ChCurrentControl rebind quiet_asks(1) [OF a] Ensure_progress(1) [OF inv e]
      by (auto simp: s CurrentControl_def a e channel_progress_def quiet_def)
  next
    case ChRemoteDied
    then show ?thesis using rebind by (simp add: s HandleRemoteDied_def channel_progress_def)
  next
    case (ChSetDeathCallback callback)
    then show ?thesis using inv by (simp add: s ChannelSetEngineDeathCallback_def channel_progress_def)
  next
    case ChShutdown
    have "channel_inv (bc\<lparr>bc_deathCallback := False\<rparr>)" using inv by simp
    from Rebind_inv(1,4) [OF this] ChShutdown show ?thesis by (simp add: s ChannelShutdown_def channel_progress_def)
  qed
qed

lemma channel_ops_progress: "channel_inv (fst s) \<Longrightarrow> channel_progress s (fold channel_op ops s)"
proof (induction ops arbitrary: s)
  case Nil
  then show ?case by (simp add: channel_progress_def)
next
  case (Cons opr ops)
  have p: "channel_progress s (channel_op opr s)" using channel_op_progress [OF Cons.prems] .
  then have "channel_inv (fst (channel_op opr s))" by (simp add: channel_progress_def)
  with p Cons.IH [OF this] show ?case by (auto simp: channel_progress_def intro: quiet_trans)
qed

lemma new_Channel_inv: "channel_inv (new_Channel request)"
  by (simp add: channel_inv_def new_Channel_def object_of_control_def)

text \<open>C24: The bootstrap channel after any sequence of its operations.  The death recipient is registered once at the object of
  the current control and nowhere else, so no report of an abandoned control arrives.  An open asks at most two controls, and
  reports success only with the handles of the last one asked, which is then the current control, with its session
  recorded.  And a failed load is final: there is no control, and whatever is called later, nothing is loaded
  or opened again.\<close>

theorem channel_bound_to_current_control:
  assumes "fold channel_op ops (new_Channel request, w) = (bc, w')"
  shows "bc_recipients bc = (case object_of_control (bc_control bc) of None \<Rightarrow> [] | Some obj \<Rightarrow> [obj]) \<and>
    (case ChannelOpenSession bc w' of (status, handles, bc2, w2) \<Rightarrow> opens_at_most 2 status handles w' bc2 w2) \<and>
    (bc_fatalControlLoadFailure bc \<longrightarrow> bc_control bc = None \<and>
      bc_fatalControlLoadFailure (fst (fold channel_op ops' (bc, w'))) \<and> quiet w' (snd (fold channel_op ops' (bc, w'))))"
proof -
  have "channel_inv bc" using channel_ops_progress [of "(new_Channel request, w)" ops] new_Channel_inv assms by (simp add: channel_progress_def)
  moreover from this have "channel_progress (bc, w') (fold channel_op ops' (bc, w'))" using channel_ops_progress [of "(bc, w')"] by simp
  moreover from calculation(1) have "case ChannelOpenSession bc w' of (status, handles, bc2, w2) \<Rightarrow> opens_at_most 2 status handles w' bc2 w2"
    using Open_result by (auto split: prod.splits)
  ultimately show ?thesis by (auto simp: channel_inv_def channel_progress_def)
qed

definition demo_control :: "nat \<Rightarrow> Control" where
  "demo_control n = \<lparr>co_name = n, co_object = Some n\<rparr>"

definition demo_channel_world :: ChannelWorld where
  "demo_channel_world = \<lparr>cw_access = [], cw_loads = [Some (demo_control 1), Some (demo_control 2)], cw_dead = [],
     cw_opens = [(PeerDisconnected, MakeDefaultBootstrapHandles), (Ok, demo_handles)], cw_loaded = 0, cw_opened = []\<rparr>"

theorem channel_bound_to_current_control_witness:
  "bc_recipients (fst (fold channel_op [ChOpenSession] (new_Channel DefaultVesOpenSessionRequest, demo_channel_world))) = [2] \<and>
   bc_fatalControlLoadFailure (fst (fold channel_op [ChOpenSession, ChRemoteDied, ChOpenSession]
     (new_Channel DefaultVesOpenSessionRequest, demo_channel_world)))"
proof -
  let ?s = "(new_Channel DefaultVesOpenSessionRequest, demo_channel_world)"
  note eval = ChannelOpenSession_def AccessAllowedLocked_def LoadOpenSessionControl_def EnsureControlBoundLocked_def RefreshControlLocked_def
    controlLoader_def RebindControlLocked_def IsDeadRemoteObject_def control_open_def ShouldRetryOpenSessionAfterRefresh_def
    RetryOpenSessionAfterRefresh_def HandleRemoteDied_def object_of_control_def new_Channel_def demo_channel_world_def demo_control_def Let_def
  obtain bc w where run: "fold channel_op [ChOpenSession] ?s = (bc, w)" by (meson surj_pair)
  then have "object_of_control (bc_control bc) = Some 2" by (auto simp: eval)
  moreover have "bc_fatalControlLoadFailure (fst (fold channel_op [ChOpenSession, ChRemoteDied, ChOpenSession] ?s))" by (simp add: eval)
  ultimately show ?thesis using channel_bound_to_current_control [OF run, of "[]"] unfolding run by simp
qed

end
