(* ===== verification/Ves_Registry.thy ===== *)
theory Ves_Registry
  imports Ves_Channel
begin

text \<open>
  The registry through which the processes find each other: the messages and their framing (\<^verbatim>\<open>registry_protocol.cpp\<close>), the
  server (\<^verbatim>\<open>registry_server.cpp\<close>) with its services as a map from ability numbers to socket paths, and the client with its
  wrapper (\<^verbatim>\<open>registry_client.cpp\<close>, \<^verbatim>\<open>registry_backend.cpp\<close>).  The callbacks of the server are parameters that see the
  services and a state of their own.
\<close>

section \<open>registry_protocol.cpp\<close>

text \<open>The operation is a byte, which need not be one of the four; \<^verbatim>\<open>int32_t\<close> values are their 32 bits.\<close>

definition RegistryOp_Register :: u8 where "RegistryOp_Register = 1"
definition RegistryOp_Get :: u8 where "RegistryOp_Get = 2"
definition RegistryOp_Load :: u8 where "RegistryOp_Load = 3"
definition RegistryOp_Unload :: u8 where "RegistryOp_Unload = 4"

lemmas registry_ops = RegistryOp_Register_def RegistryOp_Get_def RegistryOp_Load_def RegistryOp_Unload_def

record RegistryRequest =
  gq_op :: u8
  gq_sa_id :: u32
  gq_payload :: string

record RegistryResponse =
  rr_err_code :: u32
  rr_payload :: string

definition default_RegistryResponse :: RegistryResponse where
  "default_RegistryResponse = \<lparr>rr_err_code = 0, rr_payload = []\<rparr>"

definition EncodeRegistryRequest :: "RegistryRequest \<Rightarrow> bytes option" where
  "EncodeRegistryRequest req =
     (if length (gq_payload req) > 0xFFFF then None
      else Some (gq_op req # le_bytes 4 (gq_sa_id req) @ le_bytes 2 (of_nat (length (gq_payload req)) :: u16) @ str_bytes (gq_payload req)))"

definition DecodeRegistryRequest :: "bytes \<Rightarrow> RegistryRequest option" where
  "DecodeRegistryRequest data =
     (if length data < 7 then None
      else let plen = unat (le_word (take 2 (drop 5 data)) :: u16)
           in if length data < 7 + plen then None
              else Some \<lparr>gq_op = data ! 0, gq_sa_id = le_word (take 4 (drop 1 data)), gq_payload = bytes_str (take plen (drop 7 data))\<rparr>)"

definition EncodeRegistryResponse :: "RegistryResponse \<Rightarrow> bytes option" where
  "EncodeRegistryResponse resp =
     (if length (rr_payload resp) > 0xFFFF then None
      else Some (le_bytes 4 (rr_err_code resp) @ le_bytes 2 (of_nat (length (rr_payload resp)) :: u16) @ str_bytes (rr_payload resp)))"

definition DecodeRegistryResponse :: "bytes \<Rightarrow> RegistryResponse option" where
  "DecodeRegistryResponse data =
     (if length data < 6 then None
      else let plen = unat (le_word (take 2 (drop 4 data)) :: u16)
           in if length data < 6 + plen then None
              else Some \<lparr>rr_err_code = le_word (take 4 data), rr_payload = bytes_str (take plen (drop 6 data))\<rparr>)"

text \<open>The size goes out in one call of \<^verbatim>\<open>send\<close>, which must take all of it; the message goes out in a loop.\<close>

definition SendMessage :: "int list \<Rightarrow> bytes \<Rightarrow> bool \<times> bytes" where
  "SendMessage rcs msg =
     (let len = le_bytes 4 (of_nat (length msg) :: u32);
          n = (case rcs of [] \<Rightarrow> 4 | rc # _ \<Rightarrow> min rc 4)
      in if n \<noteq> 4 then (False, take (nat n) len)
         else case SendAll (tl rcs) msg of (ok, sent, _) \<Rightarrow> (ok, len @ sent))"

text \<open>With \<^verbatim>\<open>MSG_WAITALL\<close> the first \<^verbatim>\<open>recv\<close> collects the four bytes as \<open>RecvAll\<close> does.\<close>

definition RecvMessage :: "bytes list \<Rightarrow> bytes option" where
  "RecvMessage chunks =
     (case RecvAll 4 chunks of
        (None, _) \<Rightarrow> None
      | (Some sz, rest) \<Rightarrow>
          let len = unat (le_word sz :: u32)
          in if len > 64 * 1024 then None else if len = 0 then Some [] else fst (RecvAll len rest))"

lemma SendAll_Nil [simp]: "SendAll rcs [] = (True, [], rcs)" "SendAll [] b = (True, b, [])"
  by (simp_all add: SendAll.simps)

lemma SendMessage_sent:
  assumes "SendMessage rcs msg = (ok, sent)"
  shows "(\<exists>extra. sized msg = sent @ extra) \<and> (ok \<longleftrightarrow> sent = sized msg)"
proof -
  let ?len = "le_bytes 4 (of_nat (length msg) :: u32)"
  let ?n = "case rcs of [] \<Rightarrow> 4 | rc # _ \<Rightarrow> min rc (4 :: int)"
  obtain ok2 sent2 rcs2 where 2: "SendAll (tl rcs) msg = (ok2, sent2, rcs2)" by (metis prod_cases3)
  obtain m2 where m: "msg = sent2 @ m2" "ok2 \<longleftrightarrow> sent2 = msg" using SendAll_sent [OF 2] by blast
  show ?thesis
  proof (cases "?n = 4")
    case True
    then have "ok = ok2" "sent = ?len @ sent2" using assms by (simp_all add: SendMessage_def 2 Let_def)
    moreover have "?len @ msg = (?len @ sent2) @ m2" by (metis m(1) append.assoc)
    ultimately show ?thesis using m(2) by (auto simp: sized_def)
  next
    case False
    then have run: "\<not> ok" "sent = take (nat ?n) ?len" using assms by (simp_all add: SendMessage_def Let_def)
    have "nat ?n < 4" using False by (auto split: list.splits)
    then have "length sent < 4" using run(2) by simp
    moreover have "sized msg = sent @ drop (nat ?n) ?len @ msg" by (simp add: run(2) sized_def)
    moreover have "length (sized msg) \<ge> 4" by (simp add: sized_def)
    ultimately show ?thesis using run(1) by auto
  qed
qed

lemma RecvMessage_sized_reply:
  "RecvMessage chunks = (case ReceiveSizedReply 0 True chunks of (st, d) \<Rightarrow> if st = Ok \<and> length d \<le> 64 * 1024 then Some d else None)"
proof -
  obtain sz rest where s: "RecvAll 4 chunks = (sz, rest)" by (meson surj_pair)
  show ?thesis
  proof (cases sz)
    case None
    then show ?thesis by (simp add: RecvMessage_def ReceiveSizedReply_def s)
  next
    case (Some b)
    let ?n = "unat (le_word b :: u32)"
    obtain d rest1 where d: "RecvAll ?n rest = (d, rest1)" by (meson surj_pair)
    have "length data = ?n" if "d = Some data" for data using RecvAll_sound d that by blast
    then show ?thesis by (auto simp: RecvMessage_def ReceiveSizedReply_def s Some d Let_def split: option.splits)
  qed
qed

lemma RecvMessage_complete:
  "clean chunks \<Longrightarrow> concat chunks = sized msg \<Longrightarrow> length msg \<le> 64 * 1024 \<Longrightarrow> RecvMessage chunks = Some msg"
  using ReceiveSizedReply_sized [of chunks msg "[]" 0 True] by (simp add: RecvMessage_sized_reply)

lemma RecvMessage_sound:
  assumes "RecvMessage chunks = Some d" "concat chunks = sent" "sized msg = sent @ lost" "length msg < 2 ^ 32"
  shows "d = msg \<and> sent = sized msg"
proof -
  have "ReceiveSizedReply 0 True chunks = (Ok, d)" using assms(1) by (auto simp: RecvMessage_sized_reply split: prod.splits if_splits)
  then obtain extra where e: "concat chunks = sized d @ extra" "length d < 2 ^ 32" using ReceiveSizedReply_sound by blast
  then have "sized d @ (extra @ lost) = sized msg" using assms(2,3) by simp
  from sized_prefix [OF this e(2) assms(4)] assms(2,3) e show ?thesis by simp
qed

lemma registry_request_round_trip:
  assumes "EncodeRegistryRequest req = Some msg"
  shows "DecodeRegistryRequest msg = Some req \<and> length msg = 7 + length (gq_payload req) \<and> length msg \<le> 65542"
proof -
  have len: "length (gq_payload req) < 2 ^ 16" using assms by (auto simp: EncodeRegistryRequest_def split: if_splits)
  then have "unat (of_nat (length (gq_payload req)) :: u16) = length (gq_payload req)" by (simp add: unat_of_nat)
  then show ?thesis using assms len
    by (cases req) (auto simp: EncodeRegistryRequest_def DecodeRegistryRequest_def Let_def take_Cons' split: if_splits)
qed

lemma registry_response_round_trip:
  assumes "EncodeRegistryResponse resp = Some msg"
  shows "DecodeRegistryResponse msg = Some resp \<and> length msg = 6 + length (rr_payload resp)"
proof -
  have len: "length (rr_payload resp) < 2 ^ 16" using assms by (auto simp: EncodeRegistryResponse_def split: if_splits)
  then have "unat (of_nat (length (rr_payload resp)) :: u16) = length (rr_payload resp)" by (simp add: unat_of_nat)
  then show ?thesis using assms len
    by (cases resp) (auto simp: EncodeRegistryResponse_def DecodeRegistryResponse_def Let_def split: if_splits)
qed

section \<open>registry_server.cpp\<close>

type_synonym Services = "u32 \<rightharpoonup> string"

record RegistryServer =
  rg_socket_path :: string
  rg_listen_fd :: int
  rg_running :: bool
  rg_services :: Services

definition new_RegistryServer :: "string \<Rightarrow> RegistryServer" where
  "new_RegistryServer socketPath = \<lparr>rg_socket_path = socketPath, rg_listen_fd = - 1, rg_running = False, rg_services = Map.empty\<rparr>"

text \<open>The descriptor of \<^verbatim>\<open>socket\<close> and the outcomes of \<^verbatim>\<open>bind\<close> and \<^verbatim>\<open>listen\<close>; the second component has the closed descriptors.\<close>

definition RegistryStart :: "int \<Rightarrow> bool \<Rightarrow> bool \<Rightarrow> RegistryServer \<Rightarrow> bool \<times> int list \<times> RegistryServer" where
  "RegistryStart fd bound listening rg =
     (if fd < 0 then (False, [], rg\<lparr>rg_listen_fd := fd\<rparr>)
      else if \<not> bound then (False, [fd], rg\<lparr>rg_listen_fd := - 1\<rparr>)
      else if \<not> listening then (False, [fd], rg\<lparr>rg_listen_fd := - 1\<rparr>)
      else (True, [], rg\<lparr>rg_listen_fd := fd, rg_running := True\<rparr>))"

definition RegistryStop :: "RegistryServer \<Rightarrow> int list \<times> RegistryServer" where
  "RegistryStop rg =
     (if rg_listen_fd rg \<ge> 0 then ([rg_listen_fd rg], rg\<lparr>rg_running := False, rg_listen_fd := - 1\<rparr>)
      else ([], rg\<lparr>rg_running := False\<rparr>))"

definition RegisterService :: "u32 \<Rightarrow> string \<Rightarrow> Services \<Rightarrow> Services" where
  "RegisterService sa_id path m = m(sa_id \<mapsto> path)"

definition UnregisterService :: "u32 \<Rightarrow> Services \<Rightarrow> Services" where
  "UnregisterService sa_id m = m(sa_id := None)"

text \<open>\<open>reach\<close> is whether a \<^verbatim>\<open>connect\<close> to a path succeeds.\<close>

definition IsReachableServiceSocket :: "(string \<Rightarrow> bool) \<Rightarrow> string \<Rightarrow> bool" where
  "IsReachableServiceSocket reach path \<longleftrightarrow> path \<noteq> [] \<and> reach path"

definition TryGetServicePath :: "u32 \<Rightarrow> Services \<Rightarrow> string option" where
  "TryGetServicePath sa_id m = m sa_id"

definition RemoveStaleService :: "u32 \<Rightarrow> string \<Rightarrow> Services \<Rightarrow> bool \<times> Services" where
  "RemoveStaleService sa_id servicePath m =
     (case m sa_id of
        None \<Rightarrow> (False, m)
      | Some p \<Rightarrow> if p \<noteq> servicePath then (False, m) else (True, m(sa_id := None)))"

text \<open>The callbacks see the services, since they may register one, and a state of their own.\<close>

record 's RegistryCallbacks =
  cb_load :: "(u32 \<Rightarrow> Services \<times> 's \<Rightarrow> bool \<times> Services \<times> 's) option"
  cb_unload :: "(u32 \<Rightarrow> Services \<times> 's \<Rightarrow> Services \<times> 's) option"

definition TryLoadService :: "'s RegistryCallbacks \<Rightarrow> u32 \<Rightarrow> Services \<times> 's \<Rightarrow> bool \<times> Services \<times> 's" where
  "TryLoadService cb sa_id st = (case cb_load cb of None \<Rightarrow> (False, st) | Some load \<Rightarrow> load sa_id st)"

definition PopulateServiceResponse :: "u32 \<Rightarrow> Services \<Rightarrow> RegistryResponse \<Rightarrow> bool \<times> RegistryResponse" where
  "PopulateServiceResponse sa_id m resp =
     (case TryGetServicePath sa_id m of
        None \<Rightarrow> (False, resp)
      | Some servicePath \<Rightarrow> (True, resp\<lparr>rr_err_code := 0, rr_payload := servicePath\<rparr>))"

text \<open>\<open>meddle\<close> is what other threads do to the services between the look-up and the removal.\<close>

definition HandleLoadRequest ::
  "(string \<Rightarrow> bool) \<Rightarrow> (Services \<Rightarrow> Services) \<Rightarrow> 's RegistryCallbacks \<Rightarrow> RegistryRequest \<Rightarrow> Services \<times> 's \<Rightarrow>
     RegistryResponse \<times> Services \<times> 's" where
  "HandleLoadRequest reach meddle cb req st =
     (case st of (m, s) \<Rightarrow>
      let resp = default_RegistryResponse; m1 = meddle m;
          (found, m2) = (case TryGetServicePath (gq_sa_id req) m of
              None \<Rightarrow> (False, m1)
            | Some servicePath \<Rightarrow>
                if \<not> IsReachableServiceSocket reach servicePath then (False, snd (RemoveStaleService (gq_sa_id req) servicePath m1))
                else (True, m1));
          (found, m3, s3) = (if \<not> found then TryLoadService cb (gq_sa_id req) (m2, s) else (found, m2, s))
      in if \<not> found then (resp\<lparr>rr_err_code := - 1\<rparr>, m3, s3)
         else case PopulateServiceResponse (gq_sa_id req) m3 resp of
           (True, resp1) \<Rightarrow> (resp1, m3, s3)
         | (False, resp1) \<Rightarrow> (resp1\<lparr>rr_err_code := - 1\<rparr>, m3, s3))"

definition ProcessRequest ::
  "(string \<Rightarrow> bool) \<Rightarrow> (Services \<Rightarrow> Services) \<Rightarrow> 's RegistryCallbacks \<Rightarrow> RegistryRequest \<Rightarrow> Services \<times> 's \<Rightarrow>
     RegistryResponse \<times> Services \<times> 's" where
  "ProcessRequest reach meddle cb req st =
     (let resp = default_RegistryResponse
      in if gq_op req = RegistryOp_Register then (resp\<lparr>rr_err_code := 0\<rparr>, (fst st)(gq_sa_id req \<mapsto> gq_payload req), snd st)
         else if gq_op req = RegistryOp_Get then
           (case PopulateServiceResponse (gq_sa_id req) (fst st) resp of (found, resp1) \<Rightarrow>
            (resp1\<lparr>rr_err_code := (if found then 0 else - 1)\<rparr>, st))
         else if gq_op req = RegistryOp_Load then HandleLoadRequest reach meddle cb req st
         else if gq_op req = RegistryOp_Unload then
           (resp\<lparr>rr_err_code := 0\<rparr>,
            let st1 = ((fst st)(gq_sa_id req := None), snd st)
            in case cb_unload cb of None \<Rightarrow> st1 | Some unload \<Rightarrow> unload (gq_sa_id req) st1)
         else (resp, st))"

definition DecodeClientRequest :: "bytes list \<Rightarrow> RegistryRequest option" where
  "DecodeClientRequest chunks = (case RecvMessage chunks of None \<Rightarrow> None | Some msg \<Rightarrow> DecodeRegistryRequest msg)"

text \<open>The bytes that went out.\<close>

definition SendClientResponse :: "int list \<Rightarrow> RegistryResponse \<Rightarrow> bytes" where
  "SendClientResponse rcs resp = (case EncodeRegistryResponse resp of None \<Rightarrow> [] | Some msg \<Rightarrow> snd (SendMessage rcs msg))"

definition HandleClient ::
  "(string \<Rightarrow> bool) \<Rightarrow> (Services \<Rightarrow> Services) \<Rightarrow> 's RegistryCallbacks \<Rightarrow> bytes list \<Rightarrow> int list \<Rightarrow> Services \<times> 's \<Rightarrow>
     bytes \<times> Services \<times> 's" where
  "HandleClient reach meddle cb chunks rcs st =
     (case DecodeClientRequest chunks of
        None \<Rightarrow> ([], st)
      | Some req \<Rightarrow> (case ProcessRequest reach meddle cb req st of (resp, st1) \<Rightarrow> (SendClientResponse rcs resp, st1)))"

section \<open>registry_client.cpp and registry_backend.cpp\<close>

text \<open>One connection to the registry: the result of \<^verbatim>\<open>socket\<close>, whether \<^verbatim>\<open>connect\<close> succeeds, the results of \<^verbatim>\<open>send\<close> and the bytes
  that arrive.\<close>

record RegistryConn =
  rc_fd :: int
  rc_connected :: bool
  rc_send :: "int list"
  rc_reply :: "bytes list"

definition REGISTRY_REQUEST_FAILED :: string where
  "REGISTRY_REQUEST_FAILED = [CHR 0x01]"

text \<open>The second component has the closed descriptors.\<close>

definition ConnectToRegistry :: "RegistryConn \<Rightarrow> bool \<times> int list" where
  "ConnectToRegistry conn =
     (if rc_fd conn < 0 then (False, [])
      else if \<not> rc_connected conn then (False, [rc_fd conn])
      else (True, []))"

definition SendRegistryRequestMessage :: "int list \<Rightarrow> u8 \<Rightarrow> u32 \<Rightarrow> string \<Rightarrow> bool \<times> bytes" where
  "SendRegistryRequestMessage rcs op saId payload =
     (case EncodeRegistryRequest \<lparr>gq_op = op, gq_sa_id = saId, gq_payload = payload\<rparr> of
        None \<Rightarrow> (False, [])
      | Some msg \<Rightarrow> SendMessage rcs msg)"

definition DecodeRegistryResponsePayload :: "bytes \<Rightarrow> string option" where
  "DecodeRegistryResponsePayload respMsg =
     (case DecodeRegistryResponse respMsg of
        None \<Rightarrow> None
      | Some resp \<Rightarrow> if rr_err_code resp \<noteq> 0 then None else Some (rr_payload resp))"

text \<open>The results are the response, what went out and the closed descriptors.\<close>

definition SendRequest :: "RegistryConn \<Rightarrow> u8 \<Rightarrow> u32 \<Rightarrow> string \<Rightarrow> string \<times> bytes \<times> int list" where
  "SendRequest conn op sa_id payload =
     (case ConnectToRegistry conn of (connected, closed) \<Rightarrow>
      if \<not> connected then (REGISTRY_REQUEST_FAILED, [], closed)
      else case SendRegistryRequestMessage (rc_send conn) op sa_id payload of (ok, sent) \<Rightarrow>
        if \<not> ok then (REGISTRY_REQUEST_FAILED, sent, [rc_fd conn])
        else case RecvMessage (rc_reply conn) of
          None \<Rightarrow> (REGISTRY_REQUEST_FAILED, sent, [rc_fd conn])
        | Some resp_msg \<Rightarrow>
            (case DecodeRegistryResponsePayload resp_msg of
               None \<Rightarrow> (REGISTRY_REQUEST_FAILED, sent, [rc_fd conn])
             | Some responsePayload \<Rightarrow> (responsePayload, sent, [rc_fd conn])))"

definition ClientGetServicePath :: "RegistryConn \<Rightarrow> u32 \<Rightarrow> string" where
  "ClientGetServicePath conn sa_id = (let r = fst (SendRequest conn RegistryOp_Get sa_id []) in if r = REGISTRY_REQUEST_FAILED then [] else r)"

definition LoadServicePath :: "RegistryConn \<Rightarrow> u32 \<Rightarrow> string" where
  "LoadServicePath conn sa_id = (let r = fst (SendRequest conn RegistryOp_Load sa_id []) in if r = REGISTRY_REQUEST_FAILED then [] else r)"

definition ClientUnloadService :: "RegistryConn \<Rightarrow> u32 \<Rightarrow> bool" where
  "ClientUnloadService conn sa_id \<longleftrightarrow> fst (SendRequest conn RegistryOp_Unload sa_id []) \<noteq> REGISTRY_REQUEST_FAILED"

definition ClientRegisterService :: "RegistryConn \<Rightarrow> u32 \<Rightarrow> string \<Rightarrow> bool" where
  "ClientRegisterService conn sa_id path \<longleftrightarrow> fst (SendRequest conn RegistryOp_Register sa_id path) \<noteq> REGISTRY_REQUEST_FAILED"

definition BackendGetServicePath :: "RegistryConn \<Rightarrow> u32 \<Rightarrow> string" where
  "BackendGetServicePath conn saId = ClientGetServicePath conn saId"

definition BackendLoadService :: "RegistryConn \<Rightarrow> u32 \<Rightarrow> string" where
  "BackendLoadService conn saId = LoadServicePath conn saId"

definition BackendAddService :: "RegistryConn \<Rightarrow> u32 \<Rightarrow> string \<Rightarrow> bool" where
  "BackendAddService conn saId servicePath = ClientRegisterService conn saId servicePath"

definition BackendUnloadService :: "RegistryConn \<Rightarrow> u32 \<Rightarrow> bool" where
  "BackendUnloadService conn saId = ClientUnloadService conn saId"

section \<open>A call of the registry\<close>

lemma RecvMessage_empty: "concat chunks = [] \<Longrightarrow> RecvMessage chunks = None"
proof -
  assume "concat chunks = []"
  then have "length (concat chunks) < 4" by (metis list.size(3) zero_less_numeral)
  from RecvAll_short [OF this] show ?thesis by (cases "RecvAll 4 chunks") (simp add: RecvMessage_def)
qed

lemma DecodeClientRequest_sent:
  assumes "EncodeRegistryRequest req = Some msg" "SendMessage sends msg = (ok, sent)" "clean chunks" "concat chunks = sent"
  shows "DecodeClientRequest chunks = (if ok \<and> length (gq_payload req) \<le> 65529 then Some req else None)"
proof (cases "RecvMessage chunks")
  case None
  moreover have "\<not> (ok \<and> length (gq_payload req) \<le> 65529)"
    using None RecvMessage_complete [OF assms(3), of msg] SendMessage_sent [OF assms(2)] registry_request_round_trip [OF assms(1)] assms(4) by auto
  ultimately show ?thesis by (auto simp: DecodeClientRequest_def)
next
  case (Some d)
  obtain lost where lost: "sized msg = sent @ lost" using SendMessage_sent [OF assms(2)] by blast
  have rt: "DecodeRegistryRequest msg = Some req" "length msg = 7 + length (gq_payload req)" "length msg < 2 ^ 32"
    using registry_request_round_trip [OF assms(1)] by simp_all
  have d: "d = msg" "sent = sized msg" using RecvMessage_sound [OF Some assms(4) lost rt(3)] by simp_all
  have "length d \<le> 64 * 1024" using Some by (auto simp: RecvMessage_sized_reply split: prod.splits if_splits)
  then show ?thesis using Some d rt SendMessage_sent [OF assms(2)] by (simp add: DecodeClientRequest_def)
qed

lemma RecvMessage_response:
  assumes "clean reply" "concat reply = SendClientResponse rcs resp" "RecvMessage reply = Some d"
  shows "DecodeRegistryResponsePayload d = (if rr_err_code resp = 0 then Some (rr_payload resp) else None)"
proof (cases "EncodeRegistryResponse resp")
  case None
  then have "concat reply = []" using assms(2) by (simp add: SendClientResponse_def)
  then show ?thesis using RecvMessage_empty assms(3) by simp
next
  case (Some msg)
  note rt = registry_response_round_trip [OF Some]
  obtain ok sent where s: "SendMessage rcs msg = (ok, sent)" by (meson surj_pair)
  obtain lost where lost: "sized msg = sent @ lost" using SendMessage_sent [OF s] by blast
  have "length msg < 2 ^ 32" using rt Some by (auto simp: EncodeRegistryResponse_def split: if_splits)
  from RecvMessage_sound [OF assms(3) _ lost this] assms(2) Some s have "d = msg" by (simp add: SendClientResponse_def)
  with rt show ?thesis by (simp add: DecodeRegistryResponsePayload_def)
qed

lemma RecvMessage_response_complete:
  assumes "clean reply" "concat reply = SendClientResponse [] resp" "length (rr_payload resp) \<le> 65530"
  shows "RecvMessage reply \<noteq> None"
proof -
  obtain msg where msg: "EncodeRegistryResponse resp = Some msg" using assms(3) by (simp add: EncodeRegistryResponse_def)
  then have "concat reply = sized msg" using assms(2) by (simp add: SendClientResponse_def SendMessage_def sized_def)
  from RecvMessage_complete [OF assms(1) this] registry_response_round_trip [OF msg] assms(3) show ?thesis by simp
qed

lemma registry_answers:
  assumes "SendRequest conn op sa payload = (r, sent, closed)"
    "req = \<lparr>gq_op = op, gq_sa_id = sa, gq_payload = payload\<rparr>" "ProcessRequest reach meddle cb req st = (resp, st1)"
    "clean chunks" "concat chunks = sent" "HandleClient reach meddle cb chunks rcs st = (out, st')"
    "clean (rc_reply conn)" "concat (rc_reply conn) = out"
  shows "(st' = st \<or> st' = st1) \<and> (r \<noteq> REGISTRY_REQUEST_FAILED \<longrightarrow> st' = st1 \<and> rr_err_code resp = 0 \<and> r = rr_payload resp) \<and>
    (0 \<le> rc_fd conn \<and> rc_connected conn \<and> rc_send conn = [] \<and> rcs = [] \<and> length payload \<le> 65529 \<and> length (rr_payload resp) \<le> 65530 \<longrightarrow>
       st' = st1 \<and> r = (if rr_err_code resp = 0 then rr_payload resp else REGISTRY_REQUEST_FAILED)) \<and>
    (65529 < length payload \<longrightarrow> st' = st \<and> r = REGISTRY_REQUEST_FAILED) \<and>
    closed = (if rc_fd conn < 0 then [] else [rc_fd conn])"
proof -
  note empty = RecvMessage_empty
  show ?thesis
  proof (cases "rc_fd conn < 0 \<or> \<not> rc_connected conn \<or> EncodeRegistryRequest req = None")
    case True
    then have run: "sent = []" "r = REGISTRY_REQUEST_FAILED" "closed = (if rc_fd conn < 0 then [] else [rc_fd conn])"
      using assms(1,2) by (auto simp: SendRequest_def ConnectToRegistry_def SendRegistryRequestMessage_def split: if_splits)
    then have "st' = st" using assms(5,6) empty by (auto simp: HandleClient_def DecodeClientRequest_def)
    moreover have "65529 < length payload" if "EncodeRegistryRequest req = None"
      using that assms(2) by (auto simp: EncodeRegistryRequest_def split: if_splits)
    ultimately show ?thesis using run True by auto
  next
    case False
    then obtain msg where msg: "EncodeRegistryRequest req = Some msg" by auto
    obtain ok snt where s: "SendMessage (rc_send conn) msg = (ok, snt)" by (meson surj_pair)
    have sent: "sent = snt" "closed = [rc_fd conn]"
      and r: "r = (if \<not> ok then REGISTRY_REQUEST_FAILED else case RecvMessage (rc_reply conn) of None \<Rightarrow> REGISTRY_REQUEST_FAILED
        | Some d \<Rightarrow> (case DecodeRegistryResponsePayload d of None \<Rightarrow> REGISTRY_REQUEST_FAILED | Some p \<Rightarrow> p))"
      using assms(1,2) False msg s
      by (auto simp: SendRequest_def ConnectToRegistry_def SendRegistryRequestMessage_def split: if_splits option.splits)
    have dec: "DecodeClientRequest chunks = (if ok \<and> length payload \<le> 65529 then Some req else None)"
      using DecodeClientRequest_sent [OF msg s assms(4)] assms(2,5) sent by simp
    show ?thesis
    proof (cases "ok \<and> length payload \<le> 65529")
      case True
      then have out: "st' = st1" "out = SendClientResponse rcs resp" using assms(3,6) dec by (simp_all add: HandleClient_def)
      note reply = assms(8) [unfolded out(2)]
      show ?thesis
        using True out False sent r RecvMessage_response [OF assms(7) reply] RecvMessage_response_complete [OF assms(7)] reply
        by (auto split: option.splits)
    next
      case no: False
      then have out: "st' = st" "out = []" using assms(6) dec by (auto simp: HandleClient_def)
      then have "r = REGISTRY_REQUEST_FAILED" using r empty assms(8) by simp
      moreover have "ok" if "rc_send conn = []" using s that by (simp add: SendMessage_def)
      ultimately show ?thesis using out False sent no by auto
    qed
  qed
qed

text \<open>C26: A call of the registry over its socket.  However the two streams are cut and wherever a send stops, the server handles the client's
  request as a whole and once or not at all.  A result other than the failure mark is the server's answer to this request.  On a
  connection that works the call gives the server's answer, the mark if that is an error.  But a request whose payload is
  longer than 65529 bytes, which the encoder accepts up to 65535, never gets through: the receiver refuses its message.\<close>

theorem registry_call:
  assumes "SendRequest conn op sa payload = (r, sent, closed)"
    "req = \<lparr>gq_op = op, gq_sa_id = sa, gq_payload = payload\<rparr>" "ProcessRequest reach meddle cb req st = (resp, st1)"
    "clean chunks" "concat chunks = sent" "HandleClient reach meddle cb chunks rcs st = (out, st')"
    "clean (rc_reply conn)" "concat (rc_reply conn) = out"
  shows "(st' = st \<or> st' = st1) \<and> (r \<noteq> REGISTRY_REQUEST_FAILED \<longrightarrow> st' = st1 \<and> rr_err_code resp = 0 \<and> r = rr_payload resp) \<and>
    (0 \<le> rc_fd conn \<and> rc_connected conn \<and> rc_send conn = [] \<and> rcs = [] \<and> length payload \<le> 65529 \<and> length (rr_payload resp) \<le> 65530 \<longrightarrow>
       st' = st1 \<and> r = (if rr_err_code resp = 0 then rr_payload resp else REGISTRY_REQUEST_FAILED)) \<and>
    (65529 < length payload \<longrightarrow> st' = st \<and> r = REGISTRY_REQUEST_FAILED) \<and>
    closed = (if rc_fd conn < 0 then [] else [rc_fd conn])"
  by (rule registry_answers [OF assms])

definition demo_callbacks :: "unit RegistryCallbacks" where
  "demo_callbacks = \<lparr>cb_load = None, cb_unload = None\<rparr>"

definition demo_get_message :: bytes where
  "demo_get_message = sized (RegistryOp_Get # le_bytes 4 (5 :: u32) @ le_bytes 2 (0 :: u16))"

theorem registry_call_witness:
  "fst (SendRequest \<lparr>rc_fd = 3, rc_connected = True, rc_send = [],
      rc_reply = [fst (HandleClient (\<lambda>_. True) id demo_callbacks [take 5 demo_get_message, drop 5 demo_get_message] [] ([5 \<mapsto> ''/s''], ()))]\<rparr>
      RegistryOp_Get 5 []) = ''/s''"
proof -
  let ?chunks = "[take 5 demo_get_message, drop 5 demo_get_message]"
  let ?req = "\<lparr>gq_op = RegistryOp_Get, gq_sa_id = 5, gq_payload = []\<rparr>"
  let ?st = "([5 \<mapsto> ''/s''], ()) :: Services \<times> unit"
  obtain out st' where h: "HandleClient (\<lambda>_. True) id demo_callbacks ?chunks [] ?st = (out, st')" by (meson surj_pair)
  let ?conn = "\<lparr>rc_fd = 3, rc_connected = True, rc_send = [], rc_reply = [out]\<rparr>"
  have pr: "ProcessRequest (\<lambda>_. True) id demo_callbacks ?req ?st = (\<lparr>rr_err_code = 0, rr_payload = ''/s''\<rparr>, ?st)"
    by (simp add: ProcessRequest_def registry_ops PopulateServiceResponse_def TryGetServicePath_def default_RegistryResponse_def)
  obtain r sent closed where sr: "SendRequest ?conn RegistryOp_Get 5 [] = (r, sent, closed)" by (metis prod_cases3)
  have msg: "EncodeRegistryRequest ?req = Some (RegistryOp_Get # le_bytes 4 (5 :: u32) @ le_bytes 2 (0 :: u16))"
    "SendMessage [] (RegistryOp_Get # le_bytes 4 (5 :: u32) @ le_bytes 2 (0 :: u16)) = (True, demo_get_message)"
    by (simp_all add: EncodeRegistryRequest_def SendMessage_def demo_get_message_def sized_def)
  have sent: "sent = demo_get_message"
    using sr by (auto simp: SendRequest_def ConnectToRegistry_def SendRegistryRequestMessage_def msg split: option.splits)
  have len: "length demo_get_message = 11" by (simp add: demo_get_message_def sized_def)
  then have cut: "clean ?chunks" by (auto dest: arg_cong [where f = length])
  have "DecodeClientRequest ?chunks = Some ?req"
    using DecodeClientRequest_sent [OF msg cut] by simp
  then have "out \<noteq> []" using h pr by (auto simp: HandleClient_def SendClientResponse_def EncodeRegistryResponse_def SendMessage_def)
  then have "clean (rc_reply ?conn)" by simp
  from registry_call [OF sr refl pr cut _ h this] sent h show ?thesis using sr by simp
qed

end
