(* ===== verification/Ves_Supervisor.thy ===== *)
theory Ves_Supervisor
  imports Ves_Registry
begin

text \<open>
  What stands around the registry: the supervisor process (\<^verbatim>\<open>ves_supervisor_main.cpp\<close>) whose callbacks start and kill the engine, and
  the system ability managers and remote objects (\<^verbatim>\<open>system_ability_manager.cpp\<close>, \<^verbatim>\<open>iremote_object.cpp\<close>,
  \<^verbatim>\<open>iremote_broker_registry.cpp\<close>) through which a client asks for it.
\<close>

section \<open>ves_supervisor_main.cpp\<close>

definition VIRUS_PROTECTION_EXECUTOR_SA_ID :: u32 where
  "VIRUS_PROTECTION_EXECUTOR_SA_ID = 1251"

definition NO_CHILD_PID :: int where
  "NO_CHILD_PID = - 1"

text \<open>The recorded children, the results that \<^verbatim>\<open>fork\<close> has for the parent (it fails when the list ends), the engines that were spawned
  and the processes that were killed and waited for.\<close>

record Supervisor =
  sv_engine_pid :: int
  sv_client_pid :: int
  sv_forks :: "int list"
  sv_spawned :: "int list"
  sv_killed :: "int list"

definition sys_fork :: "Supervisor \<Rightarrow> int \<times> Supervisor" where
  "sys_fork sv = (case sv_forks sv of [] \<Rightarrow> (- 1, sv) | pid # pids \<Rightarrow> (pid, sv\<lparr>sv_forks := pids\<rparr>))"

definition SpawnEngine :: "Supervisor \<Rightarrow> int \<times> Supervisor" where
  "SpawnEngine sv = (case sys_fork sv of (pid, sv1) \<Rightarrow> (pid, if pid > 0 then sv1\<lparr>sv_spawned := sv_spawned sv1 @ [pid]\<rparr> else sv1))"

definition SpawnClient :: "Supervisor \<Rightarrow> int \<times> Supervisor" where
  "SpawnClient sv = sys_fork sv"

definition KillAndWait :: "int \<Rightarrow> Supervisor \<Rightarrow> Supervisor" where
  "KillAndWait pid sv = (if pid > 0 then sv\<lparr>sv_killed := sv_killed sv @ [pid]\<rparr> else sv)"

definition TakePid :: "Supervisor \<Rightarrow> int \<times> Supervisor" where
  "TakePid sv = (sv_engine_pid sv, sv\<lparr>sv_engine_pid := NO_CHILD_PID\<rparr>)"

definition ResolveBinaryDir :: "string \<Rightarrow> string" where
  "ResolveBinaryDir argv0 =
     (if CHR ''/'' \<in> set argv0 then rev (tl (dropWhile (\<lambda>c. c \<noteq> CHR ''/'') (rev argv0))) else ''.'')"

text \<open>The callbacks of \<^verbatim>\<open>ConfigureRegistry\<close>; \<open>other\<close> is what other threads make of the recorded engine while this one forks.\<close>

definition SupervisorLoad ::
  "(int \<Rightarrow> int) \<Rightarrow> u32 \<Rightarrow> Services \<times> Supervisor \<Rightarrow> bool \<times> Services \<times> Supervisor" where
  "SupervisorLoad other sa_id st =
     (case st of (m, sv) \<Rightarrow>
      if sa_id \<noteq> VIRUS_PROTECTION_EXECUTOR_SA_ID then (False, m, sv)
      else if sv_engine_pid sv > 0 then (True, m, sv)
      else case SpawnEngine sv of (enginePid, sv1) \<Rightarrow>
        if enginePid < 0 then (False, m, sv1)
        else let expected = other (sv_engine_pid sv1); sv2 = sv1\<lparr>sv_engine_pid := expected\<rparr>
             in if expected \<noteq> NO_CHILD_PID then (expected > 0, m, KillAndWait enginePid sv2)
                else (True, m, sv2\<lparr>sv_engine_pid := enginePid\<rparr>))"

definition SupervisorUnload :: "u32 \<Rightarrow> Services \<times> Supervisor \<Rightarrow> Services \<times> Supervisor" where
  "SupervisorUnload sa_id st =
     (case st of (m, sv) \<Rightarrow>
      if sa_id \<noteq> VIRUS_PROTECTION_EXECUTOR_SA_ID then (m, sv)
      else case TakePid sv of (enginePid, sv1) \<Rightarrow> (m, KillAndWait enginePid sv1))"

definition ConfigureRegistry :: "(int \<Rightarrow> int) \<Rightarrow> Supervisor RegistryCallbacks" where
  "ConfigureRegistry other = \<lparr>cb_load = Some (SupervisorLoad other), cb_unload = Some SupervisorUnload\<rparr>"

definition StartRegistryAndEngine ::
  "int \<Rightarrow> bool \<Rightarrow> bool \<Rightarrow> RegistryServer \<Rightarrow> Supervisor \<Rightarrow> bool \<times> int list \<times> RegistryServer \<times> Supervisor" where
  "StartRegistryAndEngine fd bound listening rg sv =
     (case RegistryStart fd bound listening rg of (started, closed, rg1) \<Rightarrow>
      if \<not> started then (False, closed, rg1, sv)
      else case SpawnEngine sv of (enginePid, sv1) \<Rightarrow>
        if enginePid < 0 then (case RegistryStop rg1 of (closed1, rg2) \<Rightarrow> (False, closed @ closed1, rg2, sv1))
        else (True, closed, rg1, sv1\<lparr>sv_engine_pid := enginePid\<rparr>))"

text \<open>\<open>status\<close> is the exit status that \<^verbatim>\<open>waitpid\<close> reports for the client.\<close>

definition RunClientSession :: "int \<Rightarrow> Supervisor \<Rightarrow> int \<times> Supervisor" where
  "RunClientSession status sv =
     (case SpawnClient sv of (clientPid, sv1) \<Rightarrow>
      if clientPid < 0 then (1, sv1)
      else (status, sv1\<lparr>sv_client_pid := NO_CHILD_PID\<rparr>))"

definition ShutdownSupervisor :: "RegistryServer \<Rightarrow> Supervisor \<Rightarrow> int list \<times> RegistryServer \<times> Supervisor" where
  "ShutdownSupervisor rg sv =
     (case TakePid sv of (enginePid, sv1) \<Rightarrow>
      case RegistryStop rg of (closed, rg1) \<Rightarrow> (closed, rg1, KillAndWait enginePid sv1))"

section \<open>The engine under the supervisor\<close>

text \<open>The requests that the accept thread serves, each with what is reachable at that time.\<close>

definition supervised :: "(string \<Rightarrow> bool) \<times> RegistryRequest \<Rightarrow> Services \<times> Supervisor \<Rightarrow> Services \<times> Supervisor" where
  "supervised r st = snd (ProcessRequest (fst r) id (ConfigureRegistry id) (snd r) st)"

definition unloads_engine :: "RegistryRequest \<Rightarrow> bool" where
  "unloads_engine req \<longleftrightarrow> gq_op req = RegistryOp_Unload \<and> gq_sa_id req = VIRUS_PROTECTION_EXECUTOR_SA_ID"

definition engine_owned :: "Supervisor \<Rightarrow> bool" where
  "engine_owned sv \<longleftrightarrow> (sv_engine_pid sv > 0 \<or> sv_engine_pid sv = NO_CHILD_PID) \<and> 0 \<notin> set (sv_forks sv) \<and>
     mset (sv_spawned sv) = mset (sv_killed sv) + (if sv_engine_pid sv > 0 then {#sv_engine_pid sv#} else {#})"

lemmas supervisor_defs = SupervisorLoad_def SupervisorUnload_def SpawnEngine_def sys_fork_def KillAndWait_def TakePid_def

lemma SupervisorLoad_owned:
  assumes "SupervisorLoad id sa (m, sv) = (b, m', sv')"
  shows "m' = m \<and> (engine_owned sv \<longrightarrow> engine_owned sv') \<and> (sv_engine_pid sv > 0 \<longrightarrow> sv' = sv)"
  using assms by (auto simp: supervisor_defs engine_owned_def NO_CHILD_PID_def Let_def split: if_splits list.splits)

lemma SupervisorUnload_owned:
  "fst (SupervisorUnload sa (m, sv)) = m" "engine_owned sv \<Longrightarrow> engine_owned (snd (SupervisorUnload sa (m, sv)))"
  "sa \<noteq> VIRUS_PROTECTION_EXECUTOR_SA_ID \<Longrightarrow> snd (SupervisorUnload sa (m, sv)) = sv"
  by (auto simp: supervisor_defs engine_owned_def NO_CHILD_PID_def)

lemma HandleLoad_state:
  "\<exists>m'. snd (HandleLoadRequest reach id (ConfigureRegistry id) req (m, sv)) = (m', sv) \<or>
     snd (HandleLoadRequest reach id (ConfigureRegistry id) req (m, sv)) = snd (SupervisorLoad id (gq_sa_id req) (m', sv))"
  by (auto simp: HandleLoadRequest_def TryLoadService_def ConfigureRegistry_def Let_def split: prod.splits option.splits if_splits bool.splits)
    (metis snd_conv)+

lemma supervised_owned:
  assumes "supervised r (m, sv) = (m', sv')"
  shows "(engine_owned sv \<longrightarrow> engine_owned sv') \<and> (sv_engine_pid sv > 0 \<and> \<not> unloads_engine (snd r) \<longrightarrow> sv' = sv)"
proof (cases "gq_op (snd r) = RegistryOp_Load")
  case True
  let ?h = "HandleLoadRequest (fst r) id (ConfigureRegistry id) (snd r) (m, sv)"
  have run: "(m', sv') = snd ?h" using assms True by (simp add: supervised_def ProcessRequest_def registry_ops)
  obtain m1 where "snd ?h = (m1, sv) \<or> snd ?h = snd (SupervisorLoad id (gq_sa_id (snd r)) (m1, sv))" using HandleLoad_state by blast
  then show ?thesis
  proof
    assume "snd ?h = (m1, sv)"
    with run show ?thesis by simp
  next
    assume l: "snd ?h = snd (SupervisorLoad id (gq_sa_id (snd r)) (m1, sv))"
    obtain b where "SupervisorLoad id (gq_sa_id (snd r)) (m1, sv) = (b, m', sv')" using run l by (metis prod.collapse)
    from SupervisorLoad_owned [OF this] show ?thesis by blast
  qed
next
  case False
  then show ?thesis
    using assms SupervisorUnload_owned [where sa = "gq_sa_id (snd r)" and m = "m(gq_sa_id (snd r) := None)" and sv = sv]
    by (cases "SupervisorUnload (gq_sa_id (snd r)) (m(gq_sa_id (snd r) := None), sv)")
      (auto simp: supervised_def ProcessRequest_def unloads_engine_def ConfigureRegistry_def Let_def split: if_splits prod.splits)
qed

lemma supervised_all_owned:
  "fold supervised reqs (m, sv) = (m', sv') \<Longrightarrow>
     (engine_owned sv \<longrightarrow> engine_owned sv') \<and> (sv_engine_pid sv > 0 \<and> (\<forall>r \<in> set reqs. \<not> unloads_engine (snd r)) \<longrightarrow> sv' = sv)"
proof (induction reqs arbitrary: m sv)
  case (Cons r reqs)
  obtain m1 sv1 where 1: "supervised r (m, sv) = (m1, sv1)" by (meson surj_pair)
  from supervised_owned [OF 1] Cons.IH [of m1 sv1] Cons.prems 1 show ?case by auto
qed simp

text \<open>With an engine recorded, a load does not start one: it answers with the registered path when that can be reached and with an error
  otherwise, and then the registration is gone.\<close>

lemma load_with_engine:
  assumes "sv_engine_pid sv > 0" "gq_op req = RegistryOp_Load" "gq_sa_id req = VIRUS_PROTECTION_EXECUTOR_SA_ID"
  shows "ProcessRequest reach id (ConfigureRegistry id) req (m, sv) =
    (case m VIRUS_PROTECTION_EXECUTOR_SA_ID of
       None \<Rightarrow> (\<lparr>rr_err_code = - 1, rr_payload = []\<rparr>, m, sv)
     | Some p \<Rightarrow> if IsReachableServiceSocket reach p then (\<lparr>rr_err_code = 0, rr_payload = p\<rparr>, m, sv)
         else (\<lparr>rr_err_code = - 1, rr_payload = []\<rparr>, m(VIRUS_PROTECTION_EXECUTOR_SA_ID := None), sv))"
  using assms
  by (auto simp: ProcessRequest_def registry_ops HandleLoadRequest_def TryGetServicePath_def RemoveStaleService_def TryLoadService_def
      ConfigureRegistry_def SupervisorLoad_def PopulateServiceResponse_def default_RegistryResponse_def Let_def split: option.splits)

section \<open>iremote_object.cpp and iremote_broker_registry.cpp\<close>

text \<open>Death recipients are numbers and \<open>'b\<close> is the type of brokers; both are held weakly, so that an operation is told which of
  them are still alive.\<close>

record 'b RemoteObject =
  ro_is_dead :: bool
  ro_recipients :: "nat list"
  ro_broker :: "'b option"
  ro_sa_id :: u32
  ro_service_path :: string
  ro_request_handler :: bool

definition new_RemoteObject :: "'b RemoteObject" where
  "new_RemoteObject = \<lparr>ro_is_dead = False, ro_recipients = [], ro_broker = None, ro_sa_id = - 1, ro_service_path = [], ro_request_handler = False\<rparr>"

definition AddDeathRecipient :: "nat option \<Rightarrow> 'b RemoteObject \<Rightarrow> bool \<times> 'b RemoteObject" where
  "AddDeathRecipient recipient ro =
     (case recipient of None \<Rightarrow> (False, ro) | Some d \<Rightarrow> (True, ro\<lparr>ro_recipients := ro_recipients ro @ [d]\<rparr>))"

definition RemoveDeathRecipient :: "(nat \<Rightarrow> bool) \<Rightarrow> nat option \<Rightarrow> 'b RemoteObject \<Rightarrow> bool \<times> 'b RemoteObject" where
  "RemoveDeathRecipient alive recipient ro =
     (case recipient of
        None \<Rightarrow> (False, ro)
      | Some d \<Rightarrow>
          let kept = filter (\<lambda>current. alive current \<and> current \<noteq> d) (ro_recipients ro)
          in (length kept \<noteq> length (ro_recipients ro), ro\<lparr>ro_recipients := kept\<rparr>))"

text \<open>The recipients that are called, in order.\<close>

definition NotifyRemoteDiedForTest :: "(nat \<Rightarrow> bool) \<Rightarrow> 'b RemoteObject \<Rightarrow> nat list \<times> 'b RemoteObject" where
  "NotifyRemoteDiedForTest alive ro = (filter alive (ro_recipients ro), ro\<lparr>ro_is_dead := True\<rparr>)"

definition AttachBroker :: "'b \<Rightarrow> 'b RemoteObject \<Rightarrow> 'b RemoteObject" where
  "AttachBroker broker ro = ro\<lparr>ro_broker := Some broker\<rparr>"

definition GetBroker :: "('b \<Rightarrow> bool) \<Rightarrow> 'b RemoteObject \<Rightarrow> 'b option" where
  "GetBroker alive ro = (case ro_broker ro of None \<Rightarrow> None | Some broker \<Rightarrow> if alive broker then Some broker else None)"

definition SetSaId :: "u32 \<Rightarrow> 'b RemoteObject \<Rightarrow> 'b RemoteObject" where
  "SetSaId saId ro = ro\<lparr>ro_sa_id := saId\<rparr>"

definition SetServicePath :: "string \<Rightarrow> 'b RemoteObject \<Rightarrow> 'b RemoteObject" where
  "SetServicePath path ro = ro\<lparr>ro_service_path := path\<rparr>"

definition SetRequestHandler :: "bool \<Rightarrow> 'b RemoteObject \<Rightarrow> 'b RemoteObject" where
  "SetRequestHandler handler ro = ro\<lparr>ro_request_handler := handler\<rparr>"

definition HandleRequest :: "'s MockIpcHandler \<Rightarrow> 'b RemoteObject \<Rightarrow> 's MockIpcHandler" where
  "HandleRequest handler ro command data s =
     (if \<not> ro_request_handler ro then (Some (False, default_MockIpcReply), s) else handler command data s)"

text \<open>A removed recipient is not called, one that was added and lives is, and the others are called as before.\<close>

lemma notified_recipients:
  "set (fst (NotifyRemoteDiedForTest alive (snd (RemoveDeathRecipient alive (Some d) ro)))) = {e \<in> set (ro_recipients ro). alive e \<and> e \<noteq> d}"
  "set (fst (NotifyRemoteDiedForTest alive (snd (AddDeathRecipient (Some d) ro)))) = {e \<in> set (ro_recipients ro) \<union> {d}. alive e}"
  by (auto simp: NotifyRemoteDiedForTest_def RemoveDeathRecipient_def AddDeathRecipient_def Let_def)

type_synonym 'b Creators = "u32 \<rightharpoonup> ('b RemoteObject \<Rightarrow> 'b)"

definition RegisterCreator :: "u32 \<Rightarrow> ('b RemoteObject \<Rightarrow> 'b) \<Rightarrow> 'b Creators \<Rightarrow> 'b Creators" where
  "RegisterCreator saId creator creators = creators(saId \<mapsto> creator)"

definition CreateBroker :: "'b Creators \<Rightarrow> u32 \<Rightarrow> 'b RemoteObject option \<Rightarrow> 'b option" where
  "CreateBroker creators saId remote =
     (case remote of
        None \<Rightarrow> None
      | Some ro \<Rightarrow> (case creators saId of None \<Rightarrow> None | Some creator \<Rightarrow> Some (creator ro)))"

definition iface_cast :: "('b \<Rightarrow> bool) \<Rightarrow> 'b Creators \<Rightarrow> 'b RemoteObject option \<Rightarrow> 'b option \<times> 'b RemoteObject option" where
  "iface_cast alive creators remote =
     (case remote of
        None \<Rightarrow> (None, None)
      | Some ro \<Rightarrow>
          (case GetBroker alive ro of
             Some broker \<Rightarrow> (Some broker, Some ro)
           | None \<Rightarrow>
               if 0 \<le> sint (ro_sa_id ro) then
                 (case CreateBroker creators (ro_sa_id ro) (Some ro) of
                    None \<Rightarrow> (None, Some ro)
                  | Some broker \<Rightarrow> (Some broker, Some (AttachBroker broker ro)))
               else (None, Some ro)))"

text \<open>A broker is created once: as long as it lives, every later cast gives the same one.\<close>

lemma iface_cast_stable:
  assumes "iface_cast alive creators (Some ro) = (Some broker, ro')" "alive broker"
  shows "iface_cast alive creators' ro' = (Some broker, ro')"
  using assms by (auto simp: iface_cast_def GetBroker_def AttachBroker_def split: option.splits if_splits)

section \<open>system_ability_manager.cpp\<close>

definition ERR_OK :: int where "ERR_OK = 0"
definition ERR_INVALID_VALUE :: int where "ERR_INVALID_VALUE = - 1"
definition ERR_NULL_OBJECT :: int where "ERR_NULL_OBJECT = - 2"
definition ERR_NAME_NOT_FOUND :: int where "ERR_NAME_NOT_FOUND = - 3"

text \<open>The manager of one process; objects are shared, so they live in a store.\<close>

record 'b LocalSam =
  ls_abilities :: "u32 \<rightharpoonup> nat"
  ls_objects :: "nat \<Rightarrow> 'b RemoteObject"

definition LocalAddSystemAbility :: "u32 \<Rightarrow> nat option \<Rightarrow> 'b LocalSam \<Rightarrow> int \<times> 'b LocalSam" where
  "LocalAddSystemAbility sa object ls =
     (case object of None \<Rightarrow> (ERR_NULL_OBJECT, ls) | Some obj \<Rightarrow> (ERR_OK, ls\<lparr>ls_abilities := (ls_abilities ls)(sa \<mapsto> obj)\<rparr>))"

definition LocalCheckSystemAbility :: "u32 \<Rightarrow> 'b LocalSam \<Rightarrow> nat option" where
  "LocalCheckSystemAbility sa ls = ls_abilities ls sa"

definition LocalLoadSystemAbility :: "u32 \<Rightarrow> 'b LocalSam \<Rightarrow> nat option" where
  "LocalLoadSystemAbility sa ls = LocalCheckSystemAbility sa ls"

definition LocalUnloadSystemAbility :: "(nat \<Rightarrow> bool) \<Rightarrow> u32 \<Rightarrow> 'b LocalSam \<Rightarrow> int \<times> nat list \<times> 'b LocalSam" where
  "LocalUnloadSystemAbility alive sa ls =
     (case ls_abilities ls sa of
        None \<Rightarrow> (ERR_NAME_NOT_FOUND, [], ls)
      | Some obj \<Rightarrow>
          (case NotifyRemoteDiedForTest alive (ls_objects ls obj) of (called, ro) \<Rightarrow>
           (ERR_OK, called, ls\<lparr>ls_abilities := (ls_abilities ls)(sa := None), ls_objects := (ls_objects ls)(obj := ro)\<rparr>)))"

text \<open>The manager in front of the registry; each call has its connection.\<close>

definition RemoteAddSystemAbility :: "RegistryConn \<Rightarrow> u32 \<Rightarrow> 'b RemoteObject option \<Rightarrow> int" where
  "RemoteAddSystemAbility conn sa object =
     (case object of
        None \<Rightarrow> ERR_NULL_OBJECT
      | Some ro \<Rightarrow> if \<not> BackendAddService conn sa (ro_service_path ro) then ERR_INVALID_VALUE else ERR_OK)"

definition remote_at :: "u32 \<Rightarrow> string \<Rightarrow> 'b RemoteObject" where
  "remote_at sa path = SetServicePath path (SetSaId sa new_RemoteObject)"

definition RemoteCheckSystemAbility :: "RegistryConn \<Rightarrow> u32 \<Rightarrow> 'b RemoteObject option" where
  "RemoteCheckSystemAbility conn sa =
     (let path = BackendGetServicePath conn sa in if path = [] then None else Some (remote_at sa path))"

text \<open>The loop of \<^verbatim>\<open>LoadSystemAbility\<close>, over the connection and the reading of the clock (in milliseconds) of each turn.  The result
  is \<open>None\<close> when the turns given are used up before the loop returned.\<close>

fun LoadTurns :: "u32 \<Rightarrow> int \<Rightarrow> int \<Rightarrow> (RegistryConn \<times> int) list \<Rightarrow> 'b RemoteObject option option" where
  "LoadTurns sa timeout deadline [] = None"
| "LoadTurns sa timeout deadline ((conn, now) # turns) =
     (let path = BackendLoadService conn sa
      in if path \<noteq> [] then Some (Some (remote_at sa path))
         else if timeout \<le> 0 \<or> now \<ge> deadline then Some None
         else LoadTurns sa timeout deadline turns)"

definition RemoteLoadSystemAbility :: "u32 \<Rightarrow> int \<Rightarrow> int \<Rightarrow> (RegistryConn \<times> int) list \<Rightarrow> 'b RemoteObject option option" where
  "RemoteLoadSystemAbility sa timeout start turns = LoadTurns sa timeout (start + max timeout 0) turns"

definition RemoteUnloadSystemAbility :: "RegistryConn \<Rightarrow> u32 \<Rightarrow> int" where
  "RemoteUnloadSystemAbility conn sa = (if \<not> BackendUnloadService conn sa then ERR_NAME_NOT_FOUND else ERR_OK)"

text \<open>\<^verbatim>\<open>SystemAbility::Publish\<close> with the result of \<^verbatim>\<open>AddSystemAbility\<close>: the ability is registered before its socket listens.\<close>

definition SystemAbilityPublish ::
  "int \<Rightarrow> 'b RemoteObject option \<Rightarrow> int \<Rightarrow> bool \<Rightarrow> bool \<Rightarrow> MockServiceSocket \<Rightarrow> bool \<times> int list \<times> MockServiceSocket" where
  "SystemAbilityPublish added object fd bound listening transport =
     (case object of
        None \<Rightarrow> (False, [], transport)
      | Some ro \<Rightarrow>
          if added \<noteq> ERR_OK then (False, [], transport)
          else if ro_service_path ro \<noteq> [] then SocketStart (ro_service_path ro) fd bound listening transport
          else (True, [], transport))"

definition SystemAbilityOnStop :: "MockServiceSocket \<Rightarrow> int list \<times> MockServiceSocket" where
  "SystemAbilityOnStop transport = SocketStop transport"

text \<open>The loop ends: it sleeps 20 ms per turn, so it is over when the turns cover the time-out.\<close>

lemma LoadTurns_returns:
  assumes "\<forall>i < length turns. t0 + 20 * int i \<le> snd (turns ! i)" "deadline \<le> t0 + 20 * (int (length turns) - 1)" "turns \<noteq> []"
  shows "\<exists>result. LoadTurns sa timeout deadline turns = Some result"
  using assms
proof (induction turns arbitrary: t0)
  case Nil
  then show ?case by simp
next
  case (Cons turn turns)
  obtain conn now where turn: "turn = (conn, now)" by (cases turn)
  show ?case
  proof (cases "turns = []")
    case True
    have "t0 \<le> now" using Cons.prems(1) turn by force
    with True turn Cons.prems(2) show ?thesis by (simp add: Let_def)
  next
    case False
    have "\<forall>i < length turns. (t0 + 20) + 20 * int i \<le> snd (turns ! i)"
    proof (intro allI impI)
      fix i assume "i < length turns"
      then show "(t0 + 20) + 20 * int i \<le> snd (turns ! i)" using Cons.prems(1) [rule_format, of "Suc i"] by simp
    qed
    moreover have "deadline \<le> (t0 + 20) + 20 * (int (length turns) - 1)" using Cons.prems(2) by simp
    ultimately show ?thesis using Cons.IH False turn by (auto simp: Let_def)
  qed
qed

section \<open>Loading the engine through the registry\<close>

text \<open>The turns of a load, each answered by the registry: its request reaches the accept thread, cut anyhow and as far as it was
  sent, and what the accept thread sends is what arrives.\<close>

inductive served ::
  "(string \<Rightarrow> bool) \<Rightarrow> u32 \<Rightarrow> (RegistryConn \<times> int) list \<Rightarrow> Services \<times> Supervisor \<Rightarrow> Services \<times> Supervisor \<Rightarrow> bool" for reach sa where
  served_none: "served reach sa [] st st"
| served_turn: "\<lbrakk>SendRequest conn RegistryOp_Load sa [] = (r, sent, closed); clean chunks; concat chunks = sent;
      HandleClient reach id (ConfigureRegistry id) chunks rcs st = (out, st1); clean (rc_reply conn); concat (rc_reply conn) = out;
      served reach sa turns st1 st'\<rbrakk> \<Longrightarrow> served reach sa ((conn, now) # turns) st st'"

inductive_cases served_cases: "served reach sa (t # turns) st st'"

lemma served_load:
  assumes "served reach sa ((conn, now) # turns) st st'"
  obtains st1 where "served reach sa turns st1 st'"
    "st1 = st \<and> BackendLoadService conn sa = [] \<or>
     (\<exists>resp. ProcessRequest reach id (ConfigureRegistry id) \<lparr>gq_op = RegistryOp_Load, gq_sa_id = sa, gq_payload = []\<rparr> st = (resp, st1) \<and>
        (BackendLoadService conn sa \<noteq> [] \<longrightarrow> rr_err_code resp = 0 \<and> BackendLoadService conn sa = rr_payload resp))"
proof -
  let ?req = "\<lparr>gq_op = RegistryOp_Load, gq_sa_id = sa, gq_payload = []\<rparr>"
  from assms obtain r sent closed chunks rcs out st1 where t: "SendRequest conn RegistryOp_Load sa [] = (r, sent, closed)" "clean chunks" "concat chunks = sent"
      "HandleClient reach id (ConfigureRegistry id) chunks rcs st = (out, st1)" "clean (rc_reply conn)" "concat (rc_reply conn) = out"
      "served reach sa turns st1 st'"
    by (rule served_cases) blast
  obtain resp st2 where pr: "ProcessRequest reach id (ConfigureRegistry id) ?req st = (resp, st2)" by (meson surj_pair)
  have b: "BackendLoadService conn sa = (if r = REGISTRY_REQUEST_FAILED then [] else r)"
    using t(1) by (simp add: BackendLoadService_def LoadServicePath_def Let_def)
  have "st1 = st \<or> st1 = st2" "r \<noteq> REGISTRY_REQUEST_FAILED \<longrightarrow> st1 = st2 \<and> rr_err_code resp = 0 \<and> r = rr_payload resp"
    using registry_answers [OF t(1) refl pr t(2,3,4,5,6)] by blast+
  with b pr that [OF t(7)] show thesis by (metis (no_types, lifting))
qed

lemma load_fails:
  assumes "sv_engine_pid (snd st) > 0" "\<forall>p. \<not> reach p" "served reach VIRUS_PROTECTION_EXECUTOR_SA_ID turns st st'"
  shows "snd st' = snd st \<and> (LoadTurns VIRUS_PROTECTION_EXECUTOR_SA_ID timeout deadline turns :: 'b RemoteObject option option) \<in> {None, Some None}"
  using assms
proof (induction turns arbitrary: st)
  case Nil
  then show ?case by (auto elim: served.cases)
next
  case (Cons t turns)
  obtain conn now where t: "t = (conn, now)" by (cases t)
  obtain m sv where st: "st = (m, sv)" by (cases st)
  let ?req = "\<lparr>gq_op = RegistryOp_Load, gq_sa_id = VIRUS_PROTECTION_EXECUTOR_SA_ID, gq_payload = []\<rparr>"
  obtain m' where load: "ProcessRequest reach id (ConfigureRegistry id) ?req (m, sv) = (\<lparr>rr_err_code = - 1, rr_payload = []\<rparr>, m', sv)"
    using load_with_engine [of sv ?req reach m] Cons.prems(1,2) st by (cases "m VIRUS_PROTECTION_EXECUTOR_SA_ID") (auto simp: IsReachableServiceSocket_def)
  obtain st1 where "served reach VIRUS_PROTECTION_EXECUTOR_SA_ID turns st1 st'"
      "st1 = st \<and> BackendLoadService conn VIRUS_PROTECTION_EXECUTOR_SA_ID = [] \<or>
       (\<exists>resp. ProcessRequest reach id (ConfigureRegistry id) ?req st = (resp, st1) \<and>
          (BackendLoadService conn VIRUS_PROTECTION_EXECUTOR_SA_ID \<noteq> [] \<longrightarrow>
             rr_err_code resp = 0 \<and> BackendLoadService conn VIRUS_PROTECTION_EXECUTOR_SA_ID = rr_payload resp))"
    using served_load [OF Cons.prems(3) [unfolded t]] by blast
  then have st1: "served reach VIRUS_PROTECTION_EXECUTOR_SA_ID turns st1 st'" "snd st1 = sv" "BackendLoadService conn VIRUS_PROTECTION_EXECUTOR_SA_ID = []"
    using load st by auto
  have "sv_engine_pid (snd st1) > 0" using Cons.prems(1) st st1(2) by simp
  from Cons.IH [OF this Cons.prems(2) st1(1)] st1(2,3) st t show ?case by (auto simp: Let_def)
qed

text \<open>The whole program: \<open>reqs\<close> are the requests served while the client runs and \<open>status\<close> is the client's exit status.\<close>

definition supervisor_main ::
  "int \<Rightarrow> bool \<Rightarrow> bool \<Rightarrow> ((string \<Rightarrow> bool) \<times> RegistryRequest) list \<Rightarrow> int \<Rightarrow> string \<Rightarrow> Supervisor \<Rightarrow> int \<times> Supervisor" where
  "supervisor_main fd bound listening reqs status registrySocket sv =
     (case StartRegistryAndEngine fd bound listening (new_RegistryServer registrySocket) sv of (started, _, rg, sv1) \<Rightarrow>
      if \<not> started then (1, sv1)
      else case RunClientSession status sv1 of (clientStatus, sv2) \<Rightarrow>
        case ShutdownSupervisor rg (snd (fold supervised reqs (rg_services rg, sv2))) of (_, _, sv3) \<Rightarrow> (clientStatus, sv3))"

lemma start_owned:
  assumes "StartRegistryAndEngine fd bound listening rg sv0 = (started, closed, rg1, sv)" "0 \<notin> set (sv_forks sv0)" "sv_engine_pid sv0 = NO_CHILD_PID"
    "sv_spawned sv0 = []" "sv_killed sv0 = []"
  shows "engine_owned sv \<and> (started \<longrightarrow> sv_engine_pid sv > 0) \<and> (\<not> started \<longrightarrow> sv_spawned sv = [])"
  using assms
  by (auto simp: StartRegistryAndEngine_def SpawnEngine_def sys_fork_def engine_owned_def NO_CHILD_PID_def split: prod.splits if_splits list.splits)

lemma shutdown_owned:
  "engine_owned sv \<Longrightarrow> case ShutdownSupervisor rg sv of (_, _, sv') \<Rightarrow> mset (sv_spawned sv') = mset (sv_killed sv')"
  by (auto simp: ShutdownSupervisor_def TakePid_def KillAndWait_def engine_owned_def split: prod.splits)

lemma supervisor_main_owned:
  assumes "0 \<notin> set (sv_forks sv0)" "sv_engine_pid sv0 = NO_CHILD_PID" "sv_spawned sv0 = []" "sv_killed sv0 = []"
  shows "case supervisor_main fd bound listening reqs status path sv0 of (_, sv) \<Rightarrow> mset (sv_spawned sv) = mset (sv_killed sv)"
proof -
  obtain started closed rg sv1 where st: "StartRegistryAndEngine fd bound listening (new_RegistryServer path) sv0 = (started, closed, rg, sv1)"
    by (metis prod_cases4)
  note own = start_owned [OF st assms]
  obtain cs sv2 where rc: "RunClientSession status sv1 = (cs, sv2)" by (meson surj_pair)
  have "engine_owned sv2" if "engine_owned sv1"
    using that rc by (auto simp: RunClientSession_def SpawnClient_def sys_fork_def engine_owned_def split: prod.splits if_splits list.splits)
  then have "engine_owned (snd (fold supervised reqs (rg_services rg, sv2)))"
    using own supervised_all_owned [of reqs "rg_services rg" sv2] by (cases "fold supervised reqs (rg_services rg, sv2)") auto
  from shutdown_owned [OF this, of rg] own show ?thesis
    by (auto simp: supervisor_main_def st rc engine_owned_def split: prod.splits if_splits)
qed


definition demo_supervisor :: Supervisor where
  "demo_supervisor = \<lparr>sv_engine_pid = - 1, sv_client_pid = - 1, sv_forks = [101, 102], sv_spawned = [], sv_killed = []\<rparr>"

definition demo_unload :: RegistryRequest where
  "demo_unload = \<lparr>gq_op = RegistryOp_Unload, gq_sa_id = VIRUS_PROTECTION_EXECUTOR_SA_ID, gq_payload = []\<rparr>"

definition demo_load :: RegistryRequest where
  "demo_load = \<lparr>gq_op = RegistryOp_Load, gq_sa_id = VIRUS_PROTECTION_EXECUTOR_SA_ID, gq_payload = []\<rparr>"


end
