(* ===== verification/Ves_Client.thy ===== *)
theory Ves_Client
  imports Ves_Supervisor Memrpc_ClientClaims
begin

text \<open>
  The client library of the scan service: \<open>VesClient\<close> is the class of that name (\<^verbatim>\<open>ves_client.cpp\<close>), which owns an RPC client
  and a bootstrap channel, limits restarts with a budget and repeats calls while the client recovers.  Its recovery policy reads
  and advances a counter, so it is a record of state-passing functions.  The typed clients of the testkit
  (\<^verbatim>\<open>testkit_client.cpp\<close>, \<^verbatim>\<open>testkit_async_client.cpp\<close>) come last.
\<close>

section \<open>ves_client.cpp: the restart budget\<close>

definition DEFAULT_RESTART_DELAY_MS :: u32 where
  "DEFAULT_RESTART_DELAY_MS = 200"

record VesClientOptions =
  vo_idleShutdownTimeoutMs :: u32
  vo_maxEngineDeathsBeforePermanentStop :: u32
  vo_recoveryPolicy :: RecoveryPolicy
  vo_openSessionRequest :: VesOpenSessionRequest

definition default_VesClientOptions :: VesClientOptions where
  "default_VesClientOptions =
     \<lparr>vo_idleShutdownTimeoutMs = 60000, vo_maxEngineDeathsBeforePermanentStop = 100, vo_recoveryPolicy = no_policy,
      vo_openSessionRequest = DefaultVesOpenSessionRequest\<rparr>"

definition EngineDeathLimitReached :: "u32 \<Rightarrow> u32 \<Rightarrow> bool" where
  "EngineDeathLimitReached engineDeathCount limit \<longleftrightarrow> limit > 0 \<and> engineDeathCount \<ge> limit"

definition ResetRestartBudget :: "u32 \<Rightarrow> u32" where
  "ResetRestartBudget engineDeathCount = 0"

definition ApplyRestartBudget :: "RecoveryDecision \<Rightarrow> u32 \<Rightarrow> u32 \<Rightarrow> RecoveryDecision \<times> u32" where
  "ApplyRestartBudget decision engineDeathCount maxDeaths =
     (if rd_action decision \<noteq> ActRestart then (decision, engineDeathCount)
      else let restartCount = engineDeathCount + 1
           in if maxDeaths > 0 \<and> restartCount \<ge> maxDeaths then (\<lparr>rd_action = ActIgnore, rd_delayMs = 0\<rparr>, restartCount)
              else (decision, restartCount))"

text \<open>The policy that the client gets: the callbacks read and advance the shared counter.\<close>

record BudgetedPolicy =
  bp_onFailure :: "RpcFailure \<Rightarrow> u32 \<Rightarrow> RecoveryDecision \<times> u32"
  bp_onIdle :: "(u64 \<Rightarrow> RecoveryDecision) option"
  bp_onEngineDeath :: "u64 \<Rightarrow> u32 \<Rightarrow> RecoveryDecision \<times> u32"

definition default_onFailure :: "RpcFailure \<Rightarrow> RecoveryDecision" where
  "default_onFailure failure =
     (if rf_status failure = ExecTimeout then \<lparr>rd_action = ActRestart, rd_delayMs = DEFAULT_RESTART_DELAY_MS\<rparr>
      else \<lparr>rd_action = ActIgnore, rd_delayMs = 0\<rparr>)"

definition default_onEngineDeath :: "u64 \<Rightarrow> RecoveryDecision" where
  "default_onEngineDeath deadSessionId = \<lparr>rd_action = ActRestart, rd_delayMs = DEFAULT_RESTART_DELAY_MS\<rparr>"

definition default_onIdle :: "u32 \<Rightarrow> u64 \<Rightarrow> RecoveryDecision" where
  "default_onIdle timeout idleMs =
     (if idleMs < ucast timeout then \<lparr>rd_action = ActIgnore, rd_delayMs = 0\<rparr> else \<lparr>rd_action = ActIdleClose, rd_delayMs = 0\<rparr>)"

definition BuildRecoveryPolicy :: "VesClientOptions \<Rightarrow> BudgetedPolicy" where
  "BuildRecoveryPolicy options =
     (let policy = vo_recoveryPolicy options; maxDeaths = vo_maxEngineDeathsBeforePermanentStop options;
          onFailure = (case po_onFailure policy of None \<Rightarrow> default_onFailure | Some f \<Rightarrow> f);
          onEngineDeath = (case po_onEngineDeath policy of None \<Rightarrow> default_onEngineDeath | Some f \<Rightarrow> f)
      in \<lparr>bp_onFailure = (\<lambda>failure deaths. ApplyRestartBudget (onFailure failure) deaths maxDeaths),
          bp_onIdle = (case po_onIdle policy of
              None \<Rightarrow> if vo_idleShutdownTimeoutMs options > 0 then Some (default_onIdle (vo_idleShutdownTimeoutMs options)) else None
            | Some f \<Rightarrow> Some f),
          bp_onEngineDeath = (\<lambda>dead deaths. ApplyRestartBudget (onEngineDeath dead) deaths maxDeaths)\<rparr>)"

text \<open>What the RPC client sees of it while the counter has a given value.\<close>

definition policy_at :: "u32 \<Rightarrow> BudgetedPolicy \<Rightarrow> RecoveryPolicy" where
  "policy_at deaths policy =
     \<lparr>po_onFailure = Some (\<lambda>failure. fst (bp_onFailure policy failure deaths)), po_onIdle = bp_onIdle policy,
      po_onEngineDeath = Some (\<lambda>dead. fst (bp_onEngineDeath policy dead deaths))\<rparr>"

section \<open>ves_client.cpp: the client\<close>

record VesGlobals =
  vg_nextVesClientGeneration :: u64
  vg_activeVesClientGeneration :: u64

definition initial_VesGlobals :: VesGlobals where
  "initial_VesGlobals = \<lparr>vg_nextVesClientGeneration = 1, vg_activeVesClientGeneration = 0\<rparr>"

record VesClient =
  vc_bootstrapChannel :: "Channel option"
  vc_client :: Client
  vc_options :: VesClientOptions
  vc_engineDeathCount :: u32
  vc_instanceGeneration :: u64

definition new_VesClient :: "Client \<Rightarrow> VesClientOptions \<Rightarrow> VesGlobals \<Rightarrow> VesClient \<times> VesGlobals" where
  "new_VesClient client options g =
     (\<lparr>vc_bootstrapChannel = None, vc_client = client, vc_options = options, vc_engineDeathCount = 0,
       vc_instanceGeneration = vg_nextVesClientGeneration g\<rparr>,
      g\<lparr>vg_nextVesClientGeneration := vg_nextVesClientGeneration g + 1\<rparr>)"

definition ClaimProcessOwnership :: "VesClient \<Rightarrow> VesGlobals \<Rightarrow> VesGlobals" where
  "ClaimProcessOwnership vc g = g\<lparr>vg_activeVesClientGeneration := vc_instanceGeneration vc\<rparr>"

definition IsProcessOwner :: "VesClient \<Rightarrow> VesGlobals \<Rightarrow> bool" where
  "IsProcessOwner vc g \<longleftrightarrow> vg_activeVesClientGeneration g = vc_instanceGeneration vc"

text \<open>The access policy that the channel is created with.\<close>

definition access_policy :: "VesClient \<Rightarrow> VesGlobals \<Rightarrow> bool" where
  "access_policy vc g \<longleftrightarrow> IsProcessOwner vc g \<and>
     \<not> EngineDeathLimitReached (vc_engineDeathCount vc) (vo_maxEngineDeathsBeforePermanentStop (vc_options vc))"

text \<open>\<open>boot\<close> has the outcomes of the channel's \<^verbatim>\<open>OpenSession\<close>.\<close>

definition InitClient ::
  "(nat \<Rightarrow> BootCall) \<Rightarrow> ClientInitMode \<Rightarrow> VesClient \<Rightarrow> VesGlobals \<Rightarrow> World \<Rightarrow> StatusCode \<times> VesClient \<times> VesGlobals \<times> World" where
  "InitClient boot mode vc g w =
     (let g1 = ClaimProcessOwnership vc g;
          channel = (case vc_bootstrapChannel vc of
              None \<Rightarrow> new_Channel (vo_openSessionRequest (vc_options vc)) | Some bc \<Rightarrow> bc);
          cl1 = SetBootstrapChannel (Some boot) (vc_client vc);
          cl2 = SetRecoveryPolicy (policy_at (vc_engineDeathCount vc) (BuildRecoveryPolicy (vc_options vc))) cl1
      in case Init mode cl2 w of (status, cl3, w1) \<Rightarrow>
         let vc1 = vc\<lparr>vc_bootstrapChannel := Some channel, vc_client := cl3\<rparr>
         in if status \<noteq> Ok then (status, vc1, g1, w1)
            else (Ok, vc1\<lparr>vc_engineDeathCount := ResetRestartBudget (vc_engineDeathCount vc1)\<rparr>, g1, w1))"

definition VesInit ::
  "(nat \<Rightarrow> BootCall) \<Rightarrow> VesClient \<Rightarrow> VesGlobals \<Rightarrow> World \<Rightarrow> StatusCode \<times> VesClient \<times> VesGlobals \<times> World" where
  "VesInit boot vc g w = InitClient boot EagerSession vc g w"

definition Connect ::
  "(nat \<Rightarrow> BootCall) \<Rightarrow> Client \<Rightarrow> VesClientOptions \<Rightarrow> VesGlobals \<Rightarrow> World \<Rightarrow> VesClient option \<times> VesGlobals \<times> World" where
  "Connect boot client options g w =
     (case new_VesClient client options g of (vc, g1) \<Rightarrow>
      case InitClient boot LazySession vc g1 w of (status, vc1, g2, w1) \<Rightarrow>
      if status \<noteq> Ok then (None, g2, w1) else (Some vc1, g2, w1))"

definition VesSetEventCallback :: "bool \<Rightarrow> VesClient \<Rightarrow> VesClient" where
  "VesSetEventCallback callback vc = vc\<lparr>vc_client := SetEventCallback callback (vc_client vc)\<rparr>"

definition VesShutdown :: "(PendingSubmit \<times> PendingInfo) option \<Rightarrow> VesClient \<Rightarrow> World \<Rightarrow> VesClient \<times> World" where
  "VesShutdown inHand vc w =
     (case Shutdown inHand (SetRecoveryPolicy no_policy (vc_client vc)) w of (cl, w1) \<Rightarrow>
      (vc\<lparr>vc_client := cl, vc_bootstrapChannel := None\<rparr>, w1))"

definition VesCurrentControl :: "VesClient \<Rightarrow> ChannelWorld \<Rightarrow> Control option \<times> VesClient \<times> ChannelWorld" where
  "VesCurrentControl vc cw =
     (case vc_bootstrapChannel vc of
        None \<Rightarrow> (None, vc, cw)
      | Some bc \<Rightarrow> (case CurrentControl bc cw of (control, bc1, cw1) \<Rightarrow> (control, vc\<lparr>vc_bootstrapChannel := Some bc1\<rparr>, cw1)))"

section \<open>ves_client.cpp: calls\<close>

definition InvokeMemRpcApi_call :: "u16 \<Rightarrow> Priority \<Rightarrow> u32 \<Rightarrow> bytes \<Rightarrow> RpcCall" where
  "InvokeMemRpcApi_call opcode priority execTimeoutMs payload =
     \<lparr>ca_opcode = opcode, ca_priority = priority, ca_execTimeoutMs = execTimeoutMs, ca_payload = payload\<rparr>"

definition EncodeInvokePayload :: "('q \<Rightarrow> bytes option) \<Rightarrow> 'q \<Rightarrow> StatusCode \<times> bytes" where
  "EncodeInvokePayload encode request = (case encode request of None \<Rightarrow> (ProtocolMismatch, []) | Some payload \<Rightarrow> (Ok, payload))"

text \<open>A further attempt of a call: the client at the look at the snapshot, the clock, the result of the wait, and the reply that
  the future of the attempt delivers.\<close>

record InvokeTurn =
  it_client :: Client
  it_now :: nat
  it_wait :: StatusCode
  it_reply :: RpcReply

text \<open>The loop of \<^verbatim>\<open>RetryUntilRecoverySettles\<close> with the attempts of \<^verbatim>\<open>InvokeApi\<close>: the status and the decoded reply of the
  last attempt, and whether the budget was reset.\<close>

fun invoke_loop ::
  "(bytes option \<Rightarrow> nat \<Rightarrow> 'r option) \<Rightarrow> nat \<Rightarrow> StatusCode \<times> 'r option \<Rightarrow> InvokeTurn list \<Rightarrow> StatusCode \<times> 'r option" where
  "invoke_loop decode deadline result [] = result"
| "invoke_loop decode deadline result (t # ts) =
     (let snapshot = GetRecoveryRuntimeSnapshot (it_client t);
          deadline' = max deadline (unat (cl_now (it_client t)) + computeWaitBudget snapshot)
      in if \<not> ShouldRetryRecoveryStatus (fst result) snapshot then result
         else if it_now t \<ge> deadline' then result
         else if it_wait t \<noteq> Ok then result
         else invoke_loop decode deadline' (WaitAndDecode decode (it_reply t)) ts)"

text \<open>\<^verbatim>\<open>InvokeApi\<close>: \<open>first\<close> is the reply of the first attempt and \<open>turns\<close> are the further ones; \<open>after\<close> is the client when the
  call ends, and \<open>inHand\<close> what its submit worker holds then.\<close>

definition InvokeApi ::
  "('q \<Rightarrow> bytes option) \<Rightarrow> (bytes option \<Rightarrow> nat \<Rightarrow> 'r option) \<Rightarrow> 'q \<Rightarrow> RpcReply \<Rightarrow> InvokeTurn list \<Rightarrow> Client \<Rightarrow>
     (PendingSubmit \<times> PendingInfo) option \<Rightarrow> VesClient \<Rightarrow> World \<Rightarrow>
     StatusCode \<times> 'r option \<times> VesClient \<times> World" where
  "InvokeApi encode decode request first turns after inHand vc w =
     (if sn_lifecycleState (GetRecoveryRuntimeSnapshot (vc_client vc)) = LcClosed then (ClientClosed, None, vc, w)
      else case EncodeInvokePayload encode request of (encoded, payload) \<Rightarrow>
      if encoded \<noteq> Ok then (encoded, None, vc, w)
      else
        let result = WaitAndDecode decode first;
            (status, reply) = (if fst result = Ok then result
              else invoke_loop decode (unat (cl_now (vc_client vc)) + computeWaitBudget (GetRecoveryRuntimeSnapshot (vc_client vc))) result turns);
            vc1 = vc\<lparr>vc_client := after,
              vc_engineDeathCount := (if status = Ok then ResetRestartBudget (vc_engineDeathCount vc) else vc_engineDeathCount vc)\<rparr>
        in if status = ClientClosed \<and> (case vc_bootstrapChannel vc1 of None \<Rightarrow> False | Some bc \<Rightarrow> bc_fatalControlLoadFailure bc)
           then (case VesShutdown inHand vc1 w of (vc2, w1) \<Rightarrow> (status, reply, vc2, w1))
           else (status, reply, vc1, w))"

definition VesScanFile ::
  "ScanTask \<Rightarrow> RpcReply \<Rightarrow> InvokeTurn list \<Rightarrow> Client \<Rightarrow> (PendingSubmit \<times> PendingInfo) option \<Rightarrow> VesClient \<Rightarrow> World \<Rightarrow>
     StatusCode \<times> ScanFileReply option \<times> VesClient \<times> World" where
  "VesScanFile scanTask first turns after inHand vc w =
     InvokeApi EncodeScanTask DecodeScanFileReply scanTask first turns after inHand vc w"

section \<open>ves_client.cpp: the control loader\<close>

text \<open>A broker is the proxy for a socket path.\<close>

definition RegisterVesControlProxyFactory :: "string Creators \<Rightarrow> string Creators" where
  "RegisterVesControlProxyFactory creators = RegisterCreator VIRUS_PROTECTION_EXECUTOR_SA_ID ro_service_path creators"

text \<open>The loader in front of the registry, with the connection of its check and the turns of its load.  The first component has the
  controls whose session it closed.\<close>

definition BuildControlLoader ::
  "int \<Rightarrow> (string \<Rightarrow> bool) \<Rightarrow> string Creators \<Rightarrow> RegistryConn \<Rightarrow> int \<Rightarrow> (RegistryConn \<times> int) list \<Rightarrow> string list \<times> string option option" where
  "BuildControlLoader loadTimeoutMs alive creators conn start turns =
     (let remote = RemoteCheckSystemAbility conn VIRUS_PROTECTION_EXECUTOR_SA_ID;
          closed = (case fst (iface_cast alive creators remote) of None \<Rightarrow> [] | Some control \<Rightarrow> [control])
      in (closed,
          case RemoteLoadSystemAbility VIRUS_PROTECTION_EXECUTOR_SA_ID loadTimeoutMs start turns of
            None \<Rightarrow> None
          | Some loaded \<Rightarrow> Some (fst (iface_cast alive creators loaded))))"

lemma iface_cast_remote_at:
  "iface_cast alive (RegisterVesControlProxyFactory creators) (Some (remote_at VIRUS_PROTECTION_EXECUTOR_SA_ID path)) =
     (Some path, Some (AttachBroker path (remote_at VIRUS_PROTECTION_EXECUTOR_SA_ID path)))"
  by (simp add: iface_cast_def GetBroker_def remote_at_def new_RemoteObject_def SetServicePath_def SetSaId_def CreateBroker_def
      RegisterVesControlProxyFactory_def RegisterCreator_def VIRUS_PROTECTION_EXECUTOR_SA_ID_def)

text \<open>The loader yields a proxy for exactly the path that a turn of the load got from the registry.\<close>

lemma LoadTurns_path:
  "LoadTurns sa timeout deadline turns = Some (Some ro) \<Longrightarrow> \<exists>conn \<in> fst ` set turns. ro = remote_at sa (BackendLoadService conn sa) \<and> BackendLoadService conn sa \<noteq> []"
  by (induction turns) (auto simp: Let_def split: if_splits)

lemma loader_path:
  assumes "snd (BuildControlLoader timeout alive (RegisterVesControlProxyFactory creators) conn start turns) = Some (Some path)"
  shows "path \<noteq> [] \<and> (\<exists>c \<in> fst ` set turns. path = BackendLoadService c VIRUS_PROTECTION_EXECUTOR_SA_ID)"
proof -
  obtain loaded where l: "RemoteLoadSystemAbility VIRUS_PROTECTION_EXECUTOR_SA_ID timeout start turns = Some loaded"
    "fst (iface_cast alive (RegisterVesControlProxyFactory creators) loaded) = Some path"
    using assms by (auto simp: BuildControlLoader_def Let_def split: option.splits)
  show ?thesis
  proof (cases loaded)
    case None
    with l(2) show ?thesis by (simp add: iface_cast_def)
  next
    case (Some ro)
    obtain c where c: "c \<in> fst ` set turns" "ro = remote_at VIRUS_PROTECTION_EXECUTOR_SA_ID (BackendLoadService c VIRUS_PROTECTION_EXECUTOR_SA_ID)"
      "BackendLoadService c VIRUS_PROTECTION_EXECUTOR_SA_ID \<noteq> []"
      using LoadTurns_path [OF l(1) [unfolded RemoteLoadSystemAbility_def Some]] by (elim bexE conjE) (rule that)
    from l(2) have "path = BackendLoadService c VIRUS_PROTECTION_EXECUTOR_SA_ID" unfolding Some c(2) iface_cast_remote_at by simp
    then show ?thesis using c(1,3) by (intro conjI bexI [of _ c]) simp_all
  qed
qed

section \<open>The budget over a sequence of events\<close>

datatype BudgetEvent = BudgetFailure RpcFailure | BudgetDeath u64

text \<open>What the application's callbacks ask for, before the budget.\<close>

fun asks_restart :: "VesClientOptions \<Rightarrow> BudgetEvent \<Rightarrow> bool" where
  "asks_restart options (BudgetFailure failure) \<longleftrightarrow>
     rd_action (case po_onFailure (vo_recoveryPolicy options) of None \<Rightarrow> default_onFailure failure | Some f \<Rightarrow> f failure) = ActRestart"
| "asks_restart options (BudgetDeath dead) \<longleftrightarrow>
     rd_action (case po_onEngineDeath (vo_recoveryPolicy options) of None \<Rightarrow> default_onEngineDeath dead | Some f \<Rightarrow> f dead) = ActRestart"

fun policy_call :: "BudgetedPolicy \<Rightarrow> BudgetEvent \<Rightarrow> u32 \<Rightarrow> RecoveryDecision \<times> u32" where
  "policy_call policy (BudgetFailure failure) deaths = bp_onFailure policy failure deaths"
| "policy_call policy (BudgetDeath dead) deaths = bp_onEngineDeath policy dead deaths"

fun budget_run :: "BudgetedPolicy \<Rightarrow> BudgetEvent list \<Rightarrow> u32 \<Rightarrow> RecoveryDecision list \<times> u32" where
  "budget_run policy [] deaths = ([], deaths)"
| "budget_run policy (e # es) deaths =
     (case policy_call policy e deaths of (decision, deaths1) \<Rightarrow>
      case budget_run policy es deaths1 of (decisions, deaths2) \<Rightarrow> (decision # decisions, deaths2))"

lemma policy_call_budget:
  "policy_call (BuildRecoveryPolicy options) e deaths =
     (if asks_restart options e then
        (let limit = vo_maxEngineDeathsBeforePermanentStop options
         in (if limit > 0 \<and> deaths + 1 \<ge> limit then \<lparr>rd_action = ActIgnore, rd_delayMs = 0\<rparr>
             else fst (policy_call (BuildRecoveryPolicy options) e deaths), deaths + 1))
      else (fst (policy_call (BuildRecoveryPolicy options) e deaths), deaths))"
  by (cases e) (auto simp: BuildRecoveryPolicy_def ApplyRestartBudget_def Let_def split: option.splits)

lemma policy_call_restart:
  "rd_action (fst (policy_call (BuildRecoveryPolicy options) e deaths)) = ActRestart \<longleftrightarrow>
     asks_restart options e \<and> (vo_maxEngineDeathsBeforePermanentStop options > 0 \<longrightarrow> deaths + 1 < vo_maxEngineDeathsBeforePermanentStop options)"
  by (cases e) (auto simp: BuildRecoveryPolicy_def ApplyRestartBudget_def Let_def split: option.splits)

text \<open>The counter is the number of restarts asked for, and a restart is granted while it is below the limit.\<close>

lemma budget_run_count:
  assumes "unat deaths + length es < 2 ^ 32" "budget_run (BuildRecoveryPolicy options) es deaths = (decisions, deaths')"
    "limit = unat (vo_maxEngineDeathsBeforePermanentStop options)" "limit > 0"
  shows "unat deaths' = unat deaths + length (filter (asks_restart options) es) \<and>
    length (filter (\<lambda>d. rd_action d = ActRestart) decisions) =
      min (length (filter (asks_restart options) es)) (limit - 1 - unat deaths)"
  using assms(1,2)
proof (induction es arbitrary: deaths decisions)
  case Nil
  then show ?case by simp
next
  case (Cons e es)
  obtain d deaths1 where p: "policy_call (BuildRecoveryPolicy options) e deaths = (d, deaths1)" by (meson surj_pair)
  obtain ds where r: "budget_run (BuildRecoveryPolicy options) es deaths1 = (ds, deaths')" "decisions = d # ds"
    using Cons.prems(2) p by (auto split: prod.splits)
  have inc: "unat (deaths + 1) = unat deaths + 1" using Cons.prems(1) by (simp add: unat_word_ariths)
  have lim: "vo_maxEngineDeathsBeforePermanentStop options > 0" using assms(3,4) by (simp add: word_less_nat_alt)
  show ?case
  proof (cases "asks_restart options e")
    case True
    then have "deaths1 = deaths + 1" using p policy_call_budget [of options e deaths] by (simp add: Let_def)
    moreover have "rd_action d = ActRestart \<longleftrightarrow> unat deaths + 1 < limit"
      using policy_call_restart [of options e deaths] p True lim assms(3) by (simp add: word_less_nat_alt inc)
    moreover have "unat deaths1 + length es < 2 ^ 32" using Cons.prems(1) calculation(1) inc by simp
    ultimately show ?thesis using Cons.IH [OF _ r(1)] r(2) True inc by auto
  next
    case False
    then have "deaths1 = deaths" "rd_action d \<noteq> ActRestart"
      using p policy_call_budget [of options e deaths] policy_call_restart [of options e deaths] by simp_all
    then show ?thesis using Cons.IH [OF _ r(1)] r(2) False Cons.prems(1) by simp
  qed
qed

text \<open>C15: The restart budget.  From a reset on, the policy of the client grants exactly as many restarts as were asked for, but at most one less
  than the limit, over any sequence of failures and engine deaths.  When the limit is reached the access policy shuts the
  bootstrap channel: an open is refused at once, without loading a control or opening a session, until a call or an
  initialisation succeeds.  The counter has 32 bits, so this holds for fewer than \<open>2 ^ 32\<close> events.\<close>

theorem restart_budget:
  assumes "vo_maxEngineDeathsBeforePermanentStop (vc_options vc) = limit" "limit > 0" "length events < 2 ^ 32"
    "budget_run (BuildRecoveryPolicy (vc_options vc)) events (ResetRestartBudget deaths) = (decisions, deaths')"
    "asked = length (filter (asks_restart (vc_options vc)) events)"
  shows "length (filter (\<lambda>d. rd_action d = ActRestart) decisions) = min asked (unat limit - 1) \<and>
    (access_policy (vc\<lparr>vc_engineDeathCount := deaths'\<rparr>) g \<longleftrightarrow> IsProcessOwner vc g \<and> asked < unat limit) \<and>
    (unat limit \<le> asked \<longrightarrow> cw_access cw = access_policy (vc\<lparr>vc_engineDeathCount := deaths'\<rparr>) g # rest \<longrightarrow>
       ChannelOpenSession bc cw = (PeerDisconnected, MakeDefaultBootstrapHandles, bc, cw\<lparr>cw_access := rest\<rparr>))"
proof -
  have "unat limit > 0" using assms(2) by (simp add: word_less_nat_alt)
  then have run: "unat deaths' = asked" "length (filter (\<lambda>d. rd_action d = ActRestart) decisions) = min asked (unat limit - 1)"
    using budget_run_count [OF _ assms(4), of "unat limit"] assms(1,3,5) by (simp_all add: ResetRestartBudget_def)
  have access: "access_policy (vc\<lparr>vc_engineDeathCount := deaths'\<rparr>) g \<longleftrightarrow> IsProcessOwner vc g \<and> asked < unat limit"
    using assms(1,2) run(1) by (auto simp: access_policy_def IsProcessOwner_def EngineDeathLimitReached_def word_le_nat_alt)
  then show ?thesis using run(2) by (auto simp: ChannelOpenSession_def AccessAllowedLocked_def)
qed

definition demo_ves_client :: VesClient where
  "demo_ves_client = fst (new_VesClient demo_client0
     (default_VesClientOptions\<lparr>vo_maxEngineDeathsBeforePermanentStop := 2\<rparr>) initial_VesGlobals)"

theorem restart_budget_witness:
  "\<exists>decisions deaths'.
     budget_run (BuildRecoveryPolicy (vc_options demo_ves_client)) [BudgetDeath 7, BudgetDeath 8, BudgetDeath 9] (ResetRestartBudget 5) =
       (decisions, deaths') \<and>
     length (filter (\<lambda>d. rd_action d = ActRestart) decisions) = 1 \<and>
     \<not> access_policy (demo_ves_client\<lparr>vc_engineDeathCount := deaths'\<rparr>) (ClaimProcessOwnership demo_ves_client initial_VesGlobals)"
proof -
  let ?events = "[BudgetDeath 7, BudgetDeath 8, BudgetDeath 9]"
  obtain decisions deaths' where run:
    "budget_run (BuildRecoveryPolicy (vc_options demo_ves_client)) ?events (ResetRestartBudget 5) = (decisions, deaths')" by (meson surj_pair)
  have limit: "vo_maxEngineDeathsBeforePermanentStop (vc_options demo_ves_client) = 2"
    by (simp add: demo_ves_client_def new_VesClient_def)
  have "length (filter (asks_restart (vc_options demo_ves_client)) ?events) = 3"
    by (simp add: demo_ves_client_def new_VesClient_def default_VesClientOptions_def no_policy_def default_onEngineDeath_def)
  from restart_budget [OF limit _ _ run this [symmetric]] run show ?thesis by (simp add: min_def)
qed

section \<open>Calls and ownership\<close>

text \<open>The loop of \<^verbatim>\<open>InvokeApi\<close> is the loop of the RPC client on the statuses of its attempts.\<close>

definition retry_turn :: "(bytes option \<Rightarrow> nat \<Rightarrow> 'r option) \<Rightarrow> InvokeTurn \<Rightarrow> RetryTurn" where
  "retry_turn decode t = \<lparr>rt_client = it_client t, rt_now = it_now t, rt_wait = it_wait t, rt_invoke = fst (WaitAndDecode decode (it_reply t))\<rparr>"

lemma invoke_loop_status:
  "fst (invoke_loop decode deadline result turns) = retry_loop deadline (fst result) (map (retry_turn decode) turns)"
  by (induction decode deadline result turns rule: invoke_loop.induct) (simp_all add: retry_turn_def Let_def)

lemma InvokeApi_retries:
  assumes "InvokeApi encode decode request first turns after inHand vc w = (status, reply, vc', w')"
    "cl_lifecycle (vc_client vc) \<noteq> LcClosed" "encode request = Some payload"
  shows "status = RetryUntilRecoverySettles (vc_client vc) (Some (fst (WaitAndDecode decode first))) (map (retry_turn decode) turns)"
  using assms
  by (auto simp: InvokeApi_def EncodeInvokePayload_def GetRecoveryRuntimeSnapshot_def GetSnapshot_def RetryUntilRecoverySettles_def
      invoke_loop_status [symmetric] Let_def split: prod.splits if_splits)

text \<open>A reply is handed out exactly when the call succeeds.\<close>

lemma WaitAndDecode_reply: "snd (WaitAndDecode decode reply) \<noteq> None \<longleftrightarrow> fst (WaitAndDecode decode reply) = Ok"
  by (auto simp: WaitAndDecode_def split: option.splits)

lemma invoke_loop_reply:
  "(snd result \<noteq> None \<longleftrightarrow> fst result = Ok) \<Longrightarrow>
     snd (invoke_loop decode deadline result turns) \<noteq> None \<longleftrightarrow> fst (invoke_loop decode deadline result turns) = Ok"
proof (induction decode deadline result turns rule: invoke_loop.induct)
  case (2 decode deadline result t ts)
  then show ?case using WaitAndDecode_reply [of decode "it_reply t"] by (auto simp: Let_def)
qed simp

lemma InvokeApi_reply:
  assumes "InvokeApi encode decode request first turns after inHand vc w = (status, reply, vc', w')"
  shows "reply \<noteq> None \<longleftrightarrow> status = Ok" "status = Ok \<Longrightarrow> vc_engineDeathCount vc' = 0"
proof -
  let ?deadline = "unat (cl_now (vc_client vc)) + computeWaitBudget (GetRecoveryRuntimeSnapshot (vc_client vc))"
  note loop = invoke_loop_reply [of "WaitAndDecode decode first" decode ?deadline turns, OF WaitAndDecode_reply]
  show "reply \<noteq> None \<longleftrightarrow> status = Ok"
    using assms loop WaitAndDecode_reply [of decode first]
    by (auto simp: InvokeApi_def EncodeInvokePayload_def Let_def split: prod.splits if_splits option.splits)
  show "status = Ok \<Longrightarrow> vc_engineDeathCount vc' = 0"
    using assms by (auto simp: InvokeApi_def EncodeInvokePayload_def ResetRestartBudget_def Let_def split: prod.splits if_splits option.splits)
qed

text \<open>Only the client that was initialised last may use its channel.\<close>

lemma InitClient_owner:
  assumes "InitClient boot mode vc g w = (status, vc', g', w')"
  shows "IsProcessOwner vc' g' \<and> (vc_instanceGeneration other \<noteq> vc_instanceGeneration vc \<longrightarrow> \<not> access_policy other g')"
  using assms by (auto simp: InitClient_def ClaimProcessOwnership_def IsProcessOwner_def access_policy_def Let_def split: prod.splits if_splits)

lemma new_VesClient_generation:
  assumes "new_VesClient c1 o1 g = (vc1, g1)" "new_VesClient c2 o2 g1 = (vc2, g2)"
  shows "vc_instanceGeneration vc1 \<noteq> vc_instanceGeneration vc2"
  using assms by (auto simp: new_VesClient_def)

section \<open>typed_future.h and the testkit clients\<close>

text \<open>A typed future is the raw future or empty; the result of a wait is \<open>None\<close> while the reply is not there.\<close>

definition TypedFuture_Wait :: "(bytes option \<Rightarrow> nat \<Rightarrow> 'r option) \<Rightarrow> nat option \<Rightarrow> Client \<Rightarrow> (StatusCode \<times> 'r option) option" where
  "TypedFuture_Wait decode future cl = (case Wait future cl of None \<Rightarrow> None | Some rpcReply \<Rightarrow> Some (WaitAndDecode decode rpcReply))"

definition InvokeTypedAsync ::
  "('q \<Rightarrow> bytes option) \<Rightarrow> u16 \<Rightarrow> 'q \<Rightarrow> Priority \<Rightarrow> u32 \<Rightarrow> Client \<Rightarrow> World \<Rightarrow> nat option \<times> Client \<times> World" where
  "InvokeTypedAsync encode opcode request priority execTimeoutMs cl w =
     (case encode request of
        None \<Rightarrow> (None, cl, w)
      | Some payload \<Rightarrow>
          (case InvokeAsync \<lparr>ca_opcode = opcode, ca_priority = priority, ca_execTimeoutMs = execTimeoutMs, ca_payload = payload\<rparr> cl w of
             (f, cl1, w1) \<Rightarrow> (Some f, cl1, w1)))"

definition EchoAsync :: "EchoRequest \<Rightarrow> Client \<Rightarrow> World \<Rightarrow> nat option \<times> Client \<times> World" where
  "EchoAsync request cl w = InvokeTypedAsync EncodeEchoRequest 200 request PriorityNormal 30000 cl w"

definition AddAsync :: "AddRequest \<Rightarrow> Client \<Rightarrow> World \<Rightarrow> nat option \<times> Client \<times> World" where
  "AddAsync request cl w = InvokeTypedAsync EncodeAddRequest 201 request PriorityNormal 30000 cl w"

definition SleepAsync :: "SleepRequest \<Rightarrow> Priority \<Rightarrow> u32 \<Rightarrow> Client \<Rightarrow> World \<Rightarrow> nat option \<times> Client \<times> World" where
  "SleepAsync request priority execTimeoutMs cl w = InvokeTypedAsync EncodeSleepRequest 202 request priority execTimeoutMs cl w"

text \<open>The blocking wrappers: \<open>later\<close> is what becomes of the client until the wait looks at it.\<close>

definition ClientEcho :: "string \<Rightarrow> (Client \<Rightarrow> Client) \<Rightarrow> Client \<Rightarrow> World \<Rightarrow> (StatusCode \<times> EchoReply option) option" where
  "ClientEcho text later cl w =
     (case EchoAsync \<lparr>eq_text = text\<rparr> cl w of (f, cl1, w1) \<Rightarrow> TypedFuture_Wait DecodeEchoReply f (later cl1))"

definition ClientAdd :: "u32 \<Rightarrow> u32 \<Rightarrow> (Client \<Rightarrow> Client) \<Rightarrow> Client \<Rightarrow> World \<Rightarrow> (StatusCode \<times> AddReply option) option" where
  "ClientAdd lhs rhs later cl w =
     (case AddAsync \<lparr>aq_lhs = lhs, aq_rhs = rhs\<rparr> cl w of (f, cl1, w1) \<Rightarrow> TypedFuture_Wait DecodeAddReply f (later cl1))"

definition ClientSleep ::
  "u32 \<Rightarrow> Priority \<Rightarrow> u32 \<Rightarrow> (Client \<Rightarrow> Client) \<Rightarrow> Client \<Rightarrow> World \<Rightarrow> (StatusCode \<times> SleepReply option) option" where
  "ClientSleep delayMs priority execTimeoutMs later cl w =
     (case SleepAsync \<lparr>sq_delayMs = delayMs\<rparr> priority execTimeoutMs cl w of (f, cl1, w1) \<Rightarrow> TypedFuture_Wait DecodeSleepReply f (later cl1))"

end
