(* ===== verification/Ves_Programs.thy ===== *)
theory Ves_Programs
  imports Ves_Client
begin

text \<open>
  The command-line programs: the stress client (\<^verbatim>\<open>ves_stress_client_main.cpp\<close>) with its arguments, its engine process and its
  counters, the demonstration client (\<^verbatim>\<open>ves_client_main.cpp\<close>) and the engine process (\<^verbatim>\<open>virus_executor_service_main.cpp\<close>).  Random
  draws, the outcomes of \<^verbatim>\<open>fork\<close> and \<^verbatim>\<open>waitpid\<close>, and the answers of calls are arguments; signals show as the value of
  \<^verbatim>\<open>g_stop\<close>, and sleeps only take time.
\<close>

section \<open>ves_stress_client_main.cpp: the arguments\<close>

definition isspace :: "char \<Rightarrow> bool" where
  "isspace c \<longleftrightarrow> (of_char c :: nat) = 32 \<or> 9 \<le> (of_char c :: nat) \<and> (of_char c :: nat) \<le> 13"

text \<open>What \<^verbatim>\<open>strtol\<close> and \<^verbatim>\<open>strtoul\<close> read in base 10: the sign, the number and the rest; \<open>None\<close> when there is no digit.\<close>

definition read_number :: "string \<Rightarrow> (bool \<times> nat \<times> string) option" where
  "read_number text =
     (let s = dropWhile isspace text;
          negative = (s \<noteq> [] \<and> hd s = CHR ''-'');
          s1 = (if s \<noteq> [] \<and> hd s \<in> {CHR ''-'', CHR ''+''} then tl s else s)
      in if takeWhile isdigit s1 = [] then None else Some (negative, decimal 0 s1, dropWhile isdigit s1))"

definition ParseIntArg :: "string option \<Rightarrow> int option" where
  "ParseIntArg text =
     (case Option.bind text read_number of
        None \<Rightarrow> None
      | Some (negative, n, rest) \<Rightarrow>
          let parsed = (if negative then - int n else int n); out_of_range = (parsed < - (2 ^ 63) \<or> parsed > 2 ^ 63 - 1)
          in if out_of_range \<or> rest \<noteq> [] \<or> parsed < - (2 ^ 31) \<or> parsed > 2 ^ 31 - 1 then None else Some parsed)"

text \<open>\<^verbatim>\<open>strtoul\<close> accepts a sign and negates modulo \<open>2 ^ 64\<close>.\<close>

definition ParseUint32Arg :: "string option \<Rightarrow> u32 option" where
  "ParseUint32Arg text =
     (case Option.bind text read_number of
        None \<Rightarrow> None
      | Some (negative, n, rest) \<Rightarrow>
          let parsed = (if negative then - of_nat n else of_nat n :: u64); out_of_range = (n > 2 ^ 64 - 1)
          in if out_of_range \<or> rest \<noteq> [] \<or> parsed > 2 ^ 32 - 1 then None else Some (ucast parsed))"

record StressConfig =
  xc_threads :: int
  xc_iterations :: int
  xc_seed :: u32
  xc_enableCrash :: bool

definition default_StressConfig :: StressConfig where
  "default_StressConfig = \<lparr>xc_threads = 2, xc_iterations = 4000, xc_seed = 1, xc_enableCrash = True\<rparr>"

definition apply_arg :: "string \<Rightarrow> string \<Rightarrow> StressConfig \<Rightarrow> StressConfig" where
  "apply_arg name value config =
     (if name = ''--threads'' then (case ParseIntArg (Some value) of None \<Rightarrow> config | Some v \<Rightarrow> config\<lparr>xc_threads := v\<rparr>)
      else if name = ''--iterations'' then (case ParseIntArg (Some value) of None \<Rightarrow> config | Some v \<Rightarrow> config\<lparr>xc_iterations := v\<rparr>)
      else case ParseUint32Arg (Some value) of None \<Rightarrow> config | Some v \<Rightarrow> config\<lparr>xc_seed := v\<rparr>)"

text \<open>The loop over the arguments after the program's name; an option at the end without a value is skipped.\<close>

fun parse_args :: "string list \<Rightarrow> StressConfig \<Rightarrow> StressConfig" where
  "parse_args [] config = config"
| "parse_args [arg] config = (if arg = ''--no-crash'' then config\<lparr>xc_enableCrash := False\<rparr> else config)"
| "parse_args (arg # value # args) config =
     (if arg \<in> {''--threads'', ''--iterations'', ''--seed''} then parse_args args (apply_arg arg value config)
      else parse_args (value # args) (if arg = ''--no-crash'' then config\<lparr>xc_enableCrash := False\<rparr> else config))"

definition ParseArgs :: "string list \<Rightarrow> StressConfig" where
  "ParseArgs argv = parse_args (tl argv) default_StressConfig"

text \<open>A printed number is read back, and what is read is in range.\<close>

lemma decimal_digits: "list_all isdigit xs \<Longrightarrow> decimal n (xs @ ys) = decimal (decimal n xs) ys"
  by (induction xs arbitrary: n) auto

lemma isdigit_digit_char: "d < 10 \<Longrightarrow> isdigit (digit_char d)"
  using of_char_digit [of d] by (simp add: isdigit_def)

lemma nat_str_isdigit: "list_all isdigit (nat_str n)"
  using nat_str_digits by (fastforce simp: list_all_iff isdigit_def)

lemma decimal_nat_str: "decimal 0 (nat_str n) = n"
proof (induction n rule: nat_str.induct)
  case (1 n)
  show ?case
  proof (cases "n < 10")
    case True
    then show ?thesis by (simp add: nat_str.simps [of n] isdigit_digit_char of_char_digit)
  next
    case False
    with 1 show ?thesis
      by (simp add: nat_str.simps [of n] decimal_digits nat_str_isdigit isdigit_digit_char of_char_digit)
  qed
qed

lemma read_number_digits:
  assumes "s \<noteq> []" "list_all isdigit s"
  shows "read_number s = Some (False, decimal 0 s, [])" "read_number (CHR ''-'' # s) = Some (True, decimal 0 s, [])"
proof -
  obtain c cs where s: "s = c # cs" using assms(1) by (cases s) auto
  have c: "isdigit c" using assms(2) s by simp
  then have n: "\<not> isspace c" "c \<noteq> CHR ''-''" "c \<noteq> CHR ''+''" by (auto simp: isspace_def isdigit_def)
  have all: "takeWhile isdigit s = s" "dropWhile isdigit s = []" using assms(2) by (auto simp: list_all_iff)
  show "read_number s = Some (False, decimal 0 s, [])" using s n all by (simp add: read_number_def)
  show "read_number (CHR ''-'' # s) = Some (True, decimal 0 s, [])"
    using s all by (simp add: read_number_def isspace_def)
qed

lemma ParseIntArg_int_str:
  assumes "- (2 ^ 31) \<le> i" "i < 2 ^ 31"
  shows "ParseIntArg (Some (int_str i)) = Some i"
  using assms read_number_digits [OF nat_str_nonempty nat_str_isdigit]
  by (auto simp: ParseIntArg_def int_str_def decimal_nat_str Let_def)

lemma ParseIntArg_range: "ParseIntArg text = Some i \<Longrightarrow> - (2 ^ 31) \<le> i \<and> i < 2 ^ 31"
  by (auto simp: ParseIntArg_def Let_def split: option.splits if_splits)

section \<open>ves_stress_client_main.cpp: the engine process\<close>

text \<open>The counters are atomic integers that wrap.\<close>

record StressStats =
  xs_total :: u32
  xs_mismatch :: u32
  xs_rpcError :: u32
  xs_ok :: u32
  xs_crashesSent :: u32
  xs_engineRestarts :: u32
  xs_sleepMs :: u64

definition new_StressStats :: StressStats where
  "new_StressStats = \<lparr>xs_total = 0, xs_mismatch = 0, xs_rpcError = 0, xs_ok = 0, xs_crashesSent = 0, xs_engineRestarts = 0, xs_sleepMs = 0\<rparr>"

text \<open>The recorded engine, the results that \<^verbatim>\<open>fork\<close> has for the parent (it fails when the list ends), the engines that were spawned,
  those that were killed and waited for and those that were only forgotten.\<close>

record StressProcess =
  xp_engine_pid :: int
  xp_forks :: "int list"
  xp_spawned :: "int list"
  xp_killed :: "int list"
  xp_forgotten :: "int list"
  xp_stats :: StressStats
  xp_recipient_enabled :: bool

definition StressSpawnEngine :: "StressProcess \<Rightarrow> int \<times> StressProcess" where
  "StressSpawnEngine xp =
     (case xp_forks xp of
        [] \<Rightarrow> (- 1, xp)
      | pid # pids \<Rightarrow> (pid, xp\<lparr>xp_forks := pids, xp_spawned := (if pid > 0 then xp_spawned xp @ [pid] else xp_spawned xp)\<rparr>))"

definition StressKillAndWait :: "int \<Rightarrow> StressProcess \<Rightarrow> StressProcess" where
  "StressKillAndWait pid xp = (if pid > 0 then xp\<lparr>xp_killed := xp_killed xp @ [pid]\<rparr> else xp)"

text \<open>\<^verbatim>\<open>KillAndWait(g_engine_pid); g_engine_pid = -1;\<close>\<close>

definition kill_engine :: "StressProcess \<Rightarrow> StressProcess" where
  "kill_engine xp = (StressKillAndWait (xp_engine_pid xp) xp)\<lparr>xp_engine_pid := - 1\<rparr>"

definition RespawnEngine :: "StressProcess \<Rightarrow> StressProcess" where
  "RespawnEngine xp =
     (let xp1 = (if xp_engine_pid xp > 0 then xp\<lparr>xp_engine_pid := - 1, xp_forgotten := xp_forgotten xp @ [xp_engine_pid xp]\<rparr> else xp)
      in case StressSpawnEngine xp1 of (pid, xp2) \<Rightarrow>
         let xp3 = xp2\<lparr>xp_engine_pid := pid\<rparr>
         in if pid > 0 then xp3\<lparr>xp_stats := (xp_stats xp3)\<lparr>xs_engineRestarts := xs_engineRestarts (xp_stats xp3) + 1\<rparr>\<rparr> else xp3)"

definition RespawnRecipient_OnRemoteDied :: "StressProcess \<Rightarrow> StressProcess" where
  "RespawnRecipient_OnRemoteDied xp = (if \<not> xp_recipient_enabled xp then xp else RespawnEngine xp)"

definition StressLoad :: "u32 \<Rightarrow> Services \<times> StressProcess \<Rightarrow> bool \<times> Services \<times> StressProcess" where
  "StressLoad sa_id st =
     (case st of (m, xp) \<Rightarrow>
      if sa_id \<noteq> VIRUS_PROTECTION_EXECUTOR_SA_ID then (False, m, xp)
      else if xp_engine_pid xp > 0 then (True, m, xp)
      else case StressSpawnEngine xp of (pid, xp1) \<Rightarrow>
        let xp2 = xp1\<lparr>xp_engine_pid := pid\<rparr> in if pid < 0 then (False, m, xp2) else (True, m, xp2))"

definition StressUnload :: "u32 \<Rightarrow> Services \<times> StressProcess \<Rightarrow> Services \<times> StressProcess" where
  "StressUnload sa_id st =
     (case st of (m, xp) \<Rightarrow> if sa_id \<noteq> VIRUS_PROTECTION_EXECUTOR_SA_ID then (m, xp) else (m, kill_engine xp))"

definition StressConfigureRegistry :: "StressProcess RegistryCallbacks" where
  "StressConfigureRegistry = \<lparr>cb_load = Some StressLoad, cb_unload = Some StressUnload\<rparr>"

definition StartRegistry :: "int \<Rightarrow> bool \<Rightarrow> bool \<Rightarrow> RegistryServer \<Rightarrow> bool \<times> int list \<times> RegistryServer" where
  "StartRegistry fd bound listening rg = RegistryStart fd bound listening rg"

definition StartEngine :: "RegistryServer \<Rightarrow> StressProcess \<Rightarrow> bool \<times> RegistryServer \<times> StressProcess" where
  "StartEngine rg xp =
     (case StressSpawnEngine xp of (pid, xp1) \<Rightarrow>
      let xp2 = xp1\<lparr>xp_engine_pid := pid\<rparr>
      in if pid < 0 then (False, snd (RegistryStop rg), xp2) else (True, rg, xp2))"

definition give_up :: "RegistryServer \<Rightarrow> StressProcess \<Rightarrow> RegistryServer \<times> StressProcess" where
  "give_up rg xp = (snd (RegistryStop rg), kill_engine xp)"

text \<open>The load takes \<open>turns\<close> of its loop; the result is \<open>None\<close> when they are used up before it returns.\<close>

definition LoadEngineRemote ::
  "int \<Rightarrow> (RegistryConn \<times> int) list \<Rightarrow> RegistryServer \<Rightarrow> StressProcess \<Rightarrow> (nat RemoteObject option \<times> RegistryServer \<times> StressProcess) option" where
  "LoadEngineRemote start turns rg xp =
     (case RemoteLoadSystemAbility VIRUS_PROTECTION_EXECUTOR_SA_ID 5000 start turns of
        None \<Rightarrow> None
      | Some remote \<Rightarrow> Some (if remote \<noteq> None then (remote, rg, xp) else (None, give_up rg xp)))"

definition ConnectClient ::
  "(nat \<Rightarrow> BootCall) \<Rightarrow> Client \<Rightarrow> VesGlobals \<Rightarrow> World \<Rightarrow> RegistryServer \<Rightarrow> StressProcess \<Rightarrow>
     VesClient option \<times> VesGlobals \<times> World \<times> RegistryServer \<times> StressProcess" where
  "ConnectClient boot client g w rg xp =
     (case Connect boot client default_VesClientOptions g w of (vc, g1, w1) \<Rightarrow>
      if vc \<noteq> None then (vc, g1, w1, rg, xp) else (None, g1, w1, give_up rg xp))"

definition InstallRespawnRecipient ::
  "nat RemoteObject \<Rightarrow> nat option \<Rightarrow> RegistryServer \<Rightarrow> StressProcess \<Rightarrow> bool \<times> nat RemoteObject \<times> RegistryServer \<times> StressProcess" where
  "InstallRespawnRecipient remote recipient rg xp =
     (case AddDeathRecipient recipient remote of (added, remote1) \<Rightarrow>
      if added then (True, remote1, rg, xp) else (False, remote1, give_up rg xp))"

definition ShutdownStressClient ::
  "(PendingSubmit \<times> PendingInfo) option \<Rightarrow> VesClient \<Rightarrow> World \<Rightarrow> RegistryServer \<Rightarrow> StressProcess \<Rightarrow>
     VesClient \<times> World \<times> RegistryServer \<times> StressProcess" where
  "ShutdownStressClient inHand vc w rg xp =
     (let xp1 = xp\<lparr>xp_recipient_enabled := False\<rparr>
      in case VesShutdown inHand vc w of (vc1, w1) \<Rightarrow> (vc1, w1, snd (RegistryStop rg), kill_engine xp1))"

section \<open>ves_stress_client_main.cpp: the workers\<close>

definition kNormalTokens :: "string list" where
  "kNormalTokens = [''clean'', ''virus'', ''eicar'', ''sleep10'']"

text \<open>One turn of a worker: whether it sees \<^verbatim>\<open>g_stop\<close>, whether the draw is below \<^verbatim>\<open>kCrashProbability\<close>, the token drawn, and what
  \<^verbatim>\<open>ScanFile\<close> returns.\<close>

record StressTurn =
  wt_stop :: bool
  wt_crash :: bool
  wt_token :: nat
  wt_status :: StatusCode
  wt_reply :: "ScanFileReply option"

definition doCrash :: "StressConfig \<Rightarrow> StressTurn \<Rightarrow> bool" where
  "doCrash config t \<longleftrightarrow> xc_enableCrash config \<and> wt_crash t"

definition stress_path :: "StressConfig \<Rightarrow> u32 \<Rightarrow> int \<Rightarrow> StressTurn \<Rightarrow> string" where
  "stress_path config threadId i t =
     ''/data/stress_'' @ (if doCrash config t then ''crash'' else kNormalTokens ! wt_token t) @ ''_'' @ nat_str (unat threadId) @ ''_'' @ int_str i @ ''.apk''"

definition WorkerTurn :: "StressConfig \<Rightarrow> u32 \<times> int \<times> StressTurn \<Rightarrow> StressStats \<Rightarrow> StressStats" where
  "WorkerTurn config turn stats =
     (case turn of (threadId, i, t) \<Rightarrow>
      let behavior = EvaluateSamplePath (stress_path config threadId i t);
          reply = (case wt_reply t of None \<Rightarrow> default_ScanFileReply | Some r \<Rightarrow> r);
          stats1 = (if doCrash config t then stats\<lparr>xs_crashesSent := xs_crashesSent stats + 1\<rparr> else stats);
          stats2 = stats1\<lparr>xs_sleepMs := xs_sleepMs stats1 + ucast (sb_sleepMs behavior), xs_total := xs_total stats1 + 1\<rparr>
      in if wt_status t \<noteq> Ok then stats2\<lparr>xs_rpcError := xs_rpcError stats2 + 1\<rparr>
         else if sf_threatLevel reply \<noteq> sb_threatLevel behavior then stats2\<lparr>xs_mismatch := xs_mismatch stats2 + 1\<rparr>
         else stats2\<lparr>xs_ok := xs_ok stats2 + 1\<rparr>)"

fun WorkerThread :: "StressConfig \<Rightarrow> u32 \<Rightarrow> int \<Rightarrow> StressTurn list \<Rightarrow> StressStats \<Rightarrow> StressStats" where
  "WorkerThread config threadId i [] stats = stats"
| "WorkerThread config threadId i (t # ts) stats =
     (if i < xc_iterations config \<and> \<not> wt_stop t then WorkerThread config threadId (i + 1) ts (WorkerTurn config (threadId, i, t) stats)
      else stats)"

text \<open>The workers one after the other; the lemmas below show that any interleaving counts the same.\<close>

definition RunWorkers :: "StressConfig \<Rightarrow> (int \<Rightarrow> StressTurn list) \<Rightarrow> StressStats \<Rightarrow> StressStats" where
  "RunWorkers config script stats =
     fold (\<lambda>t. WorkerThread config (of_int t) 0 (script t)) [0..xc_threads config - 1] stats"

text \<open>The turns that a worker takes, and those of all workers.\<close>

fun worker_turns :: "StressConfig \<Rightarrow> u32 \<Rightarrow> int \<Rightarrow> StressTurn list \<Rightarrow> (u32 \<times> int \<times> StressTurn) list" where
  "worker_turns config threadId i [] = []"
| "worker_turns config threadId i (t # ts) =
     (if i < xc_iterations config \<and> \<not> wt_stop t then (threadId, i, t) # worker_turns config threadId (i + 1) ts else [])"

definition stress_turns :: "StressConfig \<Rightarrow> (int \<Rightarrow> StressTurn list) \<Rightarrow> (u32 \<times> int \<times> StressTurn) list" where
  "stress_turns config script = concat (map (\<lambda>t. worker_turns config (of_int t) 0 (script t)) [0..xc_threads config - 1])"

lemma WorkerThread_turns: "WorkerThread config tid i ts = fold (WorkerTurn config) (worker_turns config tid i ts)"
  by (induction ts arbitrary: i) (auto simp: fun_eq_iff)

lemma fold_concat_map: "fold (\<lambda>x. fold f (g x)) xs s = fold f (concat (map g xs)) s"
  by (induction xs arbitrary: s) auto

lemma RunWorkers_turns: "RunWorkers config script stats = fold (WorkerTurn config) (stress_turns config script) stats"
  unfolding RunWorkers_def stress_turns_def WorkerThread_turns by (rule fold_concat_map)

lemma WorkerTurn_commute: "WorkerTurn config x (WorkerTurn config y stats) = WorkerTurn config y (WorkerTurn config x stats)"
  by (cases x; cases y) (simp add: WorkerTurn_def Let_def ac_simps)

text \<open>Whatever the interleaving of the workers, the counters end the same.\<close>

lemma workers_interleave:
  assumes "mset steps = mset (stress_turns config script)"
  shows "fold (WorkerTurn config) steps stats = RunWorkers config script stats"
proof -
  have "fold (WorkerTurn config) steps = fold (WorkerTurn config) (stress_turns config script)"
    using assms by (intro fold_multiset_equiv) (simp_all add: fun_eq_iff WorkerTurn_commute)
  then show ?thesis by (simp add: RunWorkers_turns)
qed

lemma worker_turns_length: "length (worker_turns config tid i ts) \<le> nat (xc_iterations config - i)"
proof (induction ts arbitrary: i)
  case (Cons t ts)
  show ?case using Cons.IH [of "i + 1"] by auto
qed simp

text \<open>At most \<^verbatim>\<open>iterations\<close> turns per worker.\<close>

lemma stress_turns_length: "length (stress_turns config script) \<le> nat (xc_threads config) * nat (xc_iterations config)"
proof -
  have "length (concat (map (\<lambda>t. worker_turns config (of_int t) 0 (script t)) ts)) \<le> length ts * nat (xc_iterations config)" for ts
    by (induction ts) (use worker_turns_length [of config _ 0] in \<open>auto simp: add_mono\<close>)
  from this [of "[0..xc_threads config - 1]"] show ?thesis by (simp add: stress_turns_def)
qed

text \<open>Every turn is counted once, as right, as a mismatch or as an error.\<close>

lemma turns_counted:
  "case fold (WorkerTurn config) steps stats of stats' \<Rightarrow>
     xs_total stats' - xs_total stats = of_nat (length steps) \<and>
     xs_total stats' - (xs_ok stats' + xs_mismatch stats' + xs_rpcError stats') =
       xs_total stats - (xs_ok stats + xs_mismatch stats + xs_rpcError stats)"
proof (induction steps arbitrary: stats)
  case (Cons x steps)
  let ?s = "WorkerTurn config x stats" and ?f = "fold (WorkerTurn config) steps (WorkerTurn config x stats)"
  have turn: "xs_total ?s = xs_total stats + 1"
    "xs_total ?s - (xs_ok ?s + xs_mismatch ?s + xs_rpcError ?s) = xs_total stats - (xs_ok stats + xs_mismatch stats + xs_rpcError stats)"
    by (cases x; simp add: WorkerTurn_def Let_def)+
  have "xs_total ?f - xs_total stats = (xs_total ?f - xs_total ?s) + 1" using turn(1) by simp
  with Cons.IH [of ?s] turn(2) show ?case by simp
qed simp

text \<open>The answer of a turn comes from the engine: with status \<open>Ok\<close> it is the engine's result.\<close>

definition engine_answers :: "StressConfig \<Rightarrow> VesEngine \<Rightarrow> u32 \<times> int \<times> StressTurn \<Rightarrow> bool" where
  "engine_answers config e turn \<longleftrightarrow>
     (case turn of (threadId, i, t) \<Rightarrow>
      wt_status t = Ok \<longrightarrow> wt_reply t \<noteq> None \<and> ScanFile e \<lparr>sk_path = stress_path config threadId i t\<rparr> = wt_reply t)"

lemma crash_path: "doCrash config t \<Longrightarrow> sb_shouldCrash (EvaluateSamplePath (stress_path config threadId i t))"
proof -
  assume "doCrash config t"
  then have "stress_path config threadId i t = ''/data/stress_'' @ ''crash'' @ (''_'' @ nat_str (unat threadId) @ ''_'' @ int_str i @ ''.apk'')"
    by (simp add: stress_path_def)
  then have "find_str (stress_path config threadId i t) ''crash'' \<noteq> None" unfolding find_str_None_iff by blast
  then show ?thesis by (simp add: EvaluateSamplePath_def Let_def)
qed

text \<open>Against the engine there is no mismatch, and every crash that was sent is an error.\<close>

lemma engine_no_mismatch:
  assumes "ve_initialized e" "IsScanEngineEnabled e" "list_all (engine_answers config e) steps"
  shows "case fold (WorkerTurn config) steps stats of stats' \<Rightarrow>
     xs_mismatch stats' = xs_mismatch stats \<and>
     xs_rpcError stats' - xs_crashesSent stats' =
       xs_rpcError stats - xs_crashesSent stats + of_nat (length (filter (\<lambda>(_, _, t). wt_status t \<noteq> Ok \<and> \<not> doCrash config t) steps))"
  using assms(3)
proof (induction steps arbitrary: stats)
  case (Cons x steps)
  obtain tid i t where x: "x = (tid, i, t)" by (cases x)
  have right: "\<exists>r. wt_reply t = Some r \<and> sf_threatLevel r = sb_threatLevel (EvaluateSamplePath (stress_path config tid i t)) \<and> \<not> doCrash config t"
    if "wt_status t = Ok"
    using Cons.prems x that assms(1,2) crash_path [of config t tid i]
    by (auto simp: engine_answers_def ScanFile_def Let_def split: if_splits)
  let ?s = "WorkerTurn config x stats" and ?d = "\<lambda>s. xs_rpcError s - xs_crashesSent s"
  have turn: "xs_mismatch ?s = xs_mismatch stats" "?d ?s = ?d stats + (if wt_status t \<noteq> Ok \<and> \<not> doCrash config t then 1 else 0)"
    using right by (auto simp: x WorkerTurn_def Let_def)
  have ih: "xs_mismatch (fold (WorkerTurn config) steps ?s) = xs_mismatch ?s"
    "?d (fold (WorkerTurn config) steps ?s) = ?d ?s + of_nat (length (filter (\<lambda>(_, _, t). wt_status t \<noteq> Ok \<and> \<not> doCrash config t) steps))"
    using Cons.IH [of ?s] Cons.prems by simp_all
  show ?case unfolding fold_simps comp_apply ih turn by (simp add: x)
qed simp

section \<open>ves_stress_client_main.cpp: the program\<close>

definition REGISTRY_SOCKET :: string where
  "REGISTRY_SOCKET = ''/tmp/virus_executor_service_stress_registry.sock''"

text \<open>What other threads do: the accept thread serves a request, or somebody reports the death of the remote object.\<close>

datatype StressEvent = ServedRequest "string \<Rightarrow> bool" RegistryRequest | RemoteDied

fun stress_event :: "nat RemoteObject \<Rightarrow> StressEvent \<Rightarrow> Services \<times> StressProcess \<Rightarrow> Services \<times> StressProcess" where
  "stress_event remote (ServedRequest reach req) st = snd (ProcessRequest reach id StressConfigureRegistry req st)"
| "stress_event remote RemoteDied st =
     (fst st, fold (\<lambda>_. RespawnRecipient_OnRemoteDied) (fst (NotifyRemoteDiedForTest (\<lambda>_. True) remote)) (snd st))"

text \<open>\<open>loading\<close> and \<open>running\<close> are the events while the engine is loaded and while the workers run, \<open>work\<close> is what the workers' calls
  make of the client.  The result is \<open>None\<close> when the turns given for the load are used up before it returns.\<close>

definition stress_main ::
  "string list \<Rightarrow> int \<Rightarrow> bool \<Rightarrow> bool \<Rightarrow> int \<Rightarrow> (RegistryConn \<times> int) list \<Rightarrow> StressEvent list \<Rightarrow> (nat \<Rightarrow> BootCall) \<Rightarrow> Client \<Rightarrow> VesGlobals \<Rightarrow> World \<Rightarrow>
     StressEvent list \<Rightarrow> (int \<Rightarrow> StressTurn list) \<Rightarrow> (VesClient \<times> World \<Rightarrow> VesClient \<times> World) \<Rightarrow> (PendingSubmit \<times> PendingInfo) option \<Rightarrow>
     StressProcess \<Rightarrow> (int \<times> StressProcess) option" where
  "stress_main argv fd bound listening start turns loading boot client g w running script work inHand xp =
     (let config = ParseArgs argv
      in case StartRegistry fd bound listening (new_RegistryServer REGISTRY_SOCKET) of (started, _, rg) \<Rightarrow>
      if \<not> started then Some (1, xp)
      else case StartEngine rg xp of (spawned, rg1, xp1) \<Rightarrow>
      if \<not> spawned then Some (1, xp1)
      else case fold (stress_event new_RemoteObject) loading (rg_services rg1, xp1) of (m, xp2) \<Rightarrow>
      case LoadEngineRemote start turns rg1 xp2 of
        None \<Rightarrow> None
      | Some (None, rg2, xp3) \<Rightarrow> Some (1, xp3)
      | Some (Some remote, rg2, xp3) \<Rightarrow>
          (case InstallRespawnRecipient remote (Some 0) rg2 (xp3\<lparr>xp_stats := new_StressStats, xp_recipient_enabled := True\<rparr>) of (installed, remote1, rg3, xp4) \<Rightarrow>
           if \<not> installed then Some (1, xp4)
           else case ConnectClient boot client g w rg3 xp4 of
             (None, g1, w1, rg4, xp5) \<Rightarrow> Some (1, xp5)
           | (Some vc, g1, w1, rg4, xp5) \<Rightarrow>
               let xp6 = snd (fold (stress_event remote1) running (m, xp5));
                   xp7 = xp6\<lparr>xp_stats := RunWorkers config script (xp_stats xp6)\<rparr>
               in case work (vc, w1) of (vc1, w2) \<Rightarrow>
                  case ShutdownStressClient inHand vc1 w2 rg4 xp7 of (_, _, _, xp8) \<Rightarrow>
                  Some (if xs_mismatch (xp_stats xp8) = 0 then 0 else 1, xp8)))"

text \<open>Every engine that was spawned is the recorded one, was killed, or was forgotten by \<^verbatim>\<open>RespawnEngine\<close>, which only a death report
  calls.\<close>

definition stress_owned :: "StressProcess \<Rightarrow> bool" where
  "stress_owned xp \<longleftrightarrow> 0 \<notin> set (xp_forks xp) \<and>
     mset (xp_spawned xp) = mset (xp_killed xp) + mset (xp_forgotten xp) + (if xp_engine_pid xp > 0 then {#xp_engine_pid xp#} else {#})"

lemma ProcessRequest_keeps:
  assumes "\<And>load sa m u. cb_load cb = Some load \<Longrightarrow> P u \<Longrightarrow> P (snd (snd (load sa (m, u))))"
    "\<And>unload sa m u. cb_unload cb = Some unload \<Longrightarrow> P u \<Longrightarrow> P (snd (unload sa (m, u)))" "P (snd st)"
  shows "P (snd (snd (ProcessRequest reach meddle cb req st)))"
proof -
  obtain m u where st: "st = (m, u)" by (cases st)
  have load: "P (snd (snd (TryLoadService cb sa (m', u))))" for sa m'
    using assms(1,3) st by (auto simp: TryLoadService_def split: option.split)
  have "P (snd (snd (HandleLoadRequest reach meddle cb req st)))"
    using load assms(3) st
    by (auto simp: HandleLoadRequest_def Let_def split: prod.splits option.splits if_splits bool.splits) (metis snd_conv)+
  then show ?thesis using assms(2,3) by (auto simp: ProcessRequest_def st Let_def split: prod.splits option.splits)
qed

lemmas stress_defs = StressLoad_def StressUnload_def StressSpawnEngine_def StressKillAndWait_def kill_engine_def give_up_def

lemma stress_callbacks_owned:
  "stress_owned xp \<and> xp_forgotten xp = F \<Longrightarrow> stress_owned (snd (snd (StressLoad sa (m, xp)))) \<and> xp_forgotten (snd (snd (StressLoad sa (m, xp)))) = F"
  "stress_owned xp \<and> xp_forgotten xp = F \<Longrightarrow> stress_owned (snd (StressUnload sa (m, xp))) \<and> xp_forgotten (snd (StressUnload sa (m, xp))) = F"
  by (auto simp: stress_defs stress_owned_def Let_def split: list.splits)

lemma served_request_owned:
  assumes "stress_owned (snd st)"
  shows "stress_owned (snd (stress_event remote (ServedRequest reach req) st)) \<and>
    xp_forgotten (snd (stress_event remote (ServedRequest reach req) st)) = xp_forgotten (snd st)"
  unfolding stress_event.simps
  by (rule ProcessRequest_keeps) (use assms stress_callbacks_owned in \<open>auto simp: StressConfigureRegistry_def\<close>)

lemma RespawnEngine_owned: "stress_owned xp \<Longrightarrow> stress_owned (RespawnRecipient_OnRemoteDied xp)"
  by (auto simp: RespawnRecipient_OnRemoteDied_def RespawnEngine_def StressSpawnEngine_def stress_owned_def Let_def split: list.splits)

lemma stress_event_owned: "stress_owned (snd st) \<Longrightarrow> stress_owned (snd (stress_event remote ev st))"
proof (cases ev)
  case RemoteDied
  have "stress_owned xp \<Longrightarrow> stress_owned (fold (\<lambda>_. RespawnRecipient_OnRemoteDied) called xp)" for called :: "nat list" and xp
    by (induction called arbitrary: xp) (auto intro: RespawnEngine_owned)
  then show "stress_owned (snd st) \<Longrightarrow> ?thesis" by (simp add: RemoteDied)
qed (use served_request_owned in blast)

lemma stress_events_owned:
  "stress_owned (snd st) \<Longrightarrow> stress_owned (snd (fold (stress_event remote) evs st)) \<and>
     (RemoteDied \<notin> set evs \<longrightarrow> xp_forgotten (snd (fold (stress_event remote) evs st)) = xp_forgotten (snd st))"
proof (induction evs arbitrary: st)
  case (Cons ev evs)
  have "ev \<noteq> RemoteDied \<Longrightarrow> xp_forgotten (snd (stress_event remote ev st)) = xp_forgotten (snd st)"
    using served_request_owned [OF Cons.prems] by (cases ev) auto
  with Cons.IH [OF stress_event_owned [OF Cons.prems]] show ?case by auto
qed simp

lemma kill_engine_owned:
  "stress_owned xp \<Longrightarrow> mset (xp_spawned (kill_engine xp)) = mset (xp_killed (kill_engine xp)) + mset (xp_forgotten xp) \<and> xp_forgotten (kill_engine xp) = xp_forgotten xp"
  by (auto simp: kill_engine_def StressKillAndWait_def stress_owned_def)

lemma stress_owned_update [simp]:
  "stress_owned (xp\<lparr>xp_stats := s\<rparr>) = stress_owned xp" "stress_owned (xp\<lparr>xp_recipient_enabled := b\<rparr>) = stress_owned xp"
  by (simp_all add: stress_owned_def)

lemma StartEngine_owned:
  assumes "StartEngine rg xp = (spawned, rg1, xp1)" "0 \<notin> set (xp_forks xp)" "xp_spawned xp = []" "xp_killed xp = []" "xp_forgotten xp = []"
  shows "stress_owned xp1 \<and> xp_forgotten xp1 = [] \<and> (\<not> spawned \<longrightarrow> xp_spawned xp1 = [] \<and> xp_killed xp1 = [])"
  using assms by (auto simp: StartEngine_def StressSpawnEngine_def stress_owned_def Let_def split: list.splits if_splits)

text \<open>When the program ends, every engine was killed, but for those that a death report replaced; and without a death report no engine is
  ever replaced.\<close>

lemma stress_main_owned:
  assumes "stress_main argv fd bound listening start turns loading boot client g w running script work inHand xp = Some (code, xp')"
    "0 \<notin> set (xp_forks xp)" "xp_spawned xp = []" "xp_killed xp = []" "xp_forgotten xp = []"
  shows "mset (xp_spawned xp') = mset (xp_killed xp') + mset (xp_forgotten xp') \<and>
    (RemoteDied \<notin> set (loading @ running) \<longrightarrow> xp_forgotten xp' = [])"
proof -
  obtain started closed rg where r: "StartRegistry fd bound listening (new_RegistryServer REGISTRY_SOCKET) = (started, closed, rg)" by (metis prod_cases3)
  obtain spawned rg1 xp1 where e: "StartEngine rg xp = (spawned, rg1, xp1)" by (metis prod_cases3)
  obtain m xp2 where l: "fold (stress_event new_RemoteObject) loading (rg_services rg1, xp1) = (m, xp2)" by (meson surj_pair)
  note own1 = StartEngine_owned [OF e assms(2-5)]
  have own2: "stress_owned xp2" "RemoteDied \<notin> set loading \<longrightarrow> xp_forgotten xp2 = []"
    using stress_events_owned [of "(rg_services rg1, xp1)" new_RemoteObject loading] own1 l by auto
  let ?run = "\<lambda>remote. fold (stress_event remote) running (m, xp2\<lparr>xp_stats := new_StressStats, xp_recipient_enabled := True\<rparr>)"
  have own3: "stress_owned (snd (?run remote))" "RemoteDied \<notin> set running \<longrightarrow> xp_forgotten (snd (?run remote)) = xp_forgotten xp2" for remote
    using stress_events_owned [of "(m, xp2\<lparr>xp_stats := new_StressStats, xp_recipient_enabled := True\<rparr>)" remote running] own2(1) by auto
  show ?thesis
  proof (cases "started \<and> spawned")
    case False
    then show ?thesis using assms own1 by (auto simp: stress_main_def r e split: if_splits)
  next
    case True
    from assms(1) own2 own3 show ?thesis
      by (auto simp: stress_main_def r e l True LoadEngineRemote_def InstallRespawnRecipient_def AddDeathRecipient_def ConnectClient_def
          ShutdownStressClient_def give_up_def kill_engine_owned Let_def split: option.splits prod.splits if_splits)
  qed
qed

section \<open>ves_client_main.cpp\<close>

definition CreateRegistryBackend :: "string option \<Rightarrow> string option" where
  "CreateRegistryBackend registrySocket = registrySocket"

text \<open>What the environment of one call of \<^verbatim>\<open>ScanFile\<close> gives: the first reply, the turns of its retries and the RPC client after it.\<close>

record ScanCall =
  sx_first :: RpcReply
  sx_turns :: "InvokeTurn list"
  sx_after :: Client
  sx_inHand :: "(PendingSubmit \<times> PendingInfo) option"

definition RunScan :: "ScanCall \<Rightarrow> string \<Rightarrow> VesClient \<times> World \<Rightarrow> ScanFileReply \<times> VesClient \<times> World" where
  "RunScan call path st =
     (case st of (vc, w) \<Rightarrow>
      case VesScanFile \<lparr>sk_path = path\<rparr> (sx_first call) (sx_turns call) (sx_after call) (sx_inHand call) vc w of (_, answer, vc1, w1) \<Rightarrow>
      (case answer of None \<Rightarrow> default_ScanFileReply | Some reply \<Rightarrow> reply, vc1, w1))"

definition RunFirstSession :: "ScanCall \<Rightarrow> ScanCall \<Rightarrow> VesClient \<times> World \<Rightarrow> ScanFileReply list \<times> VesClient \<times> World" where
  "RunFirstSession call1 call2 st =
     (case RunScan call1 ''/data/test_file_1.apk'' st of (reply1, st1) \<Rightarrow>
      case RunScan call2 ''/data/test_file_2.apk'' st1 of (reply2, st2) \<Rightarrow> ([reply1, reply2], st2))"

text \<open>The lifecycle state that is logged; the second component is the answer to the unload.\<close>

definition UnloadEngineAndLogSnapshot :: "RegistryConn \<Rightarrow> VesClient \<Rightarrow> ClientLifecycleState \<times> int" where
  "UnloadEngineAndLogSnapshot conn vc =
     (sn_lifecycleState (GetRecoveryRuntimeSnapshot (vc_client vc)), RemoteUnloadSystemAbility conn VIRUS_PROTECTION_EXECUTOR_SA_ID)"

text \<open>A connection attempt is the outcomes of its channel with a new RPC client.\<close>

definition RunSecondSession ::
  "(nat \<Rightarrow> BootCall) \<times> Client \<Rightarrow> (nat \<Rightarrow> BootCall) \<times> Client \<Rightarrow> ScanCall \<Rightarrow> (PendingSubmit \<times> PendingInfo) option \<Rightarrow> VesGlobals \<Rightarrow> World \<Rightarrow>
     bool \<times> VesGlobals \<times> World" where
  "RunSecondSession attempt1 attempt2 call inHand g w =
     (case Connect (fst attempt1) (snd attempt1) default_VesClientOptions g w of (client, g1, w1) \<Rightarrow>
      case (case client of
              None \<Rightarrow> Connect (fst attempt2) (snd attempt2) default_VesClientOptions g1 w1
            | Some vc \<Rightarrow> (Some vc, g1, w1)) of (client, g2, w2) \<Rightarrow>
      case client of
        None \<Rightarrow> (False, g2, w2)
      | Some vc \<Rightarrow>
          (case RunScan call ''/data/test_file_3.apk'' (vc, w2) of (_, vc1, w3) \<Rightarrow>
           case VesShutdown inHand vc1 w3 of (_, w4) \<Rightarrow> (True, g2, w4)))"

text \<open>The first client with its calls, its unload and its shutdown, and then the second session; the client of the first session is
  still there at the end and is returned.\<close>

definition RunClientDemo ::
  "(nat \<Rightarrow> BootCall) \<times> Client \<Rightarrow> ScanCall \<Rightarrow> ScanCall \<Rightarrow> RegistryConn \<Rightarrow> (PendingSubmit \<times> PendingInfo) option \<Rightarrow>
     (nat \<Rightarrow> BootCall) \<times> Client \<Rightarrow> (nat \<Rightarrow> BootCall) \<times> Client \<Rightarrow> ScanCall \<Rightarrow> (PendingSubmit \<times> PendingInfo) option \<Rightarrow>
     VesGlobals \<Rightarrow> World \<Rightarrow> int \<times> VesClient option" where
  "RunClientDemo attempt call1 call2 conn inHand attempt1 attempt2 call3 inHand1 g w =
     (case Connect (fst attempt) (snd attempt) default_VesClientOptions g w of
        (None, _, _) \<Rightarrow> (1, None)
      | (Some vc, g1, w1) \<Rightarrow>
          (case RunFirstSession call1 call2 (vc, w1) of (_, vc1, w2) \<Rightarrow>
           let unloaded = UnloadEngineAndLogSnapshot conn vc1
           in case VesShutdown inHand vc1 w2 of (vc2, w3) \<Rightarrow>
              case RunSecondSession attempt1 attempt2 call3 inHand1 g1 w3 of (secondSessionSucceeded, _, _) \<Rightarrow>
              (if secondSessionSucceeded then 0 else 1, Some vc2)))"

definition client_main ::
  "string option \<Rightarrow> (nat \<Rightarrow> BootCall) \<times> Client \<Rightarrow> ScanCall \<Rightarrow> ScanCall \<Rightarrow> RegistryConn \<Rightarrow> (PendingSubmit \<times> PendingInfo) option \<Rightarrow>
     (nat \<Rightarrow> BootCall) \<times> Client \<Rightarrow> (nat \<Rightarrow> BootCall) \<times> Client \<Rightarrow> ScanCall \<Rightarrow> (PendingSubmit \<times> PendingInfo) option \<Rightarrow>
     VesGlobals \<Rightarrow> World \<Rightarrow> int" where
  "client_main registrySocket attempt call1 call2 conn inHand attempt1 attempt2 call3 inHand1 g w =
     (case CreateRegistryBackend registrySocket of
        None \<Rightarrow> 1
      | Some backend \<Rightarrow> fst (RunClientDemo attempt call1 call2 conn inHand attempt1 attempt2 call3 inHand1 g w))"

text \<open>The second session fails only if both attempts to connect did.\<close>

lemma RunSecondSession_fails:
  "fst (RunSecondSession attempt1 attempt2 call inHand g w) \<longleftrightarrow>
     (case Connect (fst attempt1) (snd attempt1) default_VesClientOptions g w of (c1, g1, w1) \<Rightarrow>
      c1 \<noteq> None \<or> fst (Connect (fst attempt2) (snd attempt2) default_VesClientOptions g1 w1) \<noteq> None)"
  by (auto simp: RunSecondSession_def split: prod.splits option.splits)

section \<open>virus_executor_service_main.cpp\<close>

text \<open>\<open>serve\<close> is what the service makes of its state until the signal comes, \<open>added\<close> the answer of the registry.\<close>

definition service_main ::
  "EngineEnv \<Rightarrow> string option \<Rightarrow> string list \<Rightarrow> int \<Rightarrow> int \<Rightarrow> bool \<Rightarrow> bool \<Rightarrow>
     (VesService \<times> EngineWorld \<times> MockServiceSocket \<Rightarrow> VesService \<times> EngineWorld \<times> MockServiceSocket) \<Rightarrow> EngineWorld \<Rightarrow>
     int \<times> (VesService \<times> EngineWorld \<times> MockServiceSocket) option" where
  "service_main env faults argv added fd bound listening serve ew =
     (if length argv < 3 then (1, None)
      else
        let serviceSocket = argv ! 2; object = SetServicePath serviceSocket (new_RemoteObject :: nat RemoteObject)
        in case OnStart env DEFAULT_FILE_PAYLOAD_DIR faults new_VesService ew of (vs, ew1) \<Rightarrow>
           case SystemAbilityPublish added (Some object) fd bound listening new_MockServiceSocket of (published, _, transport) \<Rightarrow>
           case serve (snd (Publish published vs), ew1, transport) of (vs1, ew2, transport1) \<Rightarrow>
           case OnStop env vs1 ew2 of (vs2, ew3) \<Rightarrow> (0, Some (vs2, ew3, snd (SystemAbilityOnStop transport1))))"

text \<open>The engine process ends with its session closed, its socket down and no open connection, whatever it did before.\<close>

lemma service_main_stops:
  assumes "service_main env faults argv added fd bound listening serve ew = (code, Some (vs, ew', transport))"
  shows "code = 0 \<and> vs_stopping vs \<and> vs_session vs = None \<and> ms_listen_fd transport = - 1 \<and> ms_client_fds transport = []"
  using assms
  by (auto simp: service_main_def OnStop_def SystemAbilityOnStop_def SocketStop_def Let_def split: if_splits prod.splits)

end
