(* ===== verification/Spec2Isabelle.thy ===== *)
theory Spec2Isabelle
  imports Memrpc_Spsc Memrpc_Host Memrpc_ServerProps Memrpc_ClientClaims Ves_Programs
begin

text \<open>
  \<^bold>\<open>Verification of memrpc and of the virus executor service.\<close>

  \<^emph>\<open>The program.\<close>  \<^verbatim>\<open>memrpc\<close> is a C++ framework for remote calls between two processes that share memory: a client
  pushes requests into a ring of a shared-memory object, a server pops and runs them and pushes the replies into a second
  ring; event descriptors wake the other side, a control socket passes the descriptors, and payloads too large for a ring
  entry travel in files.  The virus executor service (VES) is an application of it: a scan engine behind a service
  process, a client library, a registry through which processes find each other and a supervisor that starts the engine.
  The sources name three trees under \<^verbatim>\<open>src/\<close>: \<^verbatim>\<open>memrpc\<close>, \<^verbatim>\<open>virus_executor_service\<close> and \<^verbatim>\<open>third_party/ohos_sa_mock\<close>.

  \<^emph>\<open>How the parts interact.\<close>  A call of \<^verbatim>\<open>VesClient::ScanFile\<close> is encoded, handed to \<^verbatim>\<open>RpcClient::InvokeAsync\<close>, moved
  by the submit worker into the request ring of the \<^verbatim>\<open>Session\<close>, popped by the dispatcher of the \<^verbatim>\<open>RpcServer\<close>, run by a
  worker with the handler that the engine registered, queued as a completion, pushed by the response writer, popped by
  the client's response worker, which makes the future ready, and decoded.  The client gets its session from
  \<^verbatim>\<open>VesBootstrapChannel\<close>, which asks a control object over a socket; the service behind that socket creates the session
  with \<^verbatim>\<open>SharedMemorySessionHost\<close>.  The control object is found with the registry, whose load callback makes the supervisor
  start the engine process.

  \<^emph>\<open>The theories\<close>, in the order of their imports.
  \<^item> \<open>Memrpc_Prelude\<close>, \<open>Memrpc_Types\<close>: integers at their width, byte images, generic lemmas; the data types of
    \<^verbatim>\<open>types.h\<close>, \<^verbatim>\<open>protocol.h\<close>, \<^verbatim>\<open>bootstrap.h\<close>, \<^verbatim>\<open>handler.h\<close>, \<^verbatim>\<open>rpc_client.h\<close>.
  \<^item> \<open>Memrpc_Codec\<close>: \<^verbatim>\<open>ByteWriter\<close>, \<^verbatim>\<open>ByteReader\<close>, the message layer and the typed handlers.  The locales
    \<open>message_codec\<close> (what a decoder gives after an encoder) and \<open>typed_call\<close> (a typed call over two codecs) are
    interpreted in \<open>Ves_Codec\<close> on every message of the service.
  \<^item> \<open>Memrpc_Ring\<close>: \<^verbatim>\<open>PushRingEntry\<close> and \<^verbatim>\<open>PopRingEntry\<close> with free-running 32-bit cursors.  The locale
    \<open>bounded_fifo\<close> is the contract of a bounded queue; the ring is an interpretation of it, and so are the request and
    response queues used through a session (\<open>Memrpc_Session\<close>).  Sequences of operations refine those of a list;
    \<open>Memrpc_Spsc\<close> splits both operations at their accesses to shared memory and shows FIFO order and the absence
    of a race on a slot in every interleaving.
  \<^item> \<open>Memrpc_Layout\<close>, \<open>Memrpc_Session\<close>, \<open>Memrpc_Host\<close>: \<^verbatim>\<open>shm_layout.h\<close>, \<^verbatim>\<open>session.cpp\<close>,
    \<^verbatim>\<open>shared_memory_session_host.cpp\<close>.  The layout does not wrap and its regions are disjoint; an attach validates what
    later operations rely on, owns or closes every descriptor, and is exclusive for clients; what the host creates can be
    attached; descriptors are accounted for as multisets.
  \<^item> \<open>Memrpc_Posix\<close>, \<open>Memrpc_FilePayload\<close>: \<^verbatim>\<open>file_payload.cpp\<close> over files, directories, \<^verbatim>\<open>errno\<close> and faults; round trip,
    confinement to the payload directory, no file left after a refusal.
  \<^item> \<open>Memrpc_Runtime\<close>: \<^verbatim>\<open>runtime_utils.h\<close> and the state \<open>World\<close> (shared memory, files, event descriptors).
  \<^item> \<open>Memrpc_Server\<close>, \<open>Memrpc_ServerThreads\<close>, \<open>Memrpc_ServerProps\<close>: \<^verbatim>\<open>rpc_server.cpp\<close>, its operations as functions,
    its threads as the step relation \<open>server_step\<close>, and its properties: no request is lost silently, completions
    are counted, \<^verbatim>\<open>Stop\<close> releases everybody, \<^verbatim>\<open>DrainQueue\<close> keeps the order, replies fit their entries.
  \<^item> \<open>Memrpc_ClientState\<close>, \<open>Memrpc_Client\<close>, \<open>Memrpc_ClientThreads\<close>, \<open>Memrpc_ClientProps\<close>, \<open>Memrpc_ClientClaims\<close>:
    \<^verbatim>\<open>rpc_client.cpp\<close> in the same form (\<open>client_thread_step\<close>): no future is forgotten, a ready future keeps its reply,
    \<^verbatim>\<open>Shutdown\<close> and the death of the engine answer what is outstanding.
  \<^item> \<open>Ves_Codec\<close>, \<open>Ves_Engine\<close>: the messages, the sample rules, the engine and testkit services with their handlers.
  \<^item> \<open>Ves_Session\<close>: \<^verbatim>\<open>ves_session_service.cpp\<close> and \<^verbatim>\<open>virus_executor_service.cpp\<close> on top of host and server; a client can
    attach to what an open returns, and descriptors balance in every interleaving of opens, closes and
    server activity (\<open>service_step\<close>).
  \<^item> \<open>Ves_Socket\<close>, \<open>Ves_Control\<close>: stream sockets, \<^verbatim>\<open>mock_service_socket.cpp\<close>, \<^verbatim>\<open>ves_control_stub.h\<close>, the proxy of
    \<^verbatim>\<open>ves_control_proxy.cpp\<close>; a call over the socket equals the call of the service.
  \<^item> \<open>Ves_Channel\<close>: \<^verbatim>\<open>VesBootstrapChannel\<close> of \<^verbatim>\<open>ves_control_proxy.cpp\<close>; the death recipient follows the current control.
  \<^item> \<open>Ves_Registry\<close>, \<open>Ves_Supervisor\<close>: \<^verbatim>\<open>registry_protocol.cpp\<close>, \<^verbatim>\<open>registry_server.cpp\<close>, \<^verbatim>\<open>registry_client.cpp\<close>,
    \<^verbatim>\<open>registry_backend.cpp\<close>; \<^verbatim>\<open>ves_supervisor_main.cpp\<close>, the ability managers, remote objects and brokers.
  \<^item> \<open>Ves_Client\<close>: \<^verbatim>\<open>ves_client.cpp\<close> with its restart budget, and the typed clients of the testkit.
  \<^item> \<open>Ves_Programs\<close>: the stress client with its counters and its engine process, the demonstration client and the engine's main
    program (\<^verbatim>\<open>ves_stress_client_main.cpp\<close>, \<^verbatim>\<open>ves_client_main.cpp\<close>, \<^verbatim>\<open>virus_executor_service_main.cpp\<close>); counting is the same in
    every interleaving of the workers, and engine processes are accounted for.
  \<^item> this theory: one scan through all of these layers.

  \<^emph>\<open>Conventions.\<close>  A class is a record and a method a function that returns the updated record; an out parameter with a
  \<^verbatim>\<open>bool\<close> result is an option, an error code a \<open>StatusCode\<close>.  Code that another thread can interleave is
  a step of an inductive relation, one step per locked part or per access to shared memory.  The outcome of a system call
  is an argument or the head of a finite script (descriptors created, bytes transferred, \<^verbatim>\<open>EINTR\<close>, errors, arriving chunks);
  past the end of a script a call succeeds, or the stream has ended, as the text of each theory says.  Theorems
  are stated for all scripts.  Code of the application (handlers, recovery policies, custom executors, callbacks of the
  registry, the control loader) is a parameter.

  \<^emph>\<open>Bounds.\<close>  No definition has fuel.  Loops that the source bounds are recursive on what they count down, with a termination
  proof: bytes left (\<open>WriteAll\<close>, \<open>ReadLoop\<close>, \<open>SendAll\<close>, \<open>RecvAll\<close>), counter and faults left (\<open>drain_loop\<close>,
  \<open>signal_loop\<close>), free places of the executor (\<open>drain_queue_loop\<close>).  Loops that wait for another party recurse on the finite list of
  the turns they take (\<open>retry_loop\<close>, \<open>invoke_loop\<close>, \<open>LoadTurns\<close>); each turn carries what the loop observes there.
  Ring theorems assume that the capacity divides \<open>2 ^ 32\<close>; the code accepts others, and a theorem of
  \<open>Memrpc_Ring\<close> shows the entry that a ring of three slots then loses.  Strings and paths are shorter than \<open>2 ^ 32\<close> bytes where a length field of that
  width holds their length.

  \<^emph>\<open>Not modelled.\<close>  The demo of the mock prints the results of a few modelled calls.  Logging formats lines that
  nothing reads.  Signal handlers show only as the flag they set.  The child sides of \<^verbatim>\<open>fork\<close> run another program.  Sleeps only take time.  Weak memory
  is not modelled: steps follow program order, which the release and acquire accesses of the rings enforce
  for the entry they publish.  The process-shared mutex of the client attachment is atomic, and links in or
  concurrent changes of the payload directory are excluded.  \<^verbatim>\<open>googletest\<close> and the tests are not part of the program.
\<close>

section \<open>A call from end to end\<close>

text \<open>The file system as a reader finds it: the files that the writer left, no fault but interrupts and short reads.\<close>

definition reads_files_of :: "Fs \<Rightarrow> Fs \<Rightarrow> bool" where
  "reads_files_of fs fs' \<longleftrightarrow> fs_files fs' = fs_files fs \<and> list_all benign (fs_rw fs') \<and> (\<forall>s p. fs_deny fs' s p = None) \<and>
     length (payload_path DEFAULT_FILE_PAYLOAD_DIR fs') < 2 ^ 32"

lemma default_dir_plain: "find_str DEFAULT_FILE_PAYLOAD_DIR ''..'' = None"
  by (simp add: DEFAULT_FILE_PAYLOAD_DIR_def)

lemma request_transported:
  assumes "PrepareRequestPayloadForTransport submit cl w = (Ok, tp, kind, w1)"
    "length (payload_path DEFAULT_FILE_PAYLOAD_DIR (wd_fs w)) < 2 ^ 32" "reads_files_of (wd_fs w1) fs"
  shows "\<exists>fs'. ResolveRequestPayload (BuildRequestEntry submit tp kind) fs = (Some (ca_payload (ps_call submit)), fs') \<and> fs_files fs' = fs_files (wd_fs w)"
    "se_maxRequestBytes (sv_session sv) = se_maxRequestBytes (cl_session cl) \<Longrightarrow> invalid_transport (BuildRequestEntry submit tp kind) sv = None"
proof -
  let ?max = "min (unat (se_maxRequestBytes (cl_session cl))) RequestRingEntry_INLINE_PAYLOAD_BYTES"
  let ?entry = "BuildRequestEntry submit tp kind"
  have prep: "PrepareFilePayloadForTransport DEFAULT_FILE_PAYLOAD_DIR (ca_payload (ps_call submit)) ?max (wd_fs w) = (True, tp, kind, wd_fs w1)"
    using assms(1) by (auto simp: PrepareRequestPayloadForTransport_def Let_def split: prod.splits if_splits)
  note fits = prepared_payload_fits [OF prep]
  have len: "length tp \<le> 8172" using fits by (simp add: request_inline_bytes)
  then have sz: "unat (rq_payloadSize ?entry) = length tp" by (simp add: BuildRequestEntry_def unat_of_nat)
  have "rq_payload ?entry = tp @ drop (length tp) (rq_payload default_RequestRingEntry)" "rq_payloadKind ?entry = kind"
    by (simp_all add: BuildRequestEntry_def copy_into_def)
  then show "\<exists>fs'. ResolveRequestPayload ?entry fs = (Some (ca_payload (ps_call submit)), fs') \<and> fs_files fs' = fs_files (wd_fs w)"
    using prepared_payload_resolved [OF prep default_dir_plain assms(2)] assms(3) sz by (simp add: ResolveRequestPayload_def reads_files_of_def)
  show "invalid_transport ?entry sv = None" if "se_maxRequestBytes (sv_session sv) = se_maxRequestBytes (cl_session cl)"
  proof -
    have "\<not> rq_payloadSize ?entry > se_maxRequestBytes (sv_session sv)" using sz fits that by (simp add: word_less_nat_alt)
    moreover have "rq_payloadSize ?entry = 0 \<longleftrightarrow> tp = []" using sz by (metis length_0_conv unat_eq_zero)
    ultimately show ?thesis using fits sz len \<open>rq_payloadKind ?entry = kind\<close>
      by (auto simp: invalid_transport_def request_inline_bytes PAYLOAD_KIND_INLINE_def PAYLOAD_KIND_FILE_REF_def Let_def)
  qed
qed

lemma response_transported:
  assumes "PrepareResponsePayloadForTransport (rp_payload reply) sv w = (Ok, tp, kind, w1)"
    "length (payload_path DEFAULT_FILE_PAYLOAD_DIR (wd_fs w)) < 2 ^ 32" "reads_files_of (wd_fs w1) (wd_fs w2)"
  shows "\<exists>w3. ResolveEntryPayload (BuildReplyEntry entry (reply\<lparr>rp_payload := tp\<rparr>) kind) w2 = (Ok, rp_payload reply, w3) \<and>
    fs_files (wd_fs w3) = fs_files (wd_fs w)"
proof -
  let ?max = "min (unat (se_maxResponseBytes (sv_session sv))) ResponseRingEntry_INLINE_PAYLOAD_BYTES"
  let ?e = "BuildReplyEntry entry (reply\<lparr>rp_payload := tp\<rparr>) kind"
  have prep: "PrepareFilePayloadForTransport DEFAULT_FILE_PAYLOAD_DIR (rp_payload reply) ?max (wd_fs w) = (True, tp, kind, wd_fs w1)"
    using assms(1) by (auto simp: PrepareResponsePayloadForTransport_def Let_def split: prod.splits if_splits)
  note fits = prepared_payload_fits [OF prep]
  have len: "length tp \<le> 8161" using fits by (simp add: response_inline_bytes)
  then have sz: "unat (rs_resultSize ?e) = length tp" by (simp add: BuildReplyEntry_def unat_of_nat)
  have e: "rs_payload ?e = tp @ drop (length tp) (rs_payload default_ResponseRingEntry)" "rs_payloadKind ?e = kind"
    by (simp_all add: BuildReplyEntry_def copy_into_def)
  obtain fs' where fs': "ResolveFilePayloadFromTransport DEFAULT_FILE_PAYLOAD_DIR (Some (rs_payload ?e)) (length tp) kind (wd_fs w2) = (Some (rp_payload reply), fs')"
      "fs_files fs' = fs_files (wd_fs w)"
    using prepared_payload_resolved [OF prep default_dir_plain assms(2)] assms(3) unfolding reads_files_of_def e(1) by blast
  show ?thesis
  proof (cases "kind = PAYLOAD_KIND_INLINE")
    case True
    then have "take (length tp) (rs_payload ?e) = rp_payload reply" "fs' = wd_fs w2"
      using fs'(1) e(1) by (auto simp: ResolveFilePayloadFromTransport_def split: if_splits)
    then show ?thesis using True sz len e fs' by (auto simp: ResolveEntryPayload_def response_inline_bytes)
  next
    case False
    then show ?thesis using fits sz len e fs' by (auto simp: ResolveEntryPayload_def response_inline_bytes PAYLOAD_KIND_INLINE_def PAYLOAD_KIND_FILE_REF_def)
  qed
qed

text \<open>What the server queues for the writer.\<close>

lemma queued_reply:
  assumes "BeginWriteResponse entry reply sv w = (Inr completion, sv', w')" "rs_statusCode (ci_entry (last (sv_completionQueue sv'))) = StatusCode_u32 Ok"
    "rp_status reply = Ok"
  shows "\<exists>tp kind. PrepareResponsePayloadForTransport (rp_payload reply) sv w = (Ok, tp, kind, w') \<and>
    ci_entry (last (sv_completionQueue sv')) = BuildReplyEntry entry (reply\<lparr>rp_payload := tp\<rparr>) kind"
proof -
  obtain st tp kind w1 where p: "PrepareResponsePayloadForTransport (rp_payload reply) sv w = (st, tp, kind, w1)" by (metis prod_cases4)
  have "StatusCode_u32 PayloadTooLarge \<noteq> StatusCode_u32 Ok" by (simp add: StatusCode_u32_def)
  then show ?thesis using assms p
    by (auto simp: BeginWriteResponse_def EnqueueCompletion_def BuildResponseCompletionItem_def BuildReplyEntry_def Let_def split: if_splits prod.splits)
qed

text \<open>The generic call: a handler that answers with \<open>Ok\<close>, and the client that resolves the entry the server queued for it.\<close>

lemma rpc_end_to_end:
  assumes "PrepareRequestPayloadForTransport submit cl w = (Ok, tp, kind, w1)" "length (payload_path DEFAULT_FILE_PAYLOAD_DIR (wd_fs w)) < 2 ^ 32"
    "reads_files_of (wd_fs w1) (wd_fs w2)"
    "Valid (sv_session sv)" "se_maxRequestBytes (sv_session sv) = se_maxRequestBytes (cl_session cl)"
    "map_of (sv_handlers sv) (ca_opcode (ps_call submit)) = Some h"
    "h (BuildServerCall (BuildRequestEntry submit tp kind) (ca_payload (ps_call submit))) default_RpcReply = reply" "rp_status reply = Ok"
    "ProcessEntry now (BuildRequestEntry submit tp kind) sv w2 = (Some (Inr completion), sv', w3)"
    "entry = ci_entry (last (sv_completionQueue sv'))" "rs_statusCode entry = StatusCode_u32 Ok"
    "length (payload_path DEFAULT_FILE_PAYLOAD_DIR (wd_fs (snd (InvokeHandler (BuildRequestEntry submit tp kind) sv w2)))) < 2 ^ 32"
    "reads_files_of (wd_fs w3) (wd_fs w4)"
    "map_of (cl_store cl') (ps_requestId submit) = Some pending" "cl_futures cl' (pr_future pending) = None"
    "ResolveCompletedRequest entry cl' w4 = (cl'', w5)"
  shows "cl_futures cl'' (pr_future pending) = Some reply \<and> fs_files (wd_fs w5) = fs_files (wd_fs w)"
proof -
  let ?rq = "BuildRequestEntry submit tp kind"
  obtain fs' where fs': "ResolveRequestPayload ?rq (wd_fs w2) = (Some (ca_payload (ps_call submit)), fs')" "fs_files fs' = fs_files (wd_fs w)"
    using request_transported(1) [OF assms(1,2,3)] by blast
  have op: "rq_opcode ?rq = ca_opcode (ps_call submit)" "rq_requestId ?rq = ps_requestId submit" by (simp_all add: BuildRequestEntry_def)
  have inv: "InvokeHandler ?rq sv w2 = (reply, w2\<lparr>wd_fs := fs'\<rparr>)" using assms(6,7) fs' op by (simp add: InvokeHandler_def)
  let ?sv1 = "MarkExecutionStarted now (ps_requestId submit) sv"
  have bw: "BeginWriteResponse ?rq reply ?sv1 (w2\<lparr>wd_fs := fs'\<rparr>) = (Inr completion, sv', w3)"
    using assms(4,9) request_transported(2) [OF assms(1,2,3,5)] inv op by (auto simp: ProcessEntry_def split: prod.splits)
  obtain tp2 kind2 where q: "PrepareResponsePayloadForTransport (rp_payload reply) ?sv1 (w2\<lparr>wd_fs := fs'\<rparr>) = (Ok, tp2, kind2, w3)"
      "entry = BuildReplyEntry ?rq (reply\<lparr>rp_payload := tp2\<rparr>) kind2"
    using queued_reply [OF bw _ assms(8)] assms(10,11) by blast
  have path: "length (payload_path DEFAULT_FILE_PAYLOAD_DIR (wd_fs (w2\<lparr>wd_fs := fs'\<rparr>))) < 2 ^ 32" using assms(12) inv by simp
  obtain w6 where w6: "ResolveEntryPayload entry w4 = (Ok, rp_payload reply, w6)" "fs_files (wd_fs w6) = fs_files fs'"
    using response_transported [OF q(1) path assms(13)] q(2) by auto
  have "rs_requestId entry = ps_requestId submit" "StatusCode_of_u32 (rs_statusCode entry) = Ok"
    using q(2) op assms(11) by (simp_all add: BuildReplyEntry_def)
  moreover have "\<lparr>rp_status = Ok, rp_payload = rp_payload reply\<rparr> = reply" using assms(8) by (cases reply) simp
  ultimately show ?thesis using assms(14,15,16) w6 fs'(2)
    by (auto simp: ResolveCompletedRequest_def StoreTake_def ResolveState_def TouchActivity_def Let_def)
qed

lemma scan_answer:
  assumes "encode request = Some payload" "cl_lifecycle (vc_client vc) \<noteq> LcClosed" "WaitAndDecode decode reply = (Ok, Some result)"
  shows "case InvokeApi encode decode request reply turns after inHand vc w of (status, answer, vc', _) \<Rightarrow>
    status = Ok \<and> answer = Some result \<and> vc_engineDeathCount vc' = 0"
  using assms by (simp add: InvokeApi_def EncodeInvokePayload_def GetRecoveryRuntimeSnapshot_def GetSnapshot_def ResetRestartBudget_def)

text \<open>C4: A scan from end to end.  The client encodes a task and puts it on the wire, in the ring entry or in a file; the server that the
  engine's handlers are registered with processes the entry; and the client resolves the entry that the server queued for it.  If
  the entry reports success, the caller of \<^verbatim>\<open>ScanFile\<close> gets exactly the result of the engine for this task, its
  restart budget is reset, and the two processes leave the payload files as they were.\<close>

theorem scan_end_to_end:
  assumes "EncodeScanTask task = Some payload" "short_string (sk_path task)" "ScanFile engine task = Some result"
    "ps_call submit = InvokeMemRpcApi_call VesOpcode_ScanFile priority execTimeoutMs payload"
    "PrepareRequestPayloadForTransport submit cl w = (Ok, tp, kind, w1)" "length (payload_path DEFAULT_FILE_PAYLOAD_DIR (wd_fs w)) < 2 ^ 32"
    "reads_files_of (wd_fs w1) (wd_fs w2)"
    "Valid (sv_session sv)" "se_maxRequestBytes (sv_session sv) = se_maxRequestBytes (cl_session cl)"
    "sv_handlers sv = sv_handlers (register_to_server (EngineRegisterHandlers engine) sv0)"
    "ProcessEntry now (BuildRequestEntry submit tp kind) sv w2 = (Some (Inr completion), sv', w3)"
    "entry = ci_entry (last (sv_completionQueue sv'))" "rs_statusCode entry = StatusCode_u32 Ok"
    "length (payload_path DEFAULT_FILE_PAYLOAD_DIR (wd_fs (snd (InvokeHandler (BuildRequestEntry submit tp kind) sv w2)))) < 2 ^ 32"
    "reads_files_of (wd_fs w3) (wd_fs w4)"
    "map_of (cl_store cl') (ps_requestId submit) = Some pending" "cl_futures cl' (pr_future pending) = None"
    "ResolveCompletedRequest entry cl' w4 = (cl'', w5)" "cl_lifecycle (vc_client vc) \<noteq> LcClosed"
  shows "\<exists>reply. Wait (Some (pr_future pending)) cl'' = Some reply \<and>
    (case VesScanFile task reply turns after inHand vc wv of (status, answer, vc', _) \<Rightarrow>
       status = Ok \<and> answer = Some result \<and> vc_engineDeathCount vc' = 0) \<and>
    fs_files (wd_fs w5) = fs_files (wd_fs w)"
proof -
  let ?h = "returning (MakeVesTypedHandler DecodeScanTask EncodeScanFileReply (ScanFile engine))"
  let ?call = "BuildServerCall (BuildRequestEntry submit tp kind) (ca_payload (ps_call submit))"
  have call: "ca_opcode (ps_call submit) = VesOpcode_ScanFile" "sc_payload ?call = payload"
    using assms(4) by (simp_all add: InvokeMemRpcApi_call_def BuildServerCall_def)
  have h: "map_of (sv_handlers sv) (ca_opcode (ps_call submit)) = Some ?h"
    by (simp add: assms(10) registered_handler EngineRegisterHandlers_def call)
  define reply where "reply = ?h ?call default_RpcReply"
  have decoded: "WaitAndDecode DecodeScanFileReply reply = (Ok, Some result)"
    unfolding reply_def by (rule scan_handler [OF assms(3,2,1) call(2)])
  then have ok: "rp_status reply = Ok" by (auto simp: WaitAndDecode_def split: if_splits)
  have "cl_futures cl'' (pr_future pending) = Some reply \<and> fs_files (wd_fs w5) = fs_files (wd_fs w)"
    by (rule rpc_end_to_end [OF assms(5-9) h reply_def [symmetric] ok assms(11-18)])
  moreover have "case VesScanFile task reply turns after inHand vc wv of (status, answer, vc', _) \<Rightarrow>
      status = Ok \<and> answer = Some result \<and> vc_engineDeathCount vc' = 0"
    unfolding VesScanFile_def by (rule scan_answer [where encode = EncodeScanTask, OF assms(1,19) decoded])
  ultimately show ?thesis by (auto simp: Wait_def)
qed

definition demo_scan_engine :: VesEngine where
  "demo_scan_engine = InitializeEngine new_VesEngine"

definition demo_scan_task :: ScanTask where
  "demo_scan_task = \<lparr>sk_path = ''/virus''\<rparr>"

definition demo_scan_submit :: "bytes \<Rightarrow> PendingSubmit" where
  "demo_scan_submit payload = \<lparr>ps_call = InvokeMemRpcApi_call VesOpcode_ScanFile PriorityNormal 30000 payload, ps_requestId = 1, ps_future = 0\<rparr>"

definition demo_scan_server :: Server where
  "demo_scan_server = register_to_server (EngineRegisterHandlers demo_scan_engine) demo_server"

definition demo_scan_client :: Client where
  "demo_scan_client = demo_live_client\<lparr>cl_session := demo_session\<rparr>"

lemma demo_scan_result: "ScanFile demo_scan_engine demo_scan_task = Some \<lparr>sf_code = 0, sf_threatLevel = 1\<rparr>"
  by (simp add: ScanFile_def demo_scan_engine_def demo_scan_task_def InitializeEngine_def new_VesEngine_def IsScanEngineEnabled_def EvaluateSamplePath_def ParseSleepMs_def Let_def)

lemma demo_scan_fields:
  "sv_session demo_scan_server = demo_session" "sv_responseWriterRunning demo_scan_server" "sv_completionQueue demo_scan_server = []"
  "sv_pendingCompletionCount demo_scan_server = 0" "sv_completionQueueCapacity demo_scan_server = 8"
  "cl_session demo_scan_client = demo_session" "cl_store demo_scan_client = [(1, demo_pending)]" "cl_futures demo_scan_client = (\<lambda>_. None)"
  by (simp_all add: demo_scan_server_def register_to_server_def EngineRegisterHandlers_def RegisterHandler_def demo_scan_client_def demo_live_fields)

lemma demo_limits: "Valid demo_session" "se_maxRequestBytes demo_session = 8000" "se_maxResponseBytes demo_session = 8000"
  by (simp_all add: attached_session_def Valid_def Let_def header_config_def demo_shm_def demo_header_def)

lemma demo_reads: "reads_files_of demo_fs demo_fs"
  by (simp add: reads_files_of_def demo_fs_def payload_path_eq DEFAULT_FILE_PAYLOAD_DIR_def nat_str.simps int_str_def)

text \<open>Short payloads travel in the entries, so neither side touches the files.\<close>

lemma demo_scan_run:
  assumes "EncodeScanTask demo_scan_task = Some payload" "length payload \<le> 8000"
    "EncodeScanFileReply \<lparr>sf_code = 0, sf_threatLevel = 1\<rparr> = Some answer" "length answer \<le> 8000"
  shows "PrepareRequestPayloadForTransport (demo_scan_submit payload) demo_scan_client demo_world = (Ok, payload, PAYLOAD_KIND_INLINE, demo_world)"
    "InvokeHandler (BuildRequestEntry (demo_scan_submit payload) payload PAYLOAD_KIND_INLINE) demo_scan_server demo_world =
       (default_RpcReply\<lparr>rp_payload := answer\<rparr>, demo_world)"
    "\<exists>c sv'. ProcessEntry 0 (BuildRequestEntry (demo_scan_submit payload) payload PAYLOAD_KIND_INLINE) demo_scan_server demo_world =
       (Some (Inr c), sv', demo_world) \<and> rs_statusCode (ci_entry (last (sv_completionQueue sv'))) = StatusCode_u32 Ok"
proof -
  show prep: "PrepareRequestPayloadForTransport (demo_scan_submit payload) demo_scan_client demo_world = (Ok, payload, PAYLOAD_KIND_INLINE, demo_world)"
    using assms(2) by (simp add: PrepareRequestPayloadForTransport_def PrepareFilePayloadForTransport_def demo_scan_fields demo_limits
        request_inline_bytes demo_scan_submit_def InvokeMemRpcApi_call_def)
  let ?e = "BuildRequestEntry (demo_scan_submit payload) payload PAYLOAD_KIND_INLINE"
  have len: "length payload \<le> 8172" using assms(2) by simp
  have res: "ResolveRequestPayload ?e (wd_fs demo_world) = (Some payload, wd_fs demo_world)"
    using len by (auto simp: ResolveRequestPayload_def ResolveFilePayloadFromTransport_def BuildRequestEntry_def unat_of_nat)
  have dec: "DecodeMessage DecodeScanTask payload = Some demo_scan_task"
    using scan_task.decode_message [OF _ assms(1)] by (simp add: demo_scan_task_def)
  have h: "map_of (sv_handlers demo_scan_server) VesOpcode_ScanFile =
      Some (returning (MakeVesTypedHandler DecodeScanTask EncodeScanFileReply (ScanFile demo_scan_engine)))"
    by (simp add: demo_scan_server_def registered_handler EngineRegisterHandlers_def)
  have op: "rq_opcode ?e = VesOpcode_ScanFile" "sc_payload (BuildServerCall ?e payload) = payload"
    by (simp_all add: BuildRequestEntry_def demo_scan_submit_def InvokeMemRpcApi_call_def BuildServerCall_def)
  show inv: "InvokeHandler ?e demo_scan_server demo_world = (default_RpcReply\<lparr>rp_payload := answer\<rparr>, demo_world)"
    using h res dec demo_scan_result assms(3) op by (simp add: InvokeHandler_def returning_def MakeVesTypedHandler_def)
  show "\<exists>c sv'. ProcessEntry 0 ?e demo_scan_server demo_world = (Some (Inr c), sv', demo_world) \<and>
      rs_statusCode (ci_entry (last (sv_completionQueue sv'))) = StatusCode_u32 Ok"
  proof -
    have tr: "invalid_transport ?e demo_scan_server = None"
      using request_transported(2) [OF prep _ _, of "wd_fs demo_world" demo_scan_server] demo_reads
      by (simp add: demo_scan_fields demo_world_def reads_files_of_def)
    have sv: "sv_session (MarkExecutionStarted n i demo_scan_server) = demo_session" "sv_responseWriterRunning (MarkExecutionStarted n i demo_scan_server)"
      "sv_pendingCompletionCount (MarkExecutionStarted n i demo_scan_server) = 0" "sv_completionQueueCapacity (MarkExecutionStarted n i demo_scan_server) = 8"
      "sv_completionQueue (MarkExecutionStarted n i demo_scan_server) = []" for n i
      by (simp_all add: MarkExecutionStarted_def demo_scan_fields)
    have fits: "length answer \<le> 8161" "length answer \<le> 8000" using assms(4) by simp_all
    show ?thesis
      using tr inv fits
      by (simp add: ProcessEntry_def demo_scan_fields demo_limits BeginWriteResponse_def PrepareResponsePayloadForTransport_def
          PrepareFilePayloadForTransport_def sv response_inline_bytes EnqueueCompletion_def BuildResponseCompletionItem_def BuildReplyEntry_def
          default_RpcReply_def Let_def)
  qed
qed

theorem scan_end_to_end_witness:
  "\<exists>payload cl'' w5 sv' c reply. EncodeScanTask demo_scan_task = Some payload \<and>
     ProcessEntry 0 (BuildRequestEntry (demo_scan_submit payload) payload PAYLOAD_KIND_INLINE) demo_scan_server demo_world = (Some (Inr c), sv', demo_world) \<and>
     ResolveCompletedRequest (ci_entry (last (sv_completionQueue sv'))) demo_scan_client demo_world = (cl'', w5) \<and>
     Wait (Some 0) cl'' = Some reply \<and>
     fst (snd (VesScanFile demo_scan_task reply [] demo_scan_client None (demo_ves_client\<lparr>vc_client := demo_scan_client\<rparr>) demo_world)) =
       Some \<lparr>sf_code = 0, sf_threatLevel = 1\<rparr>"
proof -
  obtain payload where payload: "EncodeScanTask demo_scan_task = Some payload" "length payload \<le> 8000"
    by (auto simp: EncodeScanTask_def demo_scan_task_def AssignBytes_def writer_eqs)
  obtain answer where answer: "EncodeScanFileReply \<lparr>sf_code = 0, sf_threatLevel = 1\<rparr> = Some answer" "length answer \<le> 8000"
    by (auto simp: EncodeScanFileReply_def AssignBytes_def writer_eqs)
  note run = demo_scan_run [OF payload answer]
  obtain c sv' where pe: "ProcessEntry 0 (BuildRequestEntry (demo_scan_submit payload) payload PAYLOAD_KIND_INLINE) demo_scan_server demo_world =
      (Some (Inr c), sv', demo_world)" "rs_statusCode (ci_entry (last (sv_completionQueue sv'))) = StatusCode_u32 Ok"
    using run(3) by blast
  obtain cl'' w5 where res: "ResolveCompletedRequest (ci_entry (last (sv_completionQueue sv'))) demo_scan_client demo_world = (cl'', w5)"
    by (meson surj_pair)
  have fs: "wd_fs demo_world = demo_fs" by (simp add: demo_world_def)
  have path: "length (payload_path DEFAULT_FILE_PAYLOAD_DIR demo_fs) < 2 ^ 32" using demo_reads by (simp add: reads_files_of_def)
  let ?vc = "demo_ves_client\<lparr>vc_client := demo_scan_client\<rparr>"
  have "cl_lifecycle demo_scan_client \<noteq> LcClosed" by (simp add: demo_scan_client_def demo_live_client_def)
  then have open_: "cl_lifecycle (vc_client ?vc) \<noteq> LcClosed" by simp
  have short: "length (sk_path demo_scan_task) < 2 ^ 32" by (simp add: demo_scan_task_def)
  have call: "ps_call (demo_scan_submit payload) = InvokeMemRpcApi_call VesOpcode_ScanFile PriorityNormal 30000 payload"
    and store: "map_of (cl_store demo_scan_client) (ps_requestId (demo_scan_submit payload)) = Some demo_pending"
    and fresh: "cl_futures demo_scan_client (pr_future demo_pending) = None"
    by (simp_all add: demo_scan_submit_def demo_scan_fields)
  have sv: "Valid (sv_session demo_scan_server)" "se_maxRequestBytes (sv_session demo_scan_server) = se_maxRequestBytes (cl_session demo_scan_client)"
    by (simp_all add: demo_scan_fields demo_limits)
  have reads: "reads_files_of (wd_fs demo_world) (wd_fs demo_world)" "length (payload_path DEFAULT_FILE_PAYLOAD_DIR (wd_fs demo_world)) < 2 ^ 32"
    using demo_reads path by (simp_all add: fs)
  have after: "length (payload_path DEFAULT_FILE_PAYLOAD_DIR (wd_fs (snd (InvokeHandler
      (BuildRequestEntry (demo_scan_submit payload) payload PAYLOAD_KIND_INLINE) demo_scan_server demo_world)))) < 2 ^ 32"
    using reads(2) run(2) by simp
  have handlers: "sv_handlers demo_scan_server = sv_handlers (register_to_server (EngineRegisterHandlers demo_scan_engine) demo_server)"
    by (simp only: demo_scan_server_def)
  from scan_end_to_end [OF payload(1) short demo_scan_result call run(1) reads(2,1) sv handlers pe(1) refl pe(2) after reads(1) store fresh res open_,
      of "[]" demo_scan_client None demo_world]
  obtain reply where reply: "Wait (Some (pr_future demo_pending)) cl'' = Some reply"
      "case VesScanFile demo_scan_task reply [] demo_scan_client None ?vc demo_world of (status, answer, vc', _) \<Rightarrow>
         status = Ok \<and> answer = Some \<lparr>sf_code = 0, sf_threatLevel = 1\<rparr> \<and> vc_engineDeathCount vc' = 0"
    by (elim exE conjE) (rule that)
  obtain st an vc' w' where "VesScanFile demo_scan_task reply [] demo_scan_client None ?vc demo_world = (st, an, vc', w')" by (metis prod_cases4)
  with reply(2) have "fst (snd (VesScanFile demo_scan_task reply [] demo_scan_client None ?vc demo_world)) = Some \<lparr>sf_code = 0, sf_threatLevel = 1\<rparr>"
    by simp
  moreover have "Wait (Some 0) cl'' = Some reply" using reply(1) by (simp add: demo_pending_def)
  ultimately show ?thesis using payload(1) pe(1) res by (intro exI conjI)
qed

end
